(* ===== verification/Prelude.thy ===== *)
theory Prelude
  imports Main
begin

text \<open>
  What every component shares: Go errors as values, the two shapes a Go call can end in
  (a return or a panic), and the collections of rewrite rules the component proofs use.
  A Go function that returns \<open>(T, error)\<close> and whose callers only read \<open>T\<close> when the error is
  nil is modelled by \<open>'a result\<close>; where the code reads both, the model returns the pair.
\<close>

named_theorems go_simps \<open>evaluation of printed numbers and versions on literals\<close>
named_theorems check_simps \<open>equations of the check results and their constructors\<close>
named_theorems cond_simps \<open>equations of the operator condition list\<close>

subsection \<open>Errors\<close>

text \<open>
  A Go error is its message. The only other thing this program asks of an error is whether the
  API server answered "not found" (\<open>apierrors.IsNotFound\<close>), so that is the constructor.
  Wrapping with \<open>fmt.Errorf\<close> and \<open>%v\<close> keeps the text only.
\<close>

datatype go_error = NotFound (err_msg: string) | Failure (err_msg: string)

fun is_not_found :: "go_error \<Rightarrow> bool" where
  "is_not_found (NotFound m) = True"
| "is_not_found (Failure m) = False"

type_synonym 'a result = "go_error + 'a"

text \<open>
  A call returns a value, panics (a nil dereference; in a goroutine without a recover it ends the
  process), or ends the process itself (\<open>os.Exit\<close>, \<open>klog.Fatal\<close>).
\<close>

datatype 'a outcome = Returned 'a | Panicked string | Exited

fun obind :: "'a outcome \<Rightarrow> ('a \<Rightarrow> 'b outcome) \<Rightarrow> 'b outcome" where
  "obind (Returned v) f = f v"
| "obind (Panicked m) f = Panicked m"
| "obind Exited f = Exited"

lemma obind_Returned: "obind r f = Returned w \<longleftrightarrow> (\<exists>v. r = Returned v \<and> f v = Returned w)"
  by (cases r) auto

lemma obind_Exited: "obind r f = Exited \<longleftrightarrow> r = Exited \<or> (\<exists>v. r = Returned v \<and> f v = Exited)"
  by (cases r) auto

lemma obind_Panicked:
  "obind r f = Panicked m \<longleftrightarrow> r = Panicked m \<or> (\<exists>v. r = Returned v \<and> f v = Panicked m)"
  by (cases r) auto

lemma obind_ReturnedE:
  assumes "obind r f = Returned w"
  obtains v where "r = Returned v" and "f v = Returned w"
  using assms by (auto simp: obind_Returned)

lemma obind_ExitedE:
  assumes "obind r f = Exited"
  obtains "r = Exited" | v where "r = Returned v" and "f v = Exited"
  using assms by (auto simp: obind_Exited)

lemma obind_cong [fundef_cong]:
  "r = r' \<Longrightarrow> (\<And>v. r' = Returned v \<Longrightarrow> f v = g v) \<Longrightarrow> obind r f = obind r' g"
  by (cases r') auto

lemma obind_assoc: "obind (obind r f) g = obind r (\<lambda>v. obind (f v) g)"
  by (cases r) auto

lemmas obind_iffs = obind_Returned obind_Exited obind_Panicked

definition nil_deref :: string where
  "nil_deref = ''invalid memory address or nil pointer dereference''"

fun map_err :: "(string \<Rightarrow> string) \<Rightarrow> 'a result \<Rightarrow> 'a result" where
  "map_err f (Inl e) = Inl (Failure (f (err_msg e)))"
| "map_err f (Inr v) = Inr v"

lemma map_err_Inr [simp]: "map_err f r = Inr v \<longleftrightarrow> r = Inr v"
  by (cases r) auto

lemma map_err_Inl: "map_err f r = Inl e \<longleftrightarrow> (\<exists>e'. r = Inl e' \<and> e = Failure (f (err_msg e')))"
  by (cases r) auto

fun rbind :: "'a result \<Rightarrow> ('a \<Rightarrow> 'b result) \<Rightarrow> 'b result" where
  "rbind (Inl e) f = Inl e"
| "rbind (Inr v) f = f v"

lemma rbind_Inr: "rbind r f = Inr w \<longleftrightarrow> (\<exists>v. r = Inr v \<and> f v = Inr w)"
  by (cases r) auto

lemma rbind_Inl: "rbind r f = Inl e \<longleftrightarrow> r = Inl e \<or> (\<exists>v. r = Inr v \<and> f v = Inl e)"
  by (cases r) auto

text \<open>A loop whose body may fail: the first error ends it.\<close>

fun map_result :: "('a \<Rightarrow> 'b result) \<Rightarrow> 'a list \<Rightarrow> 'b list result" where
  "map_result f [] = Inr []"
| "map_result f (x # xs) = rbind (f x) (\<lambda>y. rbind (map_result f xs) (\<lambda>ys. Inr (y # ys)))"

lemma map_result_ok: "\<forall>x \<in> set xs. f x = Inr (g x) \<Longrightarrow> map_result f xs = Inr (map g xs)"
  by (induction xs) auto

lemma map_result_Inr: "map_result f xs = Inr ys \<Longrightarrow> list_all2 (\<lambda>x y. f x = Inr y) xs ys"
  by (induction xs arbitrary: ys) (auto simp: rbind_Inr)

subsection \<open>Lists and association lists\<close>

text \<open>
  A Go map that the code iterates over is an association list with distinct keys: the iteration
  order, which Go leaves open, is the order of the list, so a theorem about every such list holds
  for every order.
\<close>

type_synonym ('k, 'v) go_map = "('k \<times> 'v) list"

abbreviation keys :: "('k, 'v) go_map \<Rightarrow> 'k list" where
  "keys m \<equiv> map fst m"

lemma map_of_Some_in: "map_of m k = Some v \<Longrightarrow> (k, v) \<in> set m"
  by (rule map_of_SomeD)

lemma map_of_distinct_perm:
  assumes "distinct (keys m)" and "distinct (keys m')" and "set m = set m'"
  shows "map_of m = map_of m'"
  using assms by (metis map_of_inject_set)

lemma dropWhile_append_stop:
  assumes "\<forall>x \<in> set xs. P x" and "\<not> P y"
  shows "dropWhile P (xs @ y # ys) = y # ys"
  using assms by (induction xs) auto

lemma takeWhile_append_stop:
  assumes "\<forall>x \<in> set xs. P x" and "\<not> P y"
  shows "takeWhile P (xs @ y # ys) = xs"
  using assms by (induction xs) auto

lemma dropWhile_none: "\<forall>x \<in> set xs. \<not> P x \<Longrightarrow> dropWhile P xs = xs"
  by (cases xs) auto

end
