(* ===== verification/Go_Strings.thy ===== *)
theory Go_Strings
  imports Prelude "HOL-Library.Word" "HOL-Library.Char_ord" "HOL-Library.List_Lexorder"
begin

text \<open>
  The Go standard library functions on strings and numbers that the operator calls
  (packages \<open>strings\<close>, \<open>strconv\<close>, \<open>sort\<close>). A Go string is a byte sequence, here a list of
  \<open>char\<close>; \<open>TrimSpace\<close> and \<open>ToLower\<close> are modelled on the ASCII range, the only one the program
  applies them to (versions, UUIDs, controller names). The order on strings is Go's bytewise
  order (\<open>List_Lexorder\<close> over \<open>Char_ord\<close>).
\<close>

subsection \<open>Package strings\<close>

definition nl :: string where
  "nl = ''\<newline>''"

definition has_prefix :: "string \<Rightarrow> string \<Rightarrow> bool" where
  "has_prefix s p \<longleftrightarrow> take (length p) s = p"

definition has_suffix :: "string \<Rightarrow> string \<Rightarrow> bool" where
  "has_suffix s p \<longleftrightarrow> length p \<le> length s \<and> drop (length s - length p) s = p"

definition trim_prefix :: "string \<Rightarrow> string \<Rightarrow> string" where
  "trim_prefix s p = (if has_prefix s p then drop (length p) s else s)"

definition trim :: "string \<Rightarrow> string \<Rightarrow> string" where
  "trim s cutset =
     rev (dropWhile (\<lambda>c. c \<in> set cutset) (rev (dropWhile (\<lambda>c. c \<in> set cutset) s)))"

definition ascii_space :: string where
  "ascii_space = [CHR 0x09, CHR 0x0A, CHR 0x0B, CHR 0x0C, CHR 0x0D, CHR 0x20]"

definition trim_space :: "string \<Rightarrow> string" where
  "trim_space s = trim s ascii_space"

definition to_lower :: "string \<Rightarrow> string" where
  "to_lower s = map (\<lambda>c. if 65 \<le> (of_char c :: nat) \<and> (of_char c :: nat) \<le> 90
                         then char_of ((of_char c :: nat) + 32) else c) s"

fun split_on :: "char \<Rightarrow> string \<Rightarrow> string list" where
  "split_on d [] = [[]]"
| "split_on d (c # s) =
     (if c = d then [] # split_on d s
      else (case split_on d s of [] \<Rightarrow> [[c]] | p # ps \<Rightarrow> (c # p) # ps))"

fun split_n :: "char \<Rightarrow> nat \<Rightarrow> string \<Rightarrow> string list" where
  "split_n d 0 s = []"
| "split_n d (Suc 0) s = [s]"
| "split_n d (Suc (Suc n)) s =
     (case dropWhile (\<lambda>c. c \<noteq> d) s of
        [] \<Rightarrow> [s]
      | _ # r \<Rightarrow> takeWhile (\<lambda>c. c \<noteq> d) s # split_n d (Suc n) r)"

fun join :: "string \<Rightarrow> string list \<Rightarrow> string" where
  "join sep [] = []"
| "join sep [p] = p"
| "join sep (p # q # ps) = p @ sep @ join sep (q # ps)"

text \<open>\<open>strings.ReplaceAll\<close> for the non-empty patterns the program uses.\<close>

function replace_all :: "string \<Rightarrow> string \<Rightarrow> string \<Rightarrow> string" where
  "replace_all [] old new = []"
| "replace_all (c # s) old new =
     (if old \<noteq> [] \<and> has_prefix (c # s) old
      then new @ replace_all (drop (length old) (c # s)) old new
      else c # replace_all s old new)"
  by pat_completeness auto
termination
  by (relation "measure (\<lambda>(s, old, new). length s)") auto

definition quote :: "string \<Rightarrow> string" where
  "quote s = [CHR 0x22] @ concat (map (\<lambda>c. if c = CHR 0x22 \<or> c = CHR 0x5C then [CHR 0x5C, c] else [c]) s)
             @ [CHR 0x22]"

lemma has_prefix_append [simp]: "has_prefix (p @ s) p"
  by (simp add: has_prefix_def)

lemma has_prefix_iff: "has_prefix s p \<longleftrightarrow> (\<exists>t. s = p @ t)"
  by (metis append_eq_conv_conj append_take_drop_id has_prefix_def)

lemma has_suffix_iff: "has_suffix s p \<longleftrightarrow> (\<exists>t. s = t @ p)"
proof
  assume "has_suffix s p"
  then have "s = take (length s - length p) s @ p"
    by (metis append_take_drop_id has_suffix_def)
  then show "\<exists>t. s = t @ p" ..
next
  assume "\<exists>t. s = t @ p"
  then show "has_suffix s p"
    by (auto simp: has_suffix_def)
qed

lemma has_suffix_append [simp]: "has_suffix (t @ p) p"
  by (auto simp: has_suffix_iff)

lemma trim_prefix_append [simp]: "trim_prefix (p @ s) p = s"
  by (simp add: trim_prefix_def)

lemma trim_id:
  assumes "s = [] \<or> hd s \<notin> set cs \<and> last s \<notin> set cs"
  shows "trim s cs = s"
proof (cases "s = []")
  case False
  with assms have h: "hd s \<notin> set cs" and l: "last s \<notin> set cs" by auto
  from False h have "dropWhile (\<lambda>c. c \<in> set cs) s = s"
    by (cases s) auto
  moreover from False l have "dropWhile (\<lambda>c. c \<in> set cs) (rev s) = rev s"
    by (cases s rule: rev_cases) auto
  ultimately show ?thesis by (simp add: trim_def)
qed (simp add: trim_def)

lemma trim_left_part:
  assumes "\<forall>c \<in> set p. c \<in> set cs" and "s = [] \<or> hd s \<notin> set cs \<and> last s \<notin> set cs"
  shows "trim (p @ s) cs = s"
proof (cases "s = []")
  case True
  from assms(1) have "dropWhile (\<lambda>c. c \<in> set cs) p = []" by (simp only: dropWhile_eq_Nil_conv)
  with True show ?thesis by (simp add: trim_def del: dropWhile_eq_Nil_conv)
next
  case False
  then obtain c s' where s: "s = c # s'" by (cases s) auto
  with assms have "dropWhile (\<lambda>c. c \<in> set cs) (p @ s) = s"
    by (simp add: dropWhile_append_stop)
  with trim_id [OF assms(2)] show ?thesis
    by (metis assms(2) dropWhile_eq_self_iff trim_def)
qed

lemma split_on_nonempty [simp]: "split_on d s \<noteq> []"
  by (induction s) (auto split: list.splits)

lemma join_Cons: "ps \<noteq> [] \<Longrightarrow> join sep (p # ps) = p @ sep @ join sep ps"
  by (cases ps) auto

lemma join_split_on: "join [d] (split_on d s) = s"
proof (induction s)
  case (Cons c s)
  show ?case
  proof (cases "c = d")
    case True
    with Cons.IH show ?thesis by (simp add: join_Cons)
  next
    case False
    obtain p ps where p: "split_on d s = p # ps"
      by (cases "split_on d s") auto
    with Cons.IH False show ?thesis
      by (cases ps) auto
  qed
qed simp

lemma split_on_no_sep: "d \<notin> set s \<Longrightarrow> split_on d s = [s]"
  by (induction s) auto

lemma split_on_append_sep: "d \<notin> set p \<Longrightarrow> split_on d (p @ d # s) = p # split_on d s"
  by (induction p) auto

lemma split_on_join:
  "ps \<noteq> [] \<Longrightarrow> \<forall>p \<in> set ps. d \<notin> set p \<Longrightarrow> split_on d (join [d] ps) = ps"
proof (induction ps rule: induct_list012)
  case (3 p q ps)
  then show ?case by (simp add: split_on_append_sep)
qed (auto simp: split_on_no_sep)

lemma split_on_parts: "p \<in> set (split_on d s) \<Longrightarrow> d \<notin> set p"
proof (induction s arbitrary: p)
  case (Cons c s)
  then show ?case
    by (cases "split_on d s") (auto split: if_splits)
qed auto

lemma split_n_append_sep:
  "d \<notin> set p \<Longrightarrow> split_n d (Suc (Suc n)) (p @ d # s) = p # split_n d (Suc n) s"
proof -
  assume "d \<notin> set p"
  then have n: "\<forall>c \<in> set p. c \<noteq> d" by auto
  show ?thesis
    using dropWhile_append_stop [OF n, of d s] takeWhile_append_stop [OF n, of d s] by simp
qed

lemma split_n_no_sep: "d \<notin> set s \<Longrightarrow> split_n d (Suc n) s = [s]"
proof (cases n)
  case (Suc m)
  assume "d \<notin> set s"
  then have "\<forall>x \<in> set s. x \<noteq> d" by auto
  then have "dropWhile (\<lambda>c. c \<noteq> d) s = []"
    by (simp only: dropWhile_eq_Nil_conv)
  with Suc show ?thesis by (simp del: dropWhile_eq_Nil_conv)
qed simp

lemmas split_facts = split_on_no_sep split_on_append_sep split_on_join
  split_n_append_sep split_n_no_sep

lemma replace_all_absent:
  assumes "\<And>a b. s \<noteq> a @ old @ b"
  shows "replace_all s old new = s"
  using assms
proof (induction s old new rule: replace_all.induct)
  case (2 c s old new)
  have "\<not> has_prefix (c # s) old"
    using "2.prems" [of "[]"] by (auto simp: has_prefix_iff)
  moreover have "\<And>a b. s \<noteq> a @ old @ b"
    using "2.prems" by (metis append_Cons)
  ultimately show ?case using "2.IH"(2) by auto
qed simp

subsection \<open>Package strconv\<close>

definition digit_char :: "nat \<Rightarrow> char" where
  "digit_char d = ''0123456789'' ! d"

definition is_digit :: "char \<Rightarrow> bool" where
  "is_digit c \<longleftrightarrow> 48 \<le> (of_char c :: nat) \<and> (of_char c :: nat) \<le> 57"

text \<open>\<open>FormatUint(n, 10)\<close>.\<close>

fun nat_to_dec :: "nat \<Rightarrow> string" where
  "nat_to_dec n =
     (if n < 10 then [digit_char n] else nat_to_dec (n div 10) @ [digit_char (n mod 10)])"

declare nat_to_dec.simps [simp del]

definition format_int :: "int \<Rightarrow> string" where
  "format_int i = (if i < 0 then ''-'' @ nat_to_dec (nat (- i)) else nat_to_dec (nat i))"

lemmas print_literal [go_simps] = nat_to_dec.simps digit_char_def format_int_def

datatype num_error = ErrSyntax | ErrRange

text \<open>The value of a digit or letter, as \<open>ParseUint\<close> reads it in bases up to 36.\<close>

definition lower :: "char \<Rightarrow> nat" where
  "lower c = (let n = (of_char c :: nat) in if 65 \<le> n \<and> n \<le> 90 then n + 32 else n)"

definition digit_val :: "char \<Rightarrow> nat option" where
  "digit_val c =
     (if is_digit c then Some ((of_char c :: nat) - 48)
      else if 97 \<le> lower c \<and> lower c \<le> 122 then Some (lower c - 97 + 10)
      else None)"

text \<open>The digit loop of \<open>ParseUint\<close>; \<open>mx\<close> is \<open>1<<bitSize - 1\<close>.\<close>

fun parse_digits :: "nat \<Rightarrow> bool \<Rightarrow> nat \<Rightarrow> string \<Rightarrow> nat \<Rightarrow> num_error + nat" where
  "parse_digits base base0 mx [] n = Inr n"
| "parse_digits base base0 mx (c # cs) n =
     (if c = CHR ''_'' \<and> base0 then parse_digits base base0 mx cs n
      else (case digit_val c of
              None \<Rightarrow> Inl ErrSyntax
            | Some d \<Rightarrow>
                if base \<le> d then Inl ErrSyntax
                else if mx < n * base + d then Inl ErrRange
                else parse_digits base base0 mx cs (n * base + d)))"

definition max_uint64 :: nat where
  "max_uint64 = 18446744073709551615"

text \<open>\<open>underscoreOK\<close>: \<open>saw\<close> is the class of the last character (digit or prefix, underscore, other).\<close>

datatype saw = SawStart | SawDigit | SawUnderscore | SawOther

fun underscore_loop :: "bool \<Rightarrow> saw \<Rightarrow> string \<Rightarrow> bool" where
  "underscore_loop hex i [] = (i \<noteq> SawUnderscore)"
| "underscore_loop hex i (c # cs) =
     (if is_digit c \<or> hex \<and> 97 \<le> lower c \<and> lower c \<le> 102 then underscore_loop hex SawDigit cs
      else if c = CHR ''_'' then i = SawDigit \<and> underscore_loop hex SawUnderscore cs
      else if i = SawUnderscore then False
      else underscore_loop hex SawOther cs)"

definition underscore_ok :: "string \<Rightarrow> bool" where
  "underscore_ok s0 =
     (let s = (case s0 of c # r \<Rightarrow> if c = CHR ''-'' \<or> c = CHR ''+'' then r else s0 | [] \<Rightarrow> s0)
      in case s of
           c # d # r \<Rightarrow>
             if c = CHR ''0'' \<and> (lower d = 98 \<or> lower d = 111 \<or> lower d = 120)
             then underscore_loop (lower d = 120) SawDigit r
             else underscore_loop False SawStart s
         | _ \<Rightarrow> underscore_loop False SawStart s)"

text \<open>The base prefix of a literal when the base argument is 0.\<close>

definition base_prefix :: "string \<Rightarrow> nat \<times> string" where
  "base_prefix s =
     (case s of
        c # r \<Rightarrow>
          if c = CHR ''0'' then
            (case r of
               d # e # r' \<Rightarrow>
                 if lower d = 98 then (2, e # r')
                 else if lower d = 111 then (8, e # r')
                 else if lower d = 120 then (16, e # r')
                 else (8, r)
             | _ \<Rightarrow> (8, r))
          else (10, s)
      | [] \<Rightarrow> (10, s))"

definition parse_uint :: "string \<Rightarrow> nat \<Rightarrow> num_error + nat" where
  "parse_uint s base =
     (if s = [] then Inl ErrSyntax
      else if base = 0 then
        (let (b, digits) = base_prefix s in
         case parse_digits b True max_uint64 digits 0 of
           Inl e \<Rightarrow> Inl e
         | Inr n \<Rightarrow> if CHR ''_'' \<in> set digits \<and> \<not> underscore_ok s then Inl ErrSyntax else Inr n)
      else parse_digits base False max_uint64 s 0)"

text \<open>\<open>ParseInt(s, base, 64)\<close>.\<close>

definition parse_int :: "string \<Rightarrow> nat \<Rightarrow> num_error + int" where
  "parse_int s base =
     (case s of
        [] \<Rightarrow> Inl ErrSyntax
      | c # r \<Rightarrow>
          (let neg = (c = CHR ''-'');
               body = (if c = CHR ''+'' \<or> c = CHR ''-'' then r else s)
           in case parse_uint body base of
                Inl ErrSyntax \<Rightarrow> Inl ErrSyntax
              | Inl ErrRange \<Rightarrow> Inl ErrRange
              | Inr un \<Rightarrow>
                  if \<not> neg \<and> 2 ^ 63 \<le> un then Inl ErrRange
                  else if neg \<and> 2 ^ 63 < un then Inl ErrRange
                  else Inr (if neg then - int un else int un)))"

fun num_error_text :: "num_error \<Rightarrow> string" where
  "num_error_text ErrSyntax = ''invalid syntax''"
| "num_error_text ErrRange = ''value out of range''"

definition num_error :: "string \<Rightarrow> string \<Rightarrow> num_error \<Rightarrow> go_error" where
  "num_error fn s e = Failure (''strconv.'' @ fn @ '': parsing '' @ quote s @ '': '' @ num_error_text e)"

subsection \<open>Decimal numerals\<close>

lemma of_char_digit_char: "d < 10 \<Longrightarrow> (of_char (digit_char d) :: nat) = 48 + d"
  by (auto simp: digit_char_def less_Suc_eq numeral_eq_Suc)

lemma is_digit_digit_char: "d < 10 \<Longrightarrow> is_digit (digit_char d)"
  by (simp add: is_digit_def of_char_digit_char)

lemma digit_val_digit_char [simp]: "d < 10 \<Longrightarrow> digit_val (digit_char d) = Some d"
  by (simp add: digit_val_def is_digit_digit_char of_char_digit_char)

lemma digit_char_not [simp]:
  "d < 10 \<Longrightarrow> digit_char d \<noteq> CHR ''.''" "d < 10 \<Longrightarrow> digit_char d \<noteq> CHR ''_''"
  "d < 10 \<Longrightarrow> digit_char d \<noteq> CHR ''-''" "d < 10 \<Longrightarrow> digit_char d \<noteq> CHR ''+''"
  by (auto dest!: arg_cong [where f = "of_char :: char \<Rightarrow> nat"] simp: of_char_digit_char)

lemma nat_to_dec_nonempty [simp]: "nat_to_dec n \<noteq> []"
  by (subst nat_to_dec.simps) simp

lemma nat_to_dec_digits: "\<forall>c \<in> set (nat_to_dec n). is_digit c"
proof (induction n rule: nat_to_dec.induct)
  case (1 n)
  show ?case
  proof (cases "n < 10")
    case True
    then show ?thesis by (subst nat_to_dec.simps) (simp add: is_digit_digit_char)
  next
    case False
    with 1 show ?thesis by (subst nat_to_dec.simps) (auto simp: is_digit_digit_char)
  qed
qed

lemma nat_to_dec_hd: "0 < n \<Longrightarrow> hd (nat_to_dec n) \<noteq> CHR ''0''"
proof (induction n rule: nat_to_dec.induct)
  case (1 n)
  show ?case
  proof (cases "n < 10")
    case True
    with "1.prems" have "(of_char (digit_char n) :: nat) \<noteq> of_char CHR ''0''"
      by (simp add: of_char_digit_char)
    then have "digit_char n \<noteq> CHR ''0''" by metis
    with True show ?thesis by (subst nat_to_dec.simps) simp
  next
    case False
    then have "0 < n div 10" by simp
    with 1 False show ?thesis by (subst nat_to_dec.simps) simp
  qed
qed

lemma nat_to_dec_zero [simp]: "nat_to_dec 0 = ''0''"
  by (subst nat_to_dec.simps) (simp add: digit_char_def)

lemma length_nat_to_dec_gt1: "1 < length (nat_to_dec n) \<Longrightarrow> 0 < n"
  by (cases "n = 0") auto

lemma parse_digits_append:
  "parse_digits b z mx (xs @ ys) n =
     (case parse_digits b z mx xs n of Inl e \<Rightarrow> Inl e | Inr m \<Rightarrow> parse_digits b z mx ys m)"
  by (induction xs arbitrary: n) (auto split: option.splits)

lemma parse_digits_nat_to_dec: "n \<le> mx \<Longrightarrow> parse_digits 10 False mx (nat_to_dec n) 0 = Inr n"
proof (induction n rule: nat_to_dec.induct)
  case (1 n)
  show ?case
  proof (cases "n < 10")
    case True
    with "1.prems" show ?thesis by (subst nat_to_dec.simps) simp
  next
    case False
    have "n div 10 * 10 + n mod 10 = n" by simp
    with 1 False show ?thesis
      by (subst nat_to_dec.simps) (simp add: parse_digits_append)
  qed
qed

lemma parse_uint_nat_to_dec: "n \<le> max_uint64 \<Longrightarrow> parse_uint (nat_to_dec n) 10 = Inr n"
  by (simp add: parse_uint_def parse_digits_nat_to_dec)

lemma parse_digits_base0:
  "CHR ''_'' \<notin> set s \<Longrightarrow> parse_digits b True mx s n = parse_digits b False mx s n"
  by (induction s arbitrary: n) (auto split: option.splits)

lemma digits_no_underscore:
  assumes "\<forall>c \<in> set s. is_digit c"
  shows "CHR ''_'' \<notin> set s" "CHR ''v'' \<notin> set s" "CHR ''m'' \<notin> set s" "CHR ''x'' \<notin> set s"
  using assms by (auto simp: is_digit_def)

text \<open>With base 0 a numeral reads back when it has no leading zero.\<close>

lemma parse_int_nat_to_dec:
  assumes "0 < n" and "n < 2 ^ 63"
  shows "parse_int (nat_to_dec n) 0 = Inr (int n)"
proof -
  obtain c cs where s: "nat_to_dec n = c # cs" by (cases "nat_to_dec n") auto
  have c: "c \<noteq> CHR ''0''" using nat_to_dec_hd [OF assms(1)] s by simp
  have dig: "\<forall>d \<in> set (c # cs). is_digit d" using nat_to_dec_digits [of n] s by simp
  then have "c \<noteq> CHR ''-''" "c \<noteq> CHR ''+''" by (auto simp: is_digit_def)
  moreover have "CHR ''_'' \<notin> set (c # cs)" using digits_no_underscore [OF dig] by simp
  moreover have "parse_digits 10 False max_uint64 (c # cs) 0 = Inr n"
    using parse_digits_nat_to_dec [of n max_uint64] assms(2) s by (simp add: max_uint64_def)
  ultimately have "parse_uint (c # cs) 0 = Inr n"
    using c parse_digits_base0 [of "c # cs" 10 max_uint64 0]
    by (simp add: parse_uint_def base_prefix_def del: parse_digits.simps)
  with s \<open>c \<noteq> CHR ''-''\<close> \<open>c \<noteq> CHR ''+''\<close> assms(2) show ?thesis by (simp add: parse_int_def)
qed

lemma digits_not_sep:
  assumes "\<forall>c \<in> set s. is_digit c"
  shows "CHR ''.'' \<notin> set s" "CHR ''-'' \<notin> set s" "CHR ''+'' \<notin> set s"
  using assms by (auto simp: is_digit_def)

lemmas nat_to_dec_seps [simp] = digits_not_sep [OF nat_to_dec_digits]

lemmas decimal_facts = nat_to_dec_digits nat_to_dec_hd length_nat_to_dec_gt1 parse_uint_nat_to_dec

end
