(* ===== verification/Api_Types.thy ===== *)
theory Api_Types
  imports Go_Strings
begin

text \<open>
  The Kubernetes and OpenShift API objects the operator reads and writes, with the fields its code
  uses. Optional struct pointers are \<open>option\<close>; nested specs are flattened into the record (the
  field names say where they come from). Sized integers keep their width.
\<close>

subsection \<open>config.openshift.io: Infrastructure\<close>

record VCenterSpec =
  vc_Server :: string
  vc_Datacenters :: "string list"

record FailureDomainSpec =
  fd_Name :: string
  fd_Region :: string
  fd_Zone :: string
  fd_Server :: string
  fd_Datacenter :: string
  fd_Folder :: string
  fd_ResourcePool :: string
  fd_Datastore :: string

record VSpherePlatformSpec =
  VCenters :: "VCenterSpec list"
  FailureDomains :: "FailureDomainSpec list"

record Infrastructure =
  Platform_VSphere :: "VSpherePlatformSpec option"
  CloudConfig_Name :: string
  CloudConfig_Key :: string
  InfrastructureName :: string
  PlatformStatus_Type :: "string option"
  ControlPlaneTopology :: string

subsection \<open>operator.openshift.io: ClusterCSIDriver and operator status\<close>

datatype ManagementState = Managed | Unmanaged | Removed | Force

text \<open>The value of \<open>storageClassState\<close>; the API server allows these and the empty string.\<close>

datatype StorageClassState =
  ManagedStorageClass | UnmanagedStorageClass | RemovedStorageClass | EmptyState | OtherState string

datatype LogLevel = Normal | Debug | Trace | TraceAll | OtherLevel string

record OperatorSpec =
  Spec_ManagementState :: ManagementState
  Spec_LogLevel :: LogLevel
  Spec_ObservedConfig :: string \<comment> \<open>the raw bytes\<close>

record VSphereDriverConfig =
  TopologyCategories :: "string list"
  GlobalMaxSnapshotsPerBlockVolume :: "32 word option"
  GranularMaxSnapshotsPerBlockVolumeInVSAN :: "32 word option"
  GranularMaxSnapshotsPerBlockVolumeInVVOL :: "32 word option"
  MaxAllowedBlockVolumesPerNode :: "32 word"

record ClusterCSIDriver =
  DriverType :: string
  DriverConfig_VSphere :: "VSphereDriverConfig option"
  Spec_StorageClassState :: StorageClassState

datatype ConditionStatus = ConditionTrue | ConditionFalse | ConditionUnknown

record OperatorCondition =
  cnd_Type :: string
  cnd_Status :: ConditionStatus
  cnd_Reason :: string
  cnd_Message :: string
  cnd_LastTransitionTime :: int

subsection \<open>core/v1 and storage.k8s.io/v1\<close>

record Node =
  node_Name :: string
  node_Labels :: "string \<rightharpoonup> string"
  node_ProviderID :: string

record CSIDriver =
  drv_Name :: string
  drv_Annotations :: "string \<rightharpoonup> string"

record CSINode =
  csinode_Name :: string
  csinode_Drivers :: "string list"

text \<open>A feature gate is the set of the gates that are on.\<close>

type_synonym FeatureGate = "string list"

definition gate_enabled :: "FeatureGate \<Rightarrow> string \<Rightarrow> bool" where
  "gate_enabled fg g \<longleftrightarrow> g \<in> set fg"

definition FeatureGateVSphereMixedNodeEnv :: string where
  "FeatureGateVSphereMixedNodeEnv = ''VSphereMixedNodeEnv''"

definition FeatureGateVSphereConfigurableMaxAllowedBlockVolumesPerNode :: string where
  "FeatureGateVSphereConfigurableMaxAllowedBlockVolumesPerNode =
     ''VSphereConfigurableMaxAllowedBlockVolumesPerNode''"

subsection \<open>Constants of package utils\<close>

definition OpenshiftCSIDriverAnnotationKey :: string where
  "OpenshiftCSIDriverAnnotationKey = ''csi.openshift.io/managed''"

definition VSphereDriverName :: string where
  "VSphereDriverName = ''csi.vsphere.vmware.com''"

definition DefaultNamespace :: string where
  "DefaultNamespace = ''openshift-cluster-csi-drivers''"

definition InfraGlobalName :: string where
  "InfraGlobalName = ''cluster''"

definition MaxVolumesPerNodeVSphere7 :: int where
  "MaxVolumesPerNodeVSphere7 = 59"

end
