(* ===== verification/Vclib.thy ===== *)
theory Vclib
  imports Api_Types
begin

text \<open>
  \<open>pkg/operator/vclib/connection.go\<close>: the cloud provider configuration, the accessors on it, and
  the life of a vCenter connection (create, connect, log out). The two configuration parsers
  (\<open>config.ReadConfig\<close>, \<open>gcfg.ReadStringInto\<close>) and the vCenter server are parameters: a client
  is the record of the answers the server gives to its queries, and every call that opens or
  closes a session is an entry of a log.
\<close>

subsection \<open>Configuration\<close>

record VirtualCenterConfig =
  VCenterIP :: string
  InsecureFlag :: bool
  cfg_Datacenters :: string

record CloudConfig =
  VirtualCenter :: "(string, VirtualCenterConfig) go_map"

record Workspace =
  ws_VCenterIP :: string
  ws_Datacenter :: string
  ws_Folder :: string
  ws_DefaultDatastore :: string
  ws_ResourcePoolPath :: string

record LegacyVSphereConfig =
  lg_VirtualCenter :: "(string, string) go_map" \<comment> \<open>server to its \<open>datacenters\<close> string\<close>
  lg_Workspace :: Workspace

record VSphereConfig =
  Config :: CloudConfig
  LegacyConfig :: "LegacyVSphereConfig option"

definition LoadConfig ::
  "(string \<Rightarrow> CloudConfig result) \<Rightarrow> (string \<Rightarrow> LegacyVSphereConfig result)
     \<Rightarrow> string \<Rightarrow> VSphereConfig result" where
  "LoadConfig readConfig readLegacy data =
     (case readConfig data of
        Inl err \<Rightarrow> Inl err
      | Inr cfg \<Rightarrow>
          (case readLegacy data of
             Inl err \<Rightarrow> Inr \<lparr>Config = cfg, LegacyConfig = None\<rparr>
           | Inr lCfg \<Rightarrow> Inr \<lparr>Config = cfg, LegacyConfig = Some lCfg\<rparr>))"

abbreviation vcenter_entry :: "VSphereConfig \<Rightarrow> string \<Rightarrow> VirtualCenterConfig option" where
  "vcenter_entry c vcenter \<equiv> map_of (VirtualCenter (Config c)) vcenter"

definition GetVCenterHostname :: "VSphereConfig \<Rightarrow> string \<Rightarrow> string result" where
  "GetVCenterHostname c vcenter =
     (case vcenter_entry c vcenter of
        Some vcenterConfig \<Rightarrow> Inr (VCenterIP vcenterConfig)
      | None \<Rightarrow> Inl (Failure ''vcenter not found''))"

text \<open>The boolean is returned beside the error: an unknown vCenter counts as insecure.\<close>

definition IsInsecure :: "VSphereConfig \<Rightarrow> string \<Rightarrow> bool \<times> go_error option" where
  "IsInsecure c vcenter =
     (case vcenter_entry c vcenter of
        Some vcenterConfig \<Rightarrow> (InsecureFlag vcenterConfig, None)
      | None \<Rightarrow> (True, Some (Failure ''vcenter not found'')))"

definition GetDatacenters :: "VSphereConfig \<Rightarrow> string \<Rightarrow> string list result" where
  "GetDatacenters c vcenter =
     (case vcenter_entry c vcenter of
        Some vcenterConfig \<Rightarrow> Inr (split_on CHR '','' (cfg_Datacenters vcenterConfig))
      | None \<Rightarrow>
          (case LegacyConfig c of
             None \<Rightarrow> Inl (Failure ''legacy config not found'')
           | Some lg \<Rightarrow> Inr [ws_Datacenter (lg_Workspace lg)]))"

definition GetWorkspaceDatacenter :: "VSphereConfig \<Rightarrow> string result" where
  "GetWorkspaceDatacenter c =
     (case LegacyConfig c of
        None \<Rightarrow> Inl (Failure ''legacy config not found'')
      | Some lg \<Rightarrow> Inr (ws_Datacenter (lg_Workspace lg)))"

definition GetDefaultDatastore :: "VSphereConfig \<Rightarrow> string result" where
  "GetDefaultDatastore c =
     (case LegacyConfig c of
        None \<Rightarrow> Inl (Failure ''legacy config not found'')
      | Some lg \<Rightarrow> Inr (ws_DefaultDatastore (lg_Workspace lg)))"

subsection \<open>What a vCenter client answers\<close>

record VirtualMachine =
  vm_Config_Version :: "string option" \<comment> \<open>\<open>vm.Config\<close> may be nil\<close>
  vm_Runtime_Host :: "string option"

record HostSystem =
  host_Config_ApiVersion :: "string option" \<comment> \<open>\<open>host.Config\<close> may be nil\<close>

record Datastore =
  ds_Reference :: string
  ds_Summary_Name :: string
  ds_Summary_Url :: string

text \<open>
  \<open>govmomi.Client\<close>: the service content of the login and the queries of the finder, the search
  index and the property collector. References are opaque strings.
\<close>

record VClient =
  ApiVersion :: string
  About_Build :: string
  find_Datacenter :: "string \<Rightarrow> string result"
  find_ByUuid :: "string \<Rightarrow> string \<Rightarrow> string option result"
  props_VM :: "string \<Rightarrow> VirtualMachine result"
  props_Host :: "string \<Rightarrow> HostSystem result"
  find_Datastore :: "string \<Rightarrow> string \<Rightarrow> string result"
  props_Datastore :: "string \<Rightarrow> Datastore result"

subsection \<open>Connections\<close>

record VSphereConnection =
  Client :: "VClient option"
  RestClient :: bool \<comment> \<open>set once the REST session is open\<close>
  Username :: string
  Password :: string
  Hostname :: string
  Insecure :: bool
  conn_Config :: VSphereConfig

definition NewVSphereConnection ::
  "string \<Rightarrow> string \<Rightarrow> string \<Rightarrow> VSphereConfig \<Rightarrow> VSphereConnection result" where
  "NewVSphereConnection username password vcenter cfg =
     (case GetVCenterHostname cfg vcenter of
        Inl err \<Rightarrow> Inl err
      | Inr hostname \<Rightarrow>
          (case IsInsecure cfg vcenter of
             (_, Some err) \<Rightarrow> Inl err
           | (isInsecure, None) \<Rightarrow>
               Inr \<lparr>Client = None, RestClient = False, Username = username, Password = password,
                    Hostname = hostname, Insecure = isInsecure, conn_Config = cfg\<rparr>))"

text \<open>
  The vCenter server: what it answers to the calls of \<open>NewClient\<close> and \<open>Logout\<close>. The log keeps
  the logins that succeeded and the logout calls.
\<close>

record VCService =
  svc_ParseURL :: "string \<Rightarrow> unit result"
  svc_NewClient :: "string \<Rightarrow> bool \<Rightarrow> VClient result"
  svc_Login :: "string \<Rightarrow> string \<Rightarrow> string \<Rightarrow> unit result"
  svc_RestLogin :: "string \<Rightarrow> string \<Rightarrow> string \<Rightarrow> unit result"
  svc_RestLogout :: "string \<Rightarrow> unit result"
  svc_Logout :: "string \<Rightarrow> unit result"

datatype session_event =
  SoapLogin string | RestLogin string | RestLogout string | SoapLogout string

type_synonym session_log = "session_event list"

definition NewClient ::
  "VCService \<Rightarrow> VSphereConnection \<Rightarrow> session_log
     \<Rightarrow> go_error option \<times> VSphereConnection \<times> session_log" where
  "NewClient svc c log =
     (let host = Hostname c
      in case svc_ParseURL svc host of
           Inl err \<Rightarrow> (Some (Failure (''failed to parse config file: '' @ err_msg err)), c, log)
         | Inr _ \<Rightarrow>
             (case svc_NewClient svc host (Insecure c) of
                Inl err \<Rightarrow> (Some err, c, log)
              | Inr client \<Rightarrow>
                  (case svc_Login svc host (Username c) (Password c) of
                     Inl err \<Rightarrow>
                       (Some (Failure (''error logging into vcenter: '' @ err_msg err)), c, log)
                   | Inr _ \<Rightarrow>
                       (let c' = c\<lparr>Client := Some client\<rparr>; log' = log @ [SoapLogin host]
                        in case svc_RestLogin svc host (Username c) (Password c) of
                             Inl err \<Rightarrow>
                               (Some (Failure (''error logging into vcenter RESTful services: ''
                                               @ err_msg err)), c', log')
                           | Inr _ \<Rightarrow>
                               (None, c'\<lparr>RestClient := True\<rparr>, log' @ [RestLogin host])))))"

definition Connect ::
  "VCService \<Rightarrow> VSphereConnection \<Rightarrow> session_log
     \<Rightarrow> go_error option \<times> VSphereConnection \<times> session_log" where
  "Connect svc c log = (case Client c of None \<Rightarrow> NewClient svc c log | Some _ \<Rightarrow> (None, c, log))"

definition GetVersionInfo :: "VSphereConnection \<Rightarrow> (string \<times> string) result" where
  "GetVersionInfo c =
     (case Client c of
        None \<Rightarrow> Inl (Failure ''no connection found to vcenter'')
      | Some client \<Rightarrow> Inr (ApiVersion client, About_Build client))"

definition Logout ::
  "VCService \<Rightarrow> VSphereConnection \<Rightarrow> session_log \<Rightarrow> go_error option \<times> session_log" where
  "Logout svc c log =
     (case Client c of
        None \<Rightarrow> (Some (Failure ''no connection found to vcenter''), log)
      | Some _ \<Rightarrow>
          (let log' = (if RestClient c then log @ [RestLogout (Hostname c)] else log)
           in (case svc_Logout svc (Hostname c) of Inl err \<Rightarrow> Some err | Inr _ \<Rightarrow> None,
               log' @ [SoapLogout (Hostname c)])))"

text \<open>The deferred loop of \<open>sync\<close>: log out of every connection, errors are only reported.\<close>

fun logout_all :: "VCService \<Rightarrow> VSphereConnection list \<Rightarrow> session_log \<Rightarrow> session_log" where
  "logout_all svc [] log = log"
| "logout_all svc (c # cs) log = logout_all svc cs (snd (Logout svc c log))"

subsection \<open>Sessions held by a connection\<close>

text \<open>The sessions a connection holds open are exactly the logins its \<open>Logout\<close> will undo.\<close>

definition held :: "VSphereConnection \<Rightarrow> session_event list" where
  "held c = (if Client c = None then []
             else SoapLogin (Hostname c) # (if RestClient c then [RestLogin (Hostname c)] else []))"

definition wf_connection :: "VSphereConnection \<Rightarrow> bool" where
  "wf_connection c \<longleftrightarrow> (RestClient c \<longrightarrow> Client c \<noteq> None)"

lemma NewVSphereConnection_ok:
  "NewVSphereConnection u p v cfg = Inr c \<Longrightarrow>
     Client c = None \<and> \<not> RestClient c \<and> Username c = u \<and> Password c = p \<and> conn_Config c = cfg
     \<and> (\<exists>e. vcenter_entry cfg v = Some e \<and> Hostname c = VCenterIP e \<and> Insecure c = InsecureFlag e)"
  by (auto simp: NewVSphereConnection_def GetVCenterHostname_def IsInsecure_def
      split: sum.splits option.splits)

lemma NewVSphereConnection_error:
  "vcenter_entry cfg v = None \<Longrightarrow>
     NewVSphereConnection u p v cfg = Inl (Failure ''vcenter not found'')"
  by (simp add: NewVSphereConnection_def GetVCenterHostname_def)

lemma NewClient_held:
  assumes "NewClient svc c log = (err, c', log')" and "Client c = None" and "\<not> RestClient c"
  shows "log' = log @ held c' \<and> wf_connection c' \<and> Hostname c' = Hostname c
         \<and> (err = None \<longrightarrow> Client c' \<noteq> None \<and> RestClient c')"
  using assms by (auto simp: NewClient_def Let_def held_def wf_connection_def split: sum.splits)

lemma Connect_held:
  assumes "Connect svc c log = (err, c', log')" and "Client c = None" and "\<not> RestClient c"
  shows "log' = log @ held c' \<and> wf_connection c' \<and> Hostname c' = Hostname c
         \<and> (err = None \<longrightarrow> Client c' \<noteq> None \<and> RestClient c')"
  using assms NewClient_held by (simp add: Connect_def)

fun undo :: "session_event \<Rightarrow> session_event" where
  "undo (SoapLogin h) = SoapLogout h"
| "undo (RestLogin h) = RestLogout h"
| "undo e = e"

lemma Logout_undoes:
  "snd (Logout svc c log) = log @ map undo (rev (held c))"
  by (simp add: Logout_def held_def Let_def split: option.splits)

lemma logout_all_undoes:
  "logout_all svc cs log = log @ concat (map (\<lambda>c. map undo (rev (held c))) cs)"
  by (induction cs arbitrary: log) (simp_all add: Logout_undoes)

lemmas connection_facts = NewVSphereConnection_ok Connect_held Logout_undoes logout_all_undoes

subsection \<open>The client of the storage service\<close>

text \<open>
  No code of the operator calls these four; \<open>newClient\<close> is \<open>cns.NewClient\<close>. On a connection that was never logged
  in, the SOAP client is nil and reading it panics.
\<close>

record 'c CnsConnection = VSphereConnection +
  conn_cnsClient :: "'c option"

definition VimClient :: "'e VSphereConnection_scheme \<Rightarrow> VClient outcome" where
  "VimClient connection =
     (case Client connection of None \<Rightarrow> Panicked nil_deref | Some client \<Rightarrow> Returned client)"

definition LoginToCNS ::
  "(VClient \<Rightarrow> 'c result) \<Rightarrow> 'c CnsConnection \<Rightarrow> (go_error option \<times> 'c CnsConnection) outcome" where
  "LoginToCNS newClient connection =
     obind (VimClient connection) (\<lambda>vimClient. Returned
       (case newClient vimClient of
          Inl err \<Rightarrow> (Some (Failure (''error creating cns client: '' @ err_msg err)), connection)
        | Inr client \<Rightarrow> (None, connection\<lparr>conn_cnsClient := Some client\<rparr>)))"

definition DefaultDatacenter :: "'e VSphereConnection_scheme \<Rightarrow> string result" where
  "DefaultDatacenter connection = GetWorkspaceDatacenter (conn_Config connection)"

definition CnsClient :: "'c CnsConnection \<Rightarrow> 'c option" where
  "CnsClient connection = conn_cnsClient connection"

lemma LoginToCNS_client:
  "LoginToCNS newClient c = Returned (err, c') \<longleftrightarrow>
     (\<exists>client. Client c = Some client \<and> (case newClient client of
        Inl e \<Rightarrow> err = Some (Failure (''error creating cns client: '' @ err_msg e)) \<and> c' = c
      | Inr cns \<Rightarrow> err = None \<and> c' = c\<lparr>conn_cnsClient := Some cns\<rparr> \<and> CnsClient c' = Some cns))"
  by (auto simp: LoginToCNS_def VimClient_def CnsClient_def split: option.split sum.split)

end
