(* ===== verification/Topology.thy ===== *)
theory Topology
  imports Api_Types "HOL-Library.AList"
begin

text \<open>
  \<open>pkg/operator/utils/topology.go\<close>, \<open>config.go\<close> and the gauges of \<open>metric.go\<close>: which topology
  categories the cluster uses, the volume limit and snapshot options of the ClusterCSIDriver, and
  the counts reported about failure domains.
\<close>

subsection \<open>Topology categories\<close>

definition defaultOpenshiftZoneCategory :: string where
  "defaultOpenshiftZoneCategory = ''openshift-zone''"

definition defaultOpenshiftRegionCategory :: string where
  "defaultOpenshiftRegionCategory = ''openshift-region''"

definition GetInfraTopologyCategories :: "Infrastructure \<Rightarrow> string list" where
  "GetInfraTopologyCategories infra =
     (case Platform_VSphere infra of
        None \<Rightarrow> []
      | Some cfg \<Rightarrow>
          if 1 < length (FailureDomains cfg)
          then [defaultOpenshiftZoneCategory, defaultOpenshiftRegionCategory]
          else [])"

definition VSphereDriverType :: string where
  "VSphereDriverType = ''vSphere''"

definition GetCSIDriverTopologyCategories :: "ClusterCSIDriver \<Rightarrow> string list" where
  "GetCSIDriverTopologyCategories d =
     (if DriverType d = VSphereDriverType then
        (case DriverConfig_VSphere d of
           None \<Rightarrow> []
         | Some cfg \<Rightarrow> if 0 < length (TopologyCategories cfg) then TopologyCategories cfg else [])
      else [])"

definition GetTopologyCategories :: "ClusterCSIDriver \<Rightarrow> Infrastructure \<Rightarrow> string list" where
  "GetTopologyCategories d infra =
     (let infraCategories = GetInfraTopologyCategories infra
      in if 0 < length infraCategories then infraCategories
         else GetCSIDriverTopologyCategories d)"

subsection \<open>Volume limit and snapshot options\<close>

definition GetMaxVolumesPerNode :: "ClusterCSIDriver option \<Rightarrow> int" where
  "GetMaxVolumesPerNode clusterCSIDriver =
     (case clusterCSIDriver of
        None \<Rightarrow> MaxVolumesPerNodeVSphere7
      | Some d \<Rightarrow>
          (case DriverConfig_VSphere d of
             None \<Rightarrow> MaxVolumesPerNodeVSphere7
           | Some cfg \<Rightarrow>
               if 0 < sint (MaxAllowedBlockVolumesPerNode cfg)
               then sint (MaxAllowedBlockVolumesPerNode cfg)
               else MaxVolumesPerNodeVSphere7))"

type_synonym SnapshotOption = "string \<times> string"

definition addOption ::
  "SnapshotOption list \<Rightarrow> string \<Rightarrow> 32 word option \<Rightarrow> SnapshotOption list" where
  "addOption options nm intValue =
     (case intValue of
        None \<Rightarrow> options
      | Some v \<Rightarrow> options @ [(nm, nat_to_dec (unat v))])"

definition GetSnapshotOptions :: "ClusterCSIDriver option \<Rightarrow> SnapshotOption list" where
  "GetSnapshotOptions clusterCSIDriver =
     (case clusterCSIDriver of
        None \<Rightarrow> []
      | Some d \<Rightarrow>
          (case DriverConfig_VSphere d of
             None \<Rightarrow> []
           | Some cfg \<Rightarrow>
               (let o1 = addOption [] ''global-max-snapshots-per-block-volume''
                           (GlobalMaxSnapshotsPerBlockVolume cfg);
                    o2 = addOption o1 ''granular-max-snapshots-per-block-volume-vsan''
                           (GranularMaxSnapshotsPerBlockVolumeInVSAN cfg);
                    o3 = addOption o2 ''granular-max-snapshots-per-block-volume-vvol''
                           (GranularMaxSnapshotsPerBlockVolumeInVVOL cfg)
                in o3)))"

subsection \<open>Gauges\<close>

text \<open>The three gauge vectors; a missing label has never been set.\<close>

record Metrics =
  TopologyTagsMetric :: "string \<rightharpoonup> nat"
  InfrastructureFailureDomains :: "string \<rightharpoonup> nat"
  InstallErrorMetric :: "string \<times> string \<rightharpoonup> nat"

text \<open>One entry of a map from a name to a set of names (\<open>map[string]sets.String\<close>).\<close>

definition add_member ::
  "string \<Rightarrow> string \<Rightarrow> (string, string list) go_map \<Rightarrow> (string, string list) go_map" where
  "add_member k v m =
     (if k \<noteq> [] then
        (let vs = (case map_of m k of None \<Rightarrow> [] | Some vs \<Rightarrow> vs)
         in AList.update k (if v \<noteq> [] then List.insert v vs else vs) m)
      else m)"

fun count_domains ::
  "FailureDomainSpec list \<Rightarrow> (string, string list) go_map \<Rightarrow> (string, string list) go_map
     \<Rightarrow> string list \<Rightarrow> (string, string list) go_map \<times> (string, string list) go_map \<times> string list"
  where
  "count_domains [] regionZones datacenterDatastores vCenters =
     (regionZones, datacenterDatastores, vCenters)"
| "count_domains (fd # fds) regionZones datacenterDatastores vCenters =
     count_domains fds
       (add_member (fd_Region fd) (fd_Zone fd) regionZones)
       (add_member (fd_Datacenter fd) (fd_Datastore fd) datacenterDatastores)
       (if fd_Server fd \<noteq> [] then List.insert (fd_Server fd) vCenters else vCenters)"

definition member_count :: "(string, string list) go_map \<Rightarrow> nat" where
  "member_count m = sum_list (map (\<lambda>(k, vs). length vs) m)"

definition UpdateMetrics :: "Infrastructure \<Rightarrow> ClusterCSIDriver \<Rightarrow> Metrics \<Rightarrow> Metrics" where
  "UpdateMetrics infra clusterCSIDriver g =
     (let g1 = g\<lparr>TopologyTagsMetric := (TopologyTagsMetric g)
                 (''clustercsidriver'' \<mapsto> length (GetCSIDriverTopologyCategories clusterCSIDriver),
                  ''infrastructure'' \<mapsto> length (GetInfraTopologyCategories infra))\<rparr>
      in case Platform_VSphere infra of
           None \<Rightarrow>
             g1\<lparr>InfrastructureFailureDomains := (InfrastructureFailureDomains g1)
                 (''datacenters'' \<mapsto> 0, ''datastores'' \<mapsto> 0, ''regions'' \<mapsto> 0, ''zones'' \<mapsto> 0,
                  ''vcenters'' \<mapsto> 0, ''failure_domains'' \<mapsto> 0)\<rparr>
         | Some cfg \<Rightarrow>
             (let (regionZones, datacenterDatastores, vCenters) =
                    count_domains (FailureDomains cfg) [] [] []
              in g1\<lparr>InfrastructureFailureDomains := (InfrastructureFailureDomains g1)
                   (''datacenters'' \<mapsto> length datacenterDatastores,
                    ''datastores'' \<mapsto> member_count datacenterDatastores,
                    ''regions'' \<mapsto> length regionZones,
                    ''zones'' \<mapsto> member_count regionZones,
                    ''vcenters'' \<mapsto> length vCenters,
                    ''failure_domains'' \<mapsto> length (FailureDomains cfg))\<rparr>))"

subsection \<open>What the gauges count\<close>

text \<open>A map of sets holds a relation: well formed when no key and no member is repeated.\<close>

definition wf_members :: "(string, string list) go_map \<Rightarrow> bool" where
  "wf_members m \<longleftrightarrow> distinct (keys m) \<and> (\<forall>(k, vs) \<in> set m. distinct vs)"

definition members :: "(string, string list) go_map \<Rightarrow> (string \<times> string) set" where
  "members m = {(k, v). \<exists>vs. map_of m k = Some vs \<and> v \<in> set vs}"

lemma wf_members_update:
  assumes "wf_members m" and "distinct vs"
  shows "wf_members (AList.update k vs m)"
proof -
  have "set (AList.update k vs m) \<subseteq> insert (k, vs) (set m)"
    by (induction m) (auto split: prod.splits)
  moreover have "distinct (keys (AList.update k vs m))"
    using assms(1) by (simp add: wf_members_def distinct_update)
  ultimately show ?thesis
    using assms unfolding wf_members_def by blast
qed

lemma wf_members_lookup: "wf_members m \<Longrightarrow> map_of m k = Some vs \<Longrightarrow> distinct vs"
  by (auto simp: wf_members_def dest: map_of_SomeD)

lemma wf_members_add:
  assumes "wf_members m"
  shows "wf_members (add_member k v m)"
proof -
  have "distinct (case map_of m k of None \<Rightarrow> [] | Some vs \<Rightarrow> vs)"
    by (simp split: option.split) (blast intro: wf_members_lookup [OF assms])
  with assms show ?thesis
    by (simp add: add_member_def Let_def wf_members_update)
qed

lemma members_add:
  "members (add_member k v m) = members m \<union> (if k \<noteq> [] \<and> v \<noteq> [] then {(k, v)} else {})"
  by (auto simp: add_member_def members_def update_conv Let_def split: option.splits if_splits)

lemma keys_add: "set (keys (add_member k v m)) = set (keys m) \<union> (if k \<noteq> [] then {k} else {})"
  by (auto simp: add_member_def Let_def dom_update)

lemma member_count_card:
  "wf_members m \<Longrightarrow> member_count m = card (members m)"
proof (induction m)
  case Nil
  then show ?case by (simp add: member_count_def members_def)
next
  case (Cons e m)
  obtain k vs where e: "e = (k, vs)" by (cases e)
  from Cons.prems have wf: "wf_members m" and d: "distinct vs" and k: "k \<notin> set (keys m)"
    by (auto simp: wf_members_def e)
  have "members (e # m) = Pair k ` set vs \<union> members m"
    using k by (auto simp: members_def e map_of_eq_None_iff split: if_splits)
      (metis domI dom_map_of_conv_image_fst image_set option.distinct(1))+
  moreover have "Pair k ` set vs \<inter> members m = {}"
    using k by (auto simp: members_def dest!: map_of_SomeD) force
  moreover have "finite (members m)"
    by (rule finite_subset [of _ "\<Union>(a, bs) \<in> set m. Pair a ` set bs"])
       (force simp: members_def dest!: map_of_SomeD)+
  moreover have "card (Pair k ` set vs) = length vs"
    using d by (simp add: card_image inj_on_def distinct_card)
  ultimately have "card (members (e # m)) = length vs + card (members m)"
    by (simp add: card_Un_disjoint)
  with Cons.IH [OF wf] show ?case
    by (simp add: member_count_def e)
qed

lemma length_keys_card: "wf_members m \<Longrightarrow> length m = card (set (keys m))"
  by (metis distinct_card length_map wf_members_def)

text \<open>What \<open>count_domains\<close> adds to each accumulator.\<close>

definition rel_of :: "(FailureDomainSpec \<Rightarrow> string) \<Rightarrow> (FailureDomainSpec \<Rightarrow> string)
    \<Rightarrow> FailureDomainSpec list \<Rightarrow> (string \<times> string) set" where
  "rel_of f g fds = {(f fd, g fd) |fd. fd \<in> set fds \<and> f fd \<noteq> [] \<and> g fd \<noteq> []}"

definition names_of :: "(FailureDomainSpec \<Rightarrow> string) \<Rightarrow> FailureDomainSpec list \<Rightarrow> string set" where
  "names_of f fds = {f fd |fd. fd \<in> set fds \<and> f fd \<noteq> []}"

lemma rel_of_simps [simp]:
  "rel_of f g [] = {}"
  "rel_of f g (fd # fds) =
     (if f fd \<noteq> [] \<and> g fd \<noteq> [] then {(f fd, g fd)} else {}) \<union> rel_of f g fds"
  by (auto simp: rel_of_def)

lemma names_of_simps [simp]:
  "names_of f [] = {}"
  "names_of f (fd # fds) = (if f fd \<noteq> [] then {f fd} else {}) \<union> names_of f fds"
  by (auto simp: names_of_def)

lemma count_domains_spec:
  assumes "count_domains fds rz dd vs = (rz', dd', vs')"
    and "wf_members rz" and "wf_members dd" and "distinct vs"
  shows "wf_members rz' \<and> wf_members dd' \<and> distinct vs'
     \<and> members rz' = members rz \<union> rel_of fd_Region fd_Zone fds
     \<and> set (keys rz') = set (keys rz) \<union> names_of fd_Region fds
     \<and> members dd' = members dd \<union> rel_of fd_Datacenter fd_Datastore fds
     \<and> set (keys dd') = set (keys dd) \<union> names_of fd_Datacenter fds
     \<and> set vs' = set vs \<union> names_of fd_Server fds"
  using assms
proof (induction fds arbitrary: rz dd vs)
  case Nil
  then show ?case by auto
next
  case (Cons fd fds)
  note IH = Cons.IH [OF Cons.prems(1) [unfolded count_domains.simps] wf_members_add
      wf_members_add, OF Cons.prems(2,3)]
  have "distinct (if fd_Server fd \<noteq> [] then List.insert (fd_Server fd) vs else vs)"
    using Cons.prems(4) by simp
  from IH [OF this] show ?case
    unfolding members_add keys_add rel_of_simps names_of_simps
    by (auto simp del: set_map)
qed

text \<open>
  The failure domain gauges are the cardinalities they are named after. A zone is counted
  once per region it appears in and a datastore once per datacenter, entries with an empty region
  or datacenter are not counted, and repeated failure domains change no gauge but their own number.
\<close>
theorem UpdateMetrics_counts:
  fixes infra :: Infrastructure and d :: ClusterCSIDriver and g :: Metrics
  assumes "Platform_VSphere infra = Some cfg"
  shows "map (InfrastructureFailureDomains (UpdateMetrics infra d g))
           [''datacenters'', ''datastores'', ''regions'', ''zones'', ''vcenters'', ''failure_domains'']
         = map Some [card (names_of fd_Datacenter (FailureDomains cfg)),
                     card (rel_of fd_Datacenter fd_Datastore (FailureDomains cfg)),
                     card (names_of fd_Region (FailureDomains cfg)),
                     card (rel_of fd_Region fd_Zone (FailureDomains cfg)),
                     card (names_of fd_Server (FailureDomains cfg)),
                     length (FailureDomains cfg)]"
proof -
  obtain rz dd vs where c: "count_domains (FailureDomains cfg) [] [] [] = (rz, dd, vs)"
    by (cases "count_domains (FailureDomains cfg) [] [] []")
  have "wf_members []" "members [] = {}" by (auto simp: wf_members_def members_def)
  with count_domains_spec [OF c]
  have "wf_members rz" "wf_members dd" "distinct vs"
    "members rz = rel_of fd_Region fd_Zone (FailureDomains cfg)"
    "set (keys rz) = names_of fd_Region (FailureDomains cfg)"
    "members dd = rel_of fd_Datacenter fd_Datastore (FailureDomains cfg)"
    "set (keys dd) = names_of fd_Datacenter (FailureDomains cfg)"
    "set vs = names_of fd_Server (FailureDomains cfg)"
    by auto
  with assms c show ?thesis
    by (simp add: UpdateMetrics_def member_count_card length_keys_card distinct_card [symmetric]
        del: set_map)
qed

text \<open>Two zones of one region, one of them listed twice.\<close>

definition zone_domain :: "string \<Rightarrow> FailureDomainSpec" where
  "zone_domain zone =
     \<lparr>fd_Name = zone, fd_Region = ''r'', fd_Zone = zone, fd_Server = ''vc1'', fd_Datacenter = ''dc1'',
      fd_Folder = [], fd_ResourcePool = [], fd_Datastore = ''ds''\<rparr>"

definition zones_infra :: Infrastructure where
  "zones_infra =
     \<lparr>Platform_VSphere = Some \<lparr>VCenters = [\<lparr>vc_Server = ''vc1'', vc_Datacenters = [''dc1'']\<rparr>],
        FailureDomains = [zone_domain ''a'', zone_domain ''b'', zone_domain ''a'']\<rparr>,
      CloudConfig_Name = [], CloudConfig_Key = [], InfrastructureName = ''cluster1'',
      PlatformStatus_Type = Some ''VSphere'',
      ControlPlaneTopology = ''HighlyAvailable''\<rparr>"

lemma UpdateMetrics_counts_witness:
  "map (InfrastructureFailureDomains (UpdateMetrics zones_infra
        \<lparr>DriverType = ''vSphere'', DriverConfig_VSphere = None, Spec_StorageClassState = EmptyState\<rparr>
        \<lparr>TopologyTagsMetric = Map.empty, InfrastructureFailureDomains = Map.empty, InstallErrorMetric = Map.empty\<rparr>))
       [''datacenters'', ''datastores'', ''regions'', ''zones'', ''vcenters'', ''failure_domains''] =
     map Some [1, 1, 1, 2, 1, 3]"
proof -
  have "Platform_VSphere zones_infra =
      Some \<lparr>VCenters = [\<lparr>vc_Server = ''vc1'', vc_Datacenters = [''dc1'']\<rparr>],
        FailureDomains = [zone_domain ''a'', zone_domain ''b'', zone_domain ''a'']\<rparr>"
    by (simp add: zones_infra_def)
  from UpdateMetrics_counts [OF this] show ?thesis by (simp add: zone_domain_def card_insert_if)
qed

end
