(* ===== verification/Check_Result.thy ===== *)
theory Check_Result
  imports Vclib Topology
begin

text \<open>
  \<open>checks/check_error.go\<close>, \<open>checks/interface.go\<close> and \<open>checks/api_interface.go\<close>: the result of
  a cluster check, its severity, the cluster status derived from it, and the API the checks read.
  The locale \<open>cluster_check\<close> is the contract of \<open>CheckInterface\<close>.
\<close>

subsection \<open>Status, action and result\<close>

datatype CheckStatusType =
  CheckStatusUnset \<comment> \<open>the zero value, the empty string\<close>
| CheckStatusPass
| CheckStatusVSphereConnectionFailed
| CheckStatusOpenshiftAPIError
| CheckStatusExistingDriverFound
| CheckStatusDeprecatedVCenter
| CheckStatusDeprecatedHWVersion
| CheckStatusDeprecatedESXIVersion
| CheckStatusVcenterAPIError
| CheckStatusGenericError
| CheckStatusBlockVolumeLimitError
| CheckStatusNonVSphereNode

fun status_string :: "CheckStatusType \<Rightarrow> string" where
  "status_string CheckStatusUnset = ''''"
| "status_string CheckStatusPass = ''pass''"
| "status_string CheckStatusVSphereConnectionFailed = ''vsphere_connection_failed''"
| "status_string CheckStatusOpenshiftAPIError = ''openshift_api_error''"
| "status_string CheckStatusExistingDriverFound = ''existing_driver_found''"
| "status_string CheckStatusDeprecatedVCenter = ''check_deprecated_vcenter''"
| "status_string CheckStatusDeprecatedHWVersion = ''check_deprecated_hw_version''"
| "status_string CheckStatusDeprecatedESXIVersion = ''check_deprecated_esxi_version''"
| "status_string CheckStatusVcenterAPIError = ''vcenter_api_error''"
| "status_string CheckStatusGenericError = ''generic_error''"
| "status_string CheckStatusBlockVolumeLimitError = ''block_volume_limit_error''"
| "status_string CheckStatusNonVSphereNode = ''non_vsphere_node''"

datatype ClusterCheckStatus =
  ClusterCheckAllGood
| ClusterCheckBlockUpgradeDriverInstall
| ClusterCheckBlockUpgrade
| ClusterCheckUpgradeStateUnknown
| ClusterCheckDegrade

datatype CheckAction =
  CheckActionPass
| CheckActionBlockUpgrade
| CheckActionBlockUpgradeDriverInstall
| CheckActionBlockUpgradeOrDegrade
| CheckActionDegrade

text \<open>The \<open>iota\<close> numbering is the severity order the code compares with.\<close>

fun action_iota :: "CheckAction \<Rightarrow> nat" where
  "action_iota CheckActionPass = 0"
| "action_iota CheckActionBlockUpgrade = 1"
| "action_iota CheckActionBlockUpgradeDriverInstall = 2"
| "action_iota CheckActionBlockUpgradeOrDegrade = 3"
| "action_iota CheckActionDegrade = 4"

lemma action_iota_inject [simp]: "action_iota a = action_iota b \<longleftrightarrow> a = b"
  by (cases a; cases b) auto

instantiation CheckAction :: linorder
begin

definition less_eq_CheckAction :: "CheckAction \<Rightarrow> CheckAction \<Rightarrow> bool" where
  "less_eq_CheckAction a b \<longleftrightarrow> action_iota a \<le> action_iota b"

definition less_CheckAction :: "CheckAction \<Rightarrow> CheckAction \<Rightarrow> bool" where
  "less_CheckAction a b \<longleftrightarrow> action_iota a < action_iota b"

instance
  by standard (auto simp: less_eq_CheckAction_def less_CheckAction_def)

end

lemmas action_order = less_eq_CheckAction_def less_CheckAction_def

lemma action_pass_least [simp]: "CheckActionPass \<le> a"
  by (simp add: less_eq_CheckAction_def)

lemma action_above_pass [simp]: "CheckActionPass < a \<longleftrightarrow> a \<noteq> CheckActionPass"
  by (cases a) (auto simp: less_CheckAction_def)

fun ActionToString :: "CheckAction \<Rightarrow> string" where
  "ActionToString CheckActionPass = ''Pass''"
| "ActionToString CheckActionBlockUpgradeDriverInstall = ''BlockUpgradeDriverInstall''"
| "ActionToString CheckActionBlockUpgrade = ''BlockUpgrade''"
| "ActionToString CheckActionBlockUpgradeOrDegrade = ''BlockUpgradeOrDegrade''"
| "ActionToString CheckActionDegrade = ''Degrade''"

record ClusterCheckResult =
  CheckError :: "go_error option"
  CheckStatus :: CheckStatusType
  Action :: CheckAction
  Reason :: string

definition MakeClusterCheckResultPass :: ClusterCheckResult where
  "MakeClusterCheckResultPass =
     \<lparr>CheckError = None, CheckStatus = CheckStatusPass, Action = CheckActionPass, Reason = []\<rparr>"

definition makeFoundExistingDriverResult :: "go_error \<Rightarrow> ClusterCheckResult" where
  "makeFoundExistingDriverResult reason =
     \<lparr>CheckError = Some reason, CheckStatus = CheckStatusExistingDriverFound,
      Action = CheckActionBlockUpgradeDriverInstall, Reason = err_msg reason\<rparr>"

definition makeDeprecatedEnvironmentError ::
  "CheckStatusType \<Rightarrow> go_error \<Rightarrow> ClusterCheckResult" where
  "makeDeprecatedEnvironmentError statusType reason =
     \<lparr>CheckError = Some reason, CheckStatus = statusType,
      Action = CheckActionBlockUpgradeOrDegrade, Reason = err_msg reason\<rparr>"

definition MakeGenericVCenterAPIError :: "go_error \<Rightarrow> ClusterCheckResult" where
  "MakeGenericVCenterAPIError reason =
     \<lparr>CheckError = Some reason, CheckStatus = CheckStatusVcenterAPIError,
      Action = CheckActionBlockUpgradeOrDegrade, Reason = err_msg reason\<rparr>"

definition MakeClusterDegradedError :: "CheckStatusType \<Rightarrow> go_error \<Rightarrow> ClusterCheckResult" where
  "MakeClusterDegradedError checkStatus reason =
     \<lparr>CheckError = Some reason, CheckStatus = checkStatus,
      Action = CheckActionDegrade, Reason = err_msg reason\<rparr>"

definition MakeClusterUnupgradeableError :: "CheckStatusType \<Rightarrow> go_error \<Rightarrow> ClusterCheckResult" where
  "MakeClusterUnupgradeableError checkStatus reason =
     \<lparr>CheckError = Some reason, CheckStatus = checkStatus,
      Action = CheckActionBlockUpgrade, Reason = err_msg reason\<rparr>"

lemmas make_result_defs = MakeClusterCheckResultPass_def makeFoundExistingDriverResult_def
  makeDeprecatedEnvironmentError_def MakeGenericVCenterAPIError_def
  MakeClusterDegradedError_def MakeClusterUnupgradeableError_def

declare make_result_defs [check_simps]

subsection \<open>The API the checks read\<close>

text \<open>The listers are caches; their answers do not change while one sync runs.\<close>

record KubeAPI =
  api_Infrastructure :: Infrastructure
  NodeLister :: "Node list result"
  CSINodeLister :: "CSINode list result"
  CSIDriverLister :: "string \<Rightarrow> CSIDriver result"
  ClusterCSIDriverLister :: "string \<Rightarrow> ClusterCSIDriver result"

definition linux_node :: "Node \<Rightarrow> bool" where
  "linux_node n \<longleftrightarrow> node_Labels n ''kubernetes.io/os'' = Some ''linux''"

definition ListLinuxNodes :: "KubeAPI \<Rightarrow> Node list result" where
  "ListLinuxNodes k = rbind (NodeLister k) (\<lambda>ns. Inr (filter linux_node ns))"

record CheckArgs =
  vmConnection :: "VSphereConnection list"
  apiClient :: KubeAPI
  featureGate :: FeatureGate

definition openshift_annotated :: "CSIDriver \<Rightarrow> bool" where
  "openshift_annotated d \<longleftrightarrow> drv_Annotations d OpenshiftCSIDriverAnnotationKey \<noteq> None"

subsection \<open>The cluster status of a result\<close>

definition CheckClusterStatus ::
  "ClusterCheckResult \<Rightarrow> KubeAPI \<Rightarrow> (ClusterCheckStatus \<times> ClusterCheckResult) outcome" where
  "CheckClusterStatus result apiDependencies =
     (case Action result of
        CheckActionDegrade \<Rightarrow> Returned (ClusterCheckDegrade, result)
      | CheckActionBlockUpgradeOrDegrade \<Rightarrow>
          (let rest = (\<lambda>driverFound.
                 if driverFound then
                   (case CheckError result of
                      None \<Rightarrow> Panicked nil_deref
                    | Some e \<Rightarrow> Returned (ClusterCheckDegrade,
                        MakeClusterDegradedError (CheckStatus result) e))
                 else if CheckStatus result = CheckStatusVSphereConnectionFailed then
                   Returned (ClusterCheckUpgradeStateUnknown, result)
                 else Returned (ClusterCheckBlockUpgrade, result))
           in case CSIDriverLister apiDependencies VSphereDriverName of
                Inl err \<Rightarrow>
                  if \<not> is_not_found err then
                    Returned (ClusterCheckDegrade,
                     MakeClusterDegradedError CheckStatusOpenshiftAPIError
                       (Failure (''vsphere driver install failed with '' @ Reason result
                          @ '', unable to verify CSIDriver status: '' @ err_msg err)))
                  else rest False
              | Inr csiDriver \<Rightarrow> rest (openshift_annotated csiDriver))
      | CheckActionBlockUpgrade \<Rightarrow> Returned (ClusterCheckBlockUpgrade, result)
      | CheckActionBlockUpgradeDriverInstall \<Rightarrow>
          Returned (ClusterCheckBlockUpgradeDriverInstall, result)
      | CheckActionPass \<Rightarrow> Returned (ClusterCheckAllGood, result))"

subsection \<open>Well-formed results and the contract of a check\<close>

text \<open>
  A result either is the pass result or carries an error, an action above pass, a real status and
  the text of the error as its reason or at its end.
\<close>

definition wf_result :: "ClusterCheckResult \<Rightarrow> bool" where
  "wf_result r \<longleftrightarrow>
     (case CheckError r of
        None \<Rightarrow> r = MakeClusterCheckResultPass
      | Some e \<Rightarrow> Action r \<noteq> CheckActionPass \<and> CheckStatus r \<noteq> CheckStatusUnset
                 \<and> CheckStatus r \<noteq> CheckStatusPass \<and> has_suffix (Reason r) (err_msg e))"

lemma wf_pass [simp]: "wf_result MakeClusterCheckResultPass"
  by (simp add: wf_result_def MakeClusterCheckResultPass_def)

lemma has_suffix_refl [simp]: "has_suffix s s"
  by (simp add: has_suffix_iff)

lemma wf_made [simp]:
  "wf_result (makeFoundExistingDriverResult e)"
  "s \<noteq> CheckStatusUnset \<Longrightarrow> s \<noteq> CheckStatusPass \<Longrightarrow> wf_result (makeDeprecatedEnvironmentError s e)"
  "wf_result (MakeGenericVCenterAPIError e)"
  "s \<noteq> CheckStatusUnset \<Longrightarrow> s \<noteq> CheckStatusPass \<Longrightarrow> wf_result (MakeClusterDegradedError s e)"
  "s \<noteq> CheckStatusUnset \<Longrightarrow> s \<noteq> CheckStatusPass \<Longrightarrow> wf_result (MakeClusterUnupgradeableError s e)"
  by (simp_all add: wf_result_def check_simps)

lemma wf_result_pass_iff: "wf_result r \<Longrightarrow> Action r = CheckActionPass \<longleftrightarrow> r = MakeClusterCheckResultPass"
  by (auto simp: wf_result_def MakeClusterCheckResultPass_def split: option.splits)

lemma wf_result_error_iff: "wf_result r \<Longrightarrow> CheckError r = None \<longleftrightarrow> Action r = CheckActionPass"
  by (auto simp: wf_result_def MakeClusterCheckResultPass_def split: option.splits)

text \<open>
  \<open>CheckInterface\<close>: \<open>may_return args rs\<close> says that a run of the check on \<open>args\<close> can return the
  results \<open>rs\<close> (a relation, since the node check runs concurrently).
\<close>

locale cluster_check =
  fixes may_return :: "CheckArgs \<Rightarrow> ClusterCheckResult list \<Rightarrow> bool"
  assumes results_wf: "may_return args rs \<Longrightarrow> r \<in> set rs \<Longrightarrow> wf_result r"
begin

lemma severe_has_error:
  "may_return args rs \<Longrightarrow> r \<in> set rs \<Longrightarrow> Action r \<noteq> CheckActionPass \<Longrightarrow> CheckError r \<noteq> None"
  using results_wf wf_result_error_iff by blast

lemma clean_if_no_error:
  "may_return args rs \<Longrightarrow> \<forall>r \<in> set rs. CheckError r = None \<Longrightarrow>
     \<forall>r \<in> set rs. r = MakeClusterCheckResultPass"
  using results_wf wf_result_error_iff wf_result_pass_iff by blast

end

subsection \<open>The cluster status of a well-formed result\<close>

definition driver_is_ours :: "KubeAPI \<Rightarrow> bool" where
  "driver_is_ours api =
     (case CSIDriverLister api VSphereDriverName of Inl e \<Rightarrow> False | Inr d \<Rightarrow> openshift_annotated d)"

definition driver_unknown :: "KubeAPI \<Rightarrow> bool" where
  "driver_unknown api =
     (case CSIDriverLister api VSphereDriverName of Inl e \<Rightarrow> \<not> is_not_found e | Inr d \<Rightarrow> False)"

lemma wf_result_status:
  "wf_result r \<Longrightarrow> CheckError r = Some e \<Longrightarrow>
     CheckStatus r \<noteq> CheckStatusUnset \<and> CheckStatus r \<noteq> CheckStatusPass"
  by (simp add: wf_result_def)

lemma wf_result_error: "wf_result r \<Longrightarrow> Action r \<noteq> CheckActionPass \<Longrightarrow> \<exists>e. CheckError r = Some e"
  using wf_result_error_iff by blast

lemma degraded_action [simp]: "Action (MakeClusterDegradedError s e) = CheckActionDegrade"
  by (simp add: check_simps)

text \<open>
  The cluster status of a well-formed result: "block upgrade or degrade" degrades exactly when
  OpenShift's own driver is already installed or the CSIDriver cannot be read, leaves the upgrade
  state unknown when only the vCenter connection failed, and blocks upgrades otherwise; the other
  actions map to their own status; the result handed on degrades exactly when the status does. It
  does not panic: a result with an action above pass carries its error.
\<close>
theorem CheckClusterStatus_decides:
  assumes "wf_result r"
  shows "\<exists>st r'. CheckClusterStatus r api = Returned (st, r')
     \<and> st = (case Action r of
               CheckActionPass \<Rightarrow> ClusterCheckAllGood
             | CheckActionBlockUpgrade \<Rightarrow> ClusterCheckBlockUpgrade
             | CheckActionBlockUpgradeDriverInstall \<Rightarrow> ClusterCheckBlockUpgradeDriverInstall
             | CheckActionDegrade \<Rightarrow> ClusterCheckDegrade
             | CheckActionBlockUpgradeOrDegrade \<Rightarrow>
                 if driver_is_ours api \<or> driver_unknown api then ClusterCheckDegrade
                 else if CheckStatus r = CheckStatusVSphereConnectionFailed
                   then ClusterCheckUpgradeStateUnknown
                 else ClusterCheckBlockUpgrade)
     \<and> (Action r' = CheckActionDegrade \<longleftrightarrow> st = ClusterCheckDegrade)
     \<and> (st \<noteq> ClusterCheckDegrade \<longrightarrow> r' = r) \<and> wf_result r'"
proof (cases "Action r = CheckActionBlockUpgradeOrDegrade")
  case True
  then obtain e where "CheckError r = Some e" using wf_result_error [OF assms] by auto
  with True assms wf_result_status [OF assms this] show ?thesis
    by (simp add: CheckClusterStatus_def Let_def driver_is_ours_def driver_unknown_def split: sum.split)
next
  case False
  with assms show ?thesis by (cases "Action r") (simp_all add: CheckClusterStatus_def)
qed

definition api_without_driver :: KubeAPI where
  "api_without_driver =
     \<lparr>api_Infrastructure = \<lparr>Platform_VSphere = None, CloudConfig_Name = ''c'', CloudConfig_Key = ''k'',
         InfrastructureName = ''i'', PlatformStatus_Type = None,
      ControlPlaneTopology = ''HighlyAvailable''\<rparr>,
      NodeLister = Inr [], CSINodeLister = Inr [], CSIDriverLister = (\<lambda>n. Inl (NotFound n)),
      ClusterCSIDriverLister = (\<lambda>n. Inl (NotFound n))\<rparr>"

theorem CheckClusterStatus_decides_witness:
  "\<exists>r'. CheckClusterStatus (MakeGenericVCenterAPIError (Failure ''e'')) api_without_driver =
      Returned (ClusterCheckBlockUpgrade, r')"
proof -
  let ?r = "MakeGenericVCenterAPIError (Failure ''e'')"
  have "wf_result ?r" "Action ?r = CheckActionBlockUpgradeOrDegrade"
    "CheckStatus ?r = CheckStatusVcenterAPIError"
    by simp (simp_all add: check_simps)
  with CheckClusterStatus_decides [of ?r api_without_driver] show ?thesis
    by (auto simp: driver_is_ours_def driver_unknown_def api_without_driver_def)
qed

end
