(* ===== verification/Semver.thy ===== *)
theory Semver
  imports Go_Strings "HOL-Library.Product_Lexorder"
begin

text \<open>
  The vendored package \<open>github.com/blang/semver\<close> as far as the version checks use it:
  \<open>Version\<close>, \<open>Parse\<close>, \<open>ParseTolerant\<close> and \<open>Compare\<close>. The comparison is proved equal to the
  lexicographic order on a key, hence an instance of the locale \<open>three_way\<close>, the contract under
  which the version checks are proved monotone.
\<close>

subsection \<open>Versions and their comparison\<close>

record PRVersion =
  VersionStr :: string
  VersionNum :: "64 word"
  IsNum :: bool

record Version =
  Major :: "64 word"
  Minor :: "64 word"
  Patch :: "64 word"
  Pre :: "PRVersion list"
  Build :: "string list"

definition PRVersion_Compare :: "PRVersion \<Rightarrow> PRVersion \<Rightarrow> int" where
  "PRVersion_Compare v w =
     (if IsNum v \<and> \<not> IsNum w then -1
      else if \<not> IsNum v \<and> IsNum w then 1
      else if IsNum v \<and> IsNum w then
        (if VersionNum v = VersionNum w then 0
         else if VersionNum v > VersionNum w then 1 else -1)
      else
        (if VersionStr v = VersionStr w then 0
         else if VersionStr v > VersionStr w then 1 else -1))"

text \<open>The loop over the prerelease identifiers and the length comparison after it.\<close>

fun Pre_Compare :: "PRVersion list \<Rightarrow> PRVersion list \<Rightarrow> int" where
  "Pre_Compare (v # vs) (w # ws) =
     (if PRVersion_Compare v w = 0 then Pre_Compare vs ws
      else if PRVersion_Compare v w = 1 then 1 else -1)"
| "Pre_Compare [] [] = 0"
| "Pre_Compare [] (w # ws) = -1"
| "Pre_Compare (v # vs) [] = 1"

definition Version_Compare :: "Version \<Rightarrow> Version \<Rightarrow> int" where
  "Version_Compare v w =
     (if Major v \<noteq> Major w then (if Major v > Major w then 1 else -1)
      else if Minor v \<noteq> Minor w then (if Minor v > Minor w then 1 else -1)
      else if Patch v \<noteq> Patch w then (if Patch v > Patch w then 1 else -1)
      else if Pre v = [] \<and> Pre w = [] then 0
      else if Pre v = [] \<and> Pre w \<noteq> [] then 1
      else if Pre v \<noteq> [] \<and> Pre w = [] then -1
      else Pre_Compare (Pre v) (Pre w))"

subsection \<open>Parsing\<close>

definition numbers :: string where
  "numbers = ''0123456789''"

definition alphas :: string where
  "alphas = ''abcdefghijklmnopqrstuvwxyzABCDEFGHIJKLMNOPQRSTUVWXYZ-''"

definition alphanum :: string where
  "alphanum = alphas @ numbers"

definition containsOnly :: "string \<Rightarrow> string \<Rightarrow> bool" where
  "containsOnly s cs = list_all (\<lambda>r. r \<in> set cs) s"

definition hasLeadingZeroes :: "string \<Rightarrow> bool" where
  "hasLeadingZeroes s \<longleftrightarrow> 1 < length s \<and> hd s = CHR ''0''"

definition parse_u64 :: "string \<Rightarrow> 64 word result" where
  "parse_u64 s = (case parse_uint s 10 of
                    Inl e \<Rightarrow> Inl (num_error ''ParseUint'' s e)
                  | Inr n \<Rightarrow> Inr (word_of_nat n))"

text \<open>The three identical blocks of \<open>Parse\<close> for the major, minor and patch numbers.\<close>

definition parse_component :: "string \<Rightarrow> string \<Rightarrow> string \<Rightarrow> 64 word result" where
  "parse_component cap low s =
     (if \<not> containsOnly s numbers
      then Inl (Failure (''Invalid character(s) found in '' @ low @ '' number '' @ quote s))
      else if hasLeadingZeroes s
      then Inl (Failure (cap @ '' number must not contain leading zeroes '' @ quote s))
      else parse_u64 s)"

definition NewPRVersion :: "string \<Rightarrow> PRVersion result" where
  "NewPRVersion s =
     (if s = [] then Inl (Failure ''Prerelease is empty'')
      else if containsOnly s numbers then
        (if hasLeadingZeroes s
         then Inl (Failure (''Numeric PreRelease version must not contain leading zeroes '' @ quote s))
         else rbind (parse_u64 s)
                (\<lambda>num. Inr \<lparr>VersionStr = [], VersionNum = num, IsNum = True\<rparr>))
      else if containsOnly s alphanum
      then Inr \<lparr>VersionStr = s, VersionNum = 0, IsNum = False\<rparr>
      else Inl (Failure (''Invalid character(s) found in prerelease '' @ quote s)))"

definition parse_build :: "string \<Rightarrow> string result" where
  "parse_build str =
     (if str = [] then Inl (Failure ''Build meta data is empty'')
      else if \<not> containsOnly str alphanum
      then Inl (Failure (''Invalid character(s) found in build meta data '' @ quote str))
      else Inr str)"

text \<open>\<open>cut_at c s\<close>: the text before the first \<open>c\<close> and, if there is one, the parts after it.\<close>

definition cut_at :: "char \<Rightarrow> string \<Rightarrow> string \<times> string list" where
  "cut_at c s = (case dropWhile (\<lambda>x. x \<noteq> c) s of
                   [] \<Rightarrow> (s, [])
                 | _ # r \<Rightarrow> (takeWhile (\<lambda>x. x \<noteq> c) s, split_on CHR ''.'' r))"

definition Parse :: "string \<Rightarrow> Version result" where
  "Parse s =
     (if s = [] then Inl (Failure ''Version string empty'')
      else case split_n CHR ''.'' 3 s of
        [p0, p1, p2] \<Rightarrow>
          rbind (parse_component ''Major'' ''major'' p0) (\<lambda>major.
          rbind (parse_component ''Minor'' ''minor'' p1) (\<lambda>minor.
            let (patchStr, build) = cut_at CHR ''+'' p2;
                (patchStr', prerelease) = cut_at CHR ''-'' patchStr
            in rbind (parse_component ''Patch'' ''patch'' patchStr') (\<lambda>patch.
               rbind (map_result NewPRVersion prerelease) (\<lambda>pre.
               rbind (map_result parse_build build) (\<lambda>bld.
                 Inr \<lparr>Major = major, Minor = minor, Patch = patch, Pre = pre, Build = bld\<rparr>)))))
      | _ \<Rightarrow> Inl (Failure ''No Major.Minor.Patch elements found''))"

definition ParseTolerant :: "string \<Rightarrow> Version result" where
  "ParseTolerant s0 =
     (let s = trim_prefix (trim_space s0) ''v'';
          parts = split_n CHR ''.'' 3 s
      in if length parts < 3 then
           (if \<exists>c \<in> set (last parts). c = CHR ''+'' \<or> c = CHR ''-''
            then Inl (Failure ''Short version cannot contain PreRelease/Build meta data'')
            else Parse (join ''.'' (parts @ replicate (3 - length parts) ''0'')))
         else Parse s)"

subsection \<open>The comparison is the order of a key\<close>

text \<open>Reference definition: the three-way result of a linear order.\<close>

definition cmp3 :: "'a::linorder \<Rightarrow> 'a \<Rightarrow> int" where
  "cmp3 a b = (if a = b then 0 else if a > b then 1 else -1)"

definition pr_key :: "PRVersion \<Rightarrow> nat \<times> 64 word \<times> string" where
  "pr_key v = (if IsNum v then (0, VersionNum v, []) else (1, 0, VersionStr v))"

definition version_key ::
  "Version \<Rightarrow> 64 word \<times> 64 word \<times> 64 word \<times> nat \<times> (nat \<times> 64 word \<times> string) list" where
  "version_key v = (Major v, Minor v, Patch v, if Pre v = [] then 1 else 0, map pr_key (Pre v))"

lemma PRVersion_Compare_key: "PRVersion_Compare v w = cmp3 (pr_key v) (pr_key w)"
  by (auto simp: PRVersion_Compare_def cmp3_def pr_key_def less_prod_def')

lemma cmp3_Cons: "cmp3 (x # xs) (y # ys) = (if cmp3 x y = 0 then cmp3 xs ys else cmp3 x y)"
  by (auto simp: cmp3_def)

lemma cmp3_range: "cmp3 a b = -1 \<or> cmp3 a b = 0 \<or> cmp3 a b = 1"
  by (simp add: cmp3_def)

lemma Pre_Compare_key: "Pre_Compare vs ws = cmp3 (map pr_key vs) (map pr_key ws)"
proof (induction vs ws rule: Pre_Compare.induct)
  case (1 v vs w ws)
  then show ?case
    using cmp3_range [of "pr_key v" "pr_key w"] by (auto simp: PRVersion_Compare_key cmp3_Cons)
qed (simp_all add: cmp3_def)

lemma Version_Compare_key: "Version_Compare v w = cmp3 (version_key v) (version_key w)"
proof (cases "Major v = Major w \<and> Minor v = Minor w \<and> Patch v = Patch w")
  case True
  then show ?thesis
    by (auto simp: Version_Compare_def version_key_def Pre_Compare_key cmp3_def less_prod_def')
next
  case False
  then show ?thesis
    by (auto simp: Version_Compare_def version_key_def cmp3_def less_prod_def')
qed

subsection \<open>The contract of a three-way comparison\<close>

locale three_way =
  fixes cmp :: "'a \<Rightarrow> 'a \<Rightarrow> int"
  assumes cmp_refl: "cmp a a = 0"
    and cmp_swap: "cmp b a = - cmp a b"
    and cmp_trans: "0 \<le> cmp a b \<Longrightarrow> 0 \<le> cmp b c \<Longrightarrow> 0 \<le> cmp a c"
begin

lemma cmp_total: "0 \<le> cmp a b \<or> 0 \<le> cmp b a"
  using cmp_swap [of a b] by linarith

lemma cmp_less_trans: "cmp a b < 0 \<Longrightarrow> 0 \<le> cmp c b \<Longrightarrow> cmp a c < 0"
  using cmp_trans [of a c b] by linarith

lemma cmp_eq_cong: "cmp a b = 0 \<Longrightarrow> 0 \<le> cmp a c \<longleftrightarrow> 0 \<le> cmp b c"
  using cmp_trans [of a b c] cmp_trans [of b a c] cmp_swap [of a b] by auto

end

interpretation pr: three_way PRVersion_Compare
  by unfold_locales (auto simp: PRVersion_Compare_key cmp3_def split: if_splits)

interpretation ver: three_way Version_Compare
  by unfold_locales (auto simp: Version_Compare_key cmp3_def split: if_splits)

subsection \<open>Parsing dotted numerals\<close>

definition dotted :: "nat list \<Rightarrow> string" where
  "dotted ns = join ''.'' (map nat_to_dec ns)"

declare dotted_def [go_simps]

definition plain_version :: "nat \<Rightarrow> nat \<Rightarrow> nat \<Rightarrow> Version" where
  "plain_version a b c =
     \<lparr>Major = word_of_nat a, Minor = word_of_nat b, Patch = word_of_nat c, Pre = [], Build = []\<rparr>"

lemma numbers_iff: "c \<in> set numbers \<longleftrightarrow> is_digit c"
proof
  assume "c \<in> set numbers"
  then show "is_digit c" by (auto simp: numbers_def is_digit_def)
next
  assume a: "is_digit c"
  then have "(of_char c :: nat) - 48 < 10" by (auto simp: is_digit_def)
  moreover have "(of_char c :: nat) = 48 + ((of_char c :: nat) - 48)"
    using a by (auto simp: is_digit_def)
  ultimately have "(of_char c :: nat) = of_char (digit_char ((of_char c :: nat) - 48))"
    by (metis of_char_digit_char)
  then have "c = digit_char ((of_char c :: nat) - 48)"
    by simp
  moreover have "digit_char d \<in> set numbers" if "d < 10" for d
    unfolding digit_char_def numbers_def using that by (intro nth_mem) simp
  ultimately show "c \<in> set numbers"
    using \<open>(of_char c :: nat) - 48 < 10\<close> by metis
qed

lemma containsOnly_nat_to_dec [simp]: "containsOnly (nat_to_dec n) numbers"
  using nat_to_dec_digits by (auto simp: containsOnly_def list_all_iff numbers_iff)

lemma no_leading_zeroes [simp]: "\<not> hasLeadingZeroes (nat_to_dec n)"
  using nat_to_dec_hd [of n] length_nat_to_dec_gt1 [of n] by (auto simp: hasLeadingZeroes_def)

lemma parse_component_nat_to_dec [simp]:
  "n \<le> max_uint64 \<Longrightarrow> parse_component cap low (nat_to_dec n) = Inr (word_of_nat n)"
  by (simp add: parse_component_def parse_u64_def parse_uint_nat_to_dec)

lemma cut_at_absent: "c \<notin> set s \<Longrightarrow> cut_at c s = (s, [])"
proof -
  assume "c \<notin> set s"
  then have "dropWhile (\<lambda>x. x \<noteq> c) s = []"
    by (simp only: dropWhile_eq_Nil_conv) auto
  then show ?thesis by (simp add: cut_at_def del: dropWhile_eq_Nil_conv)
qed

lemma split_n_dotted3:
  "split_n CHR ''.'' 3 (dotted [a, b, c]) = [nat_to_dec a, nat_to_dec b, nat_to_dec c]"
  using split_n_append_sep [of "CHR ''.''" "nat_to_dec a" 1]
    split_n_append_sep [of "CHR ''.''" "nat_to_dec b" 0]
  by (simp add: dotted_def numeral_3_eq_3)

lemma Parse_dotted3:
  assumes "a \<le> max_uint64" "b \<le> max_uint64" "c \<le> max_uint64"
  shows "Parse (dotted [a, b, c]) = Inr (plain_version a b c)"
  using assms
  by (simp add: Parse_def split_n_dotted3 cut_at_absent plain_version_def del: split_n.simps)
     (simp add: dotted_def)

lemma digit_not_space: "is_digit c \<Longrightarrow> c \<notin> set ascii_space"
  by (auto simp: is_digit_def ascii_space_def)

lemma digit_not_v: "is_digit c \<Longrightarrow> c \<noteq> CHR ''v''"
  by (auto simp: is_digit_def)

lemma dotted_ends:
  assumes "ns \<noteq> []"
  shows "dotted ns \<noteq> [] \<and> is_digit (hd (dotted ns)) \<and> is_digit (last (dotted ns))"
  using assms
proof (induction ns rule: induct_list012)
  case (2 n)
  then show ?case
    using nat_to_dec_digits [of n] by (auto simp: dotted_def)
next
  case (3 m n ns)
  then show ?case
    using nat_to_dec_digits [of m] by (auto simp: dotted_def)
qed simp

lemma trim_dotted: "ns \<noteq> [] \<Longrightarrow> trim_prefix (trim_space (dotted ns)) ''v'' = dotted ns"
proof -
  assume "ns \<noteq> []"
  note e = dotted_ends [OF this]
  then have "trim_space (dotted ns) = dotted ns"
    by (auto simp: trim_space_def intro!: trim_id dest: digit_not_space)
  moreover have "\<not> has_prefix (dotted ns) ''v''"
    using e by (cases "dotted ns") (auto simp: has_prefix_def dest: digit_not_v)
  ultimately show ?thesis by (simp add: trim_prefix_def)
qed

lemma ParseTolerant_dotted3:
  assumes "a \<le> max_uint64" "b \<le> max_uint64" "c \<le> max_uint64"
  shows "ParseTolerant (dotted [a, b, c]) = Inr (plain_version a b c)"
  using assms by (simp add: ParseTolerant_def trim_dotted split_n_dotted3 Parse_dotted3 Let_def
      del: split_n.simps)

lemma ParseTolerant_dotted2:
  assumes "a \<le> max_uint64" "b \<le> max_uint64"
  shows "ParseTolerant (dotted [a, b]) = Inr (plain_version a b 0)"
proof -
  have s: "split_n CHR ''.'' 3 (dotted [a, b]) = [nat_to_dec a, nat_to_dec b]"
    using split_n_append_sep [of "CHR ''.''" "nat_to_dec a" 1]
      split_n_no_sep [of "CHR ''.''" "nat_to_dec b" 1]
    by (simp add: dotted_def numeral_3_eq_3)
  have j: "join ''.'' [nat_to_dec a, nat_to_dec b, ''0''] = dotted [a, b, 0]"
    by (simp add: dotted_def)
  show ?thesis
    using assms Parse_dotted3 [of a b 0]
    by (auto simp: ParseTolerant_def trim_dotted s j Let_def simp del: split_n.simps join.simps)
qed

lemma ParseTolerant_dotted1:
  assumes "a \<le> max_uint64"
  shows "ParseTolerant (dotted [a]) = Inr (plain_version a 0 0)"
proof -
  have s: "split_n CHR ''.'' 3 (dotted [a]) = [nat_to_dec a]"
    using split_n_no_sep [of "CHR ''.''" "nat_to_dec a" 2]
    by (simp add: dotted_def numeral_3_eq_3)
  have j: "join ''.'' [nat_to_dec a, ''0'', ''0''] = dotted [a, 0, 0]"
    by (simp add: dotted_def)
  show ?thesis
    using assms Parse_dotted3 [of a 0 0]
    by (auto simp: ParseTolerant_def trim_dotted s j Let_def numeral_2_eq_2
        simp del: split_n.simps join.simps)
qed

lemmas parse_facts = Parse_dotted3 ParseTolerant_dotted3 ParseTolerant_dotted2 ParseTolerant_dotted1

end
