(* ===== verification/Version_Check.thy ===== *)
theory Version_Check
  imports Semver
begin

text \<open>
  \<open>pkg/operator/utils/version_check.go\<close>: the minimum-version test used by the vCenter and ESXi
  checks, and the patch-level test on version and build number. The Go functions return the
  boolean beside the error, and callers read both, so the models return the pair.
\<close>

definition defaultMinimumVersion :: string where
  "defaultMinimumVersion = ''8.0.2''"

definition ParseForSemver :: "string \<Rightarrow> string" where
  "ParseForSemver version =
     (let parts = split_on CHR ''.'' version
      in if 3 < length parts then join ''.'' (take 3 parts) else version)"

definition IsMinimumVersion :: "string \<Rightarrow> string \<Rightarrow> bool \<times> go_error option" where
  "IsMinimumVersion minimumVersion currentVersion =
     (case Parse minimumVersion of
        Inl err \<Rightarrow> (True, Some err)
      | Inr minimumSemver \<Rightarrow>
          (case ParseTolerant (ParseForSemver currentVersion) of
             Inl err \<Rightarrow> (True, Some err)
           | Inr currentSemVer \<Rightarrow>
               if 0 \<le> Version_Compare currentSemVer minimumSemver then (True, None)
               else (False, None)))"

record PatchVersionRequirements =
  MinimumVersion7Series :: string
  MinimumBuild7Series :: int
  MinimumVersion8Series :: string
  MinimumBuild8Series :: int

definition checkVersionAndBuildNumber ::
  "string \<Rightarrow> string \<Rightarrow> string \<Rightarrow> int \<Rightarrow> bool \<times> string \<times> go_error option" where
  "checkVersionAndBuildNumber version build minVersion minBuildNumber =
     (let minVersionString = ''>= '' @ minVersion @ ''-'' @ format_int minBuildNumber
      in case IsMinimumVersion minVersion version of
           (_, Some err) \<Rightarrow> (False, minVersionString, Some err)
         | (hasMinimumApiVersion, None) \<Rightarrow>
             if \<not> hasMinimumApiVersion then (False, minVersionString, None)
             else case parse_int build 10 of
                    Inl e \<Rightarrow> (True, minVersionString,
                      Some (Failure (''error converting build number '' @ build @ '' to integer'')))
                  | Inr buildNumber \<Rightarrow>
                      if minBuildNumber \<le> buildNumber then (True, minVersionString, None)
                      else (False, minVersionString, None))"

definition CheckForMinimumPatchedVersion ::
  "PatchVersionRequirements \<Rightarrow> string \<Rightarrow> string \<Rightarrow> bool \<times> string \<times> go_error option" where
  "CheckForMinimumPatchedVersion minRequirement vSphereVersion build =
     (if has_prefix vSphereVersion ''7'' then
        checkVersionAndBuildNumber vSphereVersion build
          (MinimumVersion7Series minRequirement) (MinimumBuild7Series minRequirement)
      else if has_prefix vSphereVersion ''8'' then
        checkVersionAndBuildNumber vSphereVersion build
          (MinimumVersion8Series minRequirement) (MinimumBuild8Series minRequirement)
      else case IsMinimumVersion defaultMinimumVersion vSphereVersion of
             (_, Some err) \<Rightarrow> (False, defaultMinimumVersion, Some err)
           | (hasMinimumApiVersion, None) \<Rightarrow>
               if \<not> hasMinimumApiVersion then (False, defaultMinimumVersion, None)
               else (True, defaultMinimumVersion, None))"

subsection \<open>The reference: componentwise comparison of numerals\<close>

text \<open>Lexicographic order on (major, minor, patch), missing components read as 0.\<close>

fun nums_ge :: "nat list \<Rightarrow> nat list \<Rightarrow> bool" where
  "nums_ge (a # as) (b # bs) = (b < a \<or> a = b \<and> nums_ge as bs)"
| "nums_ge _ [] = True"
| "nums_ge [] (b # bs) = False"

definition pad3 :: "nat list \<Rightarrow> nat list" where
  "pad3 ns = take 3 (ns @ [0, 0, 0])"

lemma split_dotted:
  "ns \<noteq> [] \<Longrightarrow> split_on CHR ''.'' (dotted ns) = map nat_to_dec ns"
  by (auto simp: dotted_def intro!: split_on_join)

lemma ParseForSemver_dotted: "ns \<noteq> [] \<Longrightarrow> ParseForSemver (dotted ns) = dotted (take 3 ns)"
  by (simp add: ParseForSemver_def Let_def split_dotted) (simp add: dotted_def take_map)

lemma ParseTolerant_dotted:
  assumes "ns \<noteq> []" and "\<forall>n \<in> set (take 3 ns). n \<le> max_uint64"
  shows "ParseTolerant (ParseForSemver (dotted ns)) =
           Inr (plain_version (pad3 ns ! 0) (pad3 ns ! 1) (pad3 ns ! 2))"
proof -
  consider a where "ns = [a]" | a b where "ns = [a, b]" | a b c r where "ns = a # b # c # r"
    using assms(1) by (metis neq_Nil_conv)
  then show ?thesis
    using assms by cases (auto simp: ParseForSemver_dotted parse_facts pad3_def numeral_3_eq_3)
qed

lemma word_of_nat_u64_inject:
  assumes "a \<le> max_uint64" "b \<le> max_uint64"
  shows "(word_of_nat a :: 64 word) = word_of_nat b \<longleftrightarrow> a = b"
    and "(word_of_nat a :: 64 word) < word_of_nat b \<longleftrightarrow> a < b"
proof -
  have "unat (word_of_nat a :: 64 word) = a" "unat (word_of_nat b :: 64 word) = b"
    using assms by (auto simp: max_uint64_def unat_of_nat)
  then show "(word_of_nat a :: 64 word) = word_of_nat b \<longleftrightarrow> a = b"
    "(word_of_nat a :: 64 word) < word_of_nat b \<longleftrightarrow> a < b"
    by (metis, simp add: word_less_nat_alt)
qed

lemma Version_Compare_plain:
  assumes "\<forall>n \<in> {a, b, c, x, y, z}. n \<le> max_uint64"
  shows "0 \<le> Version_Compare (plain_version a b c) (plain_version x y z)
           \<longleftrightarrow> nums_ge [a, b, c] [x, y, z]"
  using assms by (auto simp: Version_Compare_def plain_version_def word_of_nat_u64_inject)

lemma plain3: "\<forall>n \<in> set (take 3 ns). n \<le> m \<Longrightarrow> i < 3 \<Longrightarrow> pad3 ns ! i \<le> m"
proof -
  assume a: "\<forall>n \<in> set (take 3 ns). n \<le> m" "i < 3"
  have "pad3 ns ! i \<in> set (pad3 ns)" using a(2) by (intro nth_mem) (simp add: pad3_def)
  moreover have "set (pad3 ns) \<subseteq> set (take 3 ns) \<union> {0}"
    by (auto simp: pad3_def dest: in_set_takeD)
  ultimately show ?thesis using a(1) by auto
qed

lemma pad3_list: "\<exists>a b c. pad3 ns = [a, b, c]"
proof -
  have "length (pad3 ns) = 3" by (simp add: pad3_def)
  then show ?thesis by (auto simp: length_Suc_conv numeral_3_eq_3)
qed

lemma IsMinimumVersion_nums:
  assumes "ns \<noteq> []" and "\<forall>n \<in> set (take 3 ns). n \<le> max_uint64"
    and "x \<le> max_uint64" "y \<le> max_uint64" "z \<le> max_uint64"
  shows "IsMinimumVersion (dotted [x, y, z]) (dotted ns) = (nums_ge (pad3 ns) [x, y, z], None)"
proof -
  obtain a b c where p: "pad3 ns = [a, b, c]" using pad3_list by blast
  have le: "a \<le> max_uint64" "b \<le> max_uint64" "c \<le> max_uint64"
    using assms(2) plain3 [of ns max_uint64 0] plain3 [of ns max_uint64 1]
      plain3 [of ns max_uint64 2] by (auto simp: p)
  then have "0 \<le> Version_Compare (plain_version a b c) (plain_version x y z)
               \<longleftrightarrow> nums_ge [a, b, c] [x, y, z]"
    using assms(3-5) by (intro Version_Compare_plain) auto
  with assms show ?thesis
    by (simp add: IsMinimumVersion_def Parse_dotted3 ParseTolerant_dotted p del: nums_ge.simps)
qed

text \<open>
  On dotted numerals that fit in 64 bits, \<open>IsMinimumVersion\<close> decides the lexicographic
  order of (major, minor, patch): missing components count as 0, a fourth and later component
  (as in the API version 7.0.3.0) is ignored, and no error is returned.
\<close>
theorem IsMinimumVersion_dotted:
  assumes "ns \<noteq> []" and "\<forall>n \<in> set (take 3 ns). n \<le> max_uint64"
    and "x \<le> max_uint64" "y \<le> max_uint64" "z \<le> max_uint64"
  shows "IsMinimumVersion (dotted [x, y, z]) (dotted ns) = (nums_ge (pad3 ns) [x, y, z], None)"
  using assms by (rule IsMinimumVersion_nums)

theorem IsMinimumVersion_dotted_witness:
  "IsMinimumVersion (dotted [7, 0, 2]) (dotted [7, 0, 3, 0]) = (True, None)
   \<and> IsMinimumVersion (dotted [7, 0, 2]) (dotted [6, 9]) = (False, None)"
  using IsMinimumVersion_dotted [of "[7, 0, 3, 0]" 7 0 2]
    IsMinimumVersion_dotted [of "[6, 9]" 7 0 2]
  by (simp add: pad3_def max_uint64_def numeral_3_eq_3)

end
