(* ===== verification/Simple_Checks.thy ===== *)
theory Simple_Checks
  imports Check_Result Version_Check
begin

text \<open>
  The two sequential checks: \<open>checks/check_vcenter.go\<close> (vCenter API version) and
  \<open>checks/check_existing_driver.go\<close> (a CSI driver installed by somebody else). Both are
  instances of \<open>cluster_check\<close>.
\<close>

subsection \<open>vCenter version\<close>

definition minRequiredVCenterVersion :: string where
  "minRequiredVCenterVersion = ''6.7.3''"

definition minUpgradeableVCenterVersion :: string where
  "minUpgradeableVCenterVersion = ''7.0.2''"

text \<open>The verdict on one vCenter's API version: \<open>None\<close> lets the loop go on.\<close>

definition vcenter_verdict :: "string \<Rightarrow> ClusterCheckResult option" where
  "vcenter_verdict vcenterAPIVersion =
     (case IsMinimumVersion minRequiredVCenterVersion vcenterAPIVersion of
        (_, Some err) \<Rightarrow>
          Some (makeDeprecatedEnvironmentError CheckStatusVcenterAPIError
                  (Failure (''error parsing minimum version '' @ err_msg err)))
      | (hasRequiredMinimum, None) \<Rightarrow>
          if \<not> hasRequiredMinimum then
            Some (makeDeprecatedEnvironmentError CheckStatusDeprecatedVCenter
                    (Failure (''found older vcenter version '' @ vcenterAPIVersion
                       @ '', minimum required version is '' @ minRequiredVCenterVersion)))
          else
            (case IsMinimumVersion minUpgradeableVCenterVersion vcenterAPIVersion of
               (_, Some err) \<Rightarrow>
                 Some (makeDeprecatedEnvironmentError CheckStatusVcenterAPIError
                         (Failure (''error parsing minimum version '' @ err_msg err)))
             | (hasUpgradeableMinimum, None) \<Rightarrow>
                 if \<not> hasUpgradeableMinimum then
                   Some (MakeClusterUnupgradeableError CheckStatusDeprecatedVCenter
                           (Failure (''found older vcenter version '' @ vcenterAPIVersion
                              @ '', minimum required version for upgrade is ''
                              @ minUpgradeableVCenterVersion)))
                 else None))"

fun VCenterChecker_loop :: "VSphereConnection list \<Rightarrow> ClusterCheckResult list outcome" where
  "VCenterChecker_loop [] = Returned []"
| "VCenterChecker_loop (vConn # rest) =
     (case Client vConn of
        None \<Rightarrow> Panicked nil_deref
      | Some vmClient \<Rightarrow>
          (case vcenter_verdict (ApiVersion vmClient) of
             Some r \<Rightarrow> Returned [r]
           | None \<Rightarrow> VCenterChecker_loop rest))"

definition VCenterChecker_Check :: "CheckArgs \<Rightarrow> ClusterCheckResult list outcome" where
  "VCenterChecker_Check checkOpts = VCenterChecker_loop (vmConnection checkOpts)"

subsection \<open>Existing driver\<close>

definition found_driver_on :: "CSINode \<Rightarrow> string \<Rightarrow> ClusterCheckResult" where
  "found_driver_on csiNode driverName =
     makeFoundExistingDriverResult
       (Failure (''found existing unsupported '' @ driverName @ '' driver on node ''
          @ csinode_Name csiNode))"

fun csinode_loop :: "CSINode list \<Rightarrow> ClusterCheckResult list" where
  "csinode_loop [] = []"
| "csinode_loop (csiNode # rest) =
     (if VSphereDriverName \<in> set (csinode_Drivers csiNode)
      then [found_driver_on csiNode VSphereDriverName]
      else csinode_loop rest)"

definition checkForCSINode :: "CheckArgs \<Rightarrow> ClusterCheckResult list" where
  "checkForCSINode checkOpts =
     (case CSINodeLister (apiClient checkOpts) of
        Inl err \<Rightarrow>
          [\<lparr>CheckError = Some err, CheckStatus = CheckStatusOpenshiftAPIError,
            Action = CheckActionDegrade,
            Reason = ''failed to list csi node objects for driver '' @ VSphereDriverName
              @ '': '' @ err_msg err\<rparr>]
      | Inr csiNodeObjects \<Rightarrow> csinode_loop csiNodeObjects)"

definition CheckExistingDriver_Check :: "CheckArgs \<Rightarrow> ClusterCheckResult list" where
  "CheckExistingDriver_Check checkOpts =
     (case CSIDriverLister (apiClient checkOpts) VSphereDriverName of
        Inl err \<Rightarrow>
          if is_not_found err then checkForCSINode checkOpts
          else [\<lparr>CheckError = Some err, CheckStatus = CheckStatusOpenshiftAPIError,
                 Action = CheckActionDegrade,
                 Reason = ''failed to check for existing csiDriver of type '' @ VSphereDriverName
                   @ '': '' @ err_msg err\<rparr>]
      | Inr csiDriver \<Rightarrow>
          if \<not> openshift_annotated csiDriver then
            [makeFoundExistingDriverResult
               (Failure (''found existing unsupported '' @ VSphereDriverName @ '' driver''))]
          else [])"

subsection \<open>Both checks meet the contract\<close>

lemma vcenter_verdict_wf: "vcenter_verdict v = Some r \<Longrightarrow> wf_result r"
  by (auto simp: vcenter_verdict_def split: prod.splits option.splits if_splits)

lemma VCenterChecker_wf:
  "VCenterChecker_loop conns = Returned rs \<Longrightarrow> r \<in> set rs \<Longrightarrow> wf_result r"
  by (induction conns) (auto split: option.splits dest: vcenter_verdict_wf)

lemma csinode_loop_wf: "r \<in> set (csinode_loop ns) \<Longrightarrow> wf_result r"
  by (induction ns) (auto simp: found_driver_on_def split: if_splits)

lemma append_last_text [simp]: "has_suffix (a @ b @ t) t"
  by (metis append.assoc has_suffix_append)

lemma CheckExistingDriver_wf: "r \<in> set (CheckExistingDriver_Check args) \<Longrightarrow> wf_result r"
  by (auto simp: CheckExistingDriver_Check_def checkForCSINode_def wf_result_def csinode_loop_wf
      makeFoundExistingDriverResult_def has_suffix_iff split: sum.splits if_splits
      dest!: csinode_loop_wf)

interpretation vcenter_check: cluster_check "\<lambda>args rs. VCenterChecker_Check args = Returned rs"
  by unfold_locales (auto simp: VCenterChecker_Check_def dest: VCenterChecker_wf)

interpretation existing_driver_check: cluster_check "\<lambda>args rs. rs = CheckExistingDriver_Check args"
  by unfold_locales (auto dest: CheckExistingDriver_wf)

subsection \<open>What the checks decide\<close>

lemma csinode_loop_empty:
  "csinode_loop ns = [] \<longleftrightarrow> (\<forall>n \<in> set ns. VSphereDriverName \<notin> set (csinode_Drivers n))"
  by (induction ns) auto

lemma csinode_loop_action:
  "r \<in> set (csinode_loop ns) \<Longrightarrow> Action r = CheckActionBlockUpgradeDriverInstall"
  by (induction ns) (auto simp: found_driver_on_def makeFoundExistingDriverResult_def split: if_splits)

lemma VCenterChecker_returns:
  "\<forall>c \<in> set conns. Client c \<noteq> None \<Longrightarrow> \<exists>rs. VCenterChecker_loop conns = Returned rs"
  by (induction conns) (auto split: option.splits)

text \<open>The classes of a dotted version, from the component order of \<open>Version_Check\<close>.\<close>

lemma dotted_min_vcenter:
  "minRequiredVCenterVersion = dotted [6, 7, 3]" "minUpgradeableVCenterVersion = dotted [7, 0, 2]"
  by (simp_all add: minRequiredVCenterVersion_def minUpgradeableVCenterVersion_def go_simps)

text \<open>
  The verdict on a vCenter with a dotted API version: below 6.7.3 it blocks upgrades or
  degrades, from 6.7.3 up to but not including 7.0.2 it blocks upgrades, from 7.0.2 on the
  vCenter passes; the order is the lexicographic one on (major, minor, patch).
\<close>
theorem vcenter_verdict_dotted:
  assumes "ns \<noteq> []" and "\<forall>n \<in> set (take 3 ns). n \<le> max_uint64"
  shows "map_option (\<lambda>r. (CheckStatus r, Action r)) (vcenter_verdict (dotted ns)) =
     (if \<not> nums_ge (pad3 ns) [6, 7, 3]
      then Some (CheckStatusDeprecatedVCenter, CheckActionBlockUpgradeOrDegrade)
      else if \<not> nums_ge (pad3 ns) [7, 0, 2]
      then Some (CheckStatusDeprecatedVCenter, CheckActionBlockUpgrade)
      else None)"
  using IsMinimumVersion_nums [OF assms, of 6 7 3] IsMinimumVersion_nums [OF assms, of 7 0 2]
  by (simp add: vcenter_verdict_def dotted_min_vcenter max_uint64_def check_simps del: nums_ge.simps)

theorem vcenter_verdict_dotted_witness:
  "map_option Action (vcenter_verdict (dotted [6, 5, 0])) = Some CheckActionBlockUpgradeOrDegrade
   \<and> map_option Action (vcenter_verdict (dotted [7, 0, 1])) = Some CheckActionBlockUpgrade
   \<and> vcenter_verdict (dotted [8, 0, 0, 1]) = None"
proof -
  have snd_of: "map_option Action v = map_option snd (map_option (\<lambda>r. (CheckStatus r, Action r)) v)" for v
    by (cases v) auto
  show ?thesis
    using vcenter_verdict_dotted [of "[6, 5, 0]"] vcenter_verdict_dotted [of "[7, 0, 1]"]
      vcenter_verdict_dotted [of "[8, 0, 0, 1]"]
    by (auto simp: snd_of pad3_def max_uint64_def numeral_3_eq_3)
qed

definition api_versions :: "VSphereConnection list \<Rightarrow> string list" where
  "api_versions conns = List.map_filter (\<lambda>c. map_option ApiVersion (Client c)) conns"

lemma VCenterChecker_find:
  "\<forall>c \<in> set conns. Client c \<noteq> None \<Longrightarrow>
     VCenterChecker_loop conns =
       Returned (case find (\<lambda>v. vcenter_verdict v \<noteq> None) (api_versions conns) of
                   None \<Rightarrow> [] | Some v \<Rightarrow> [the (vcenter_verdict v)])"
  by (induction conns) (auto simp: api_versions_def map_filter_simps split: option.splits)

text \<open>
  With every client open the vCenter check does not panic; it reports nothing exactly when
  every vCenter passes, and otherwise one result, the verdict on the first vCenter, in connection
  order, that does not pass. A later vCenter with a more severe verdict is not looked at.
\<close>
theorem VCenterChecker_reports_first:
  assumes "\<forall>c \<in> set (vmConnection checkOpts). Client c \<noteq> None"
  shows "VCenterChecker_Check checkOpts =
      Returned (case find (\<lambda>v. vcenter_verdict v \<noteq> None) (api_versions (vmConnection checkOpts)) of
                  None \<Rightarrow> [] | Some v \<Rightarrow> [the (vcenter_verdict v)])"
  using VCenterChecker_find [OF assms] by (simp add: VCenterChecker_Check_def)

text \<open>
  The existing-driver check is complete: it is silent exactly when a CSIDriver object carries
  OpenShift's annotation, or there is none and no CSINode lists the driver; a lister error other
  than "not found" degrades; every other case blocks the driver installation.
\<close>
theorem CheckExistingDriver_decides:
  "map Action (CheckExistingDriver_Check checkOpts) =
     (case CSIDriverLister (apiClient checkOpts) VSphereDriverName of
        Inr d \<Rightarrow> if openshift_annotated d then [] else [CheckActionBlockUpgradeDriverInstall]
      | Inl err \<Rightarrow>
          if \<not> is_not_found err then [CheckActionDegrade]
          else (case CSINodeLister (apiClient checkOpts) of
                  Inl e \<Rightarrow> [CheckActionDegrade]
                | Inr ns \<Rightarrow> if \<exists>n \<in> set ns. VSphereDriverName \<in> set (csinode_Drivers n)
                            then [CheckActionBlockUpgradeDriverInstall] else []))"
proof -
  have loop: "map Action (csinode_loop ns) =
      (if \<exists>n \<in> set ns. VSphereDriverName \<in> set (csinode_Drivers n)
       then [CheckActionBlockUpgradeDriverInstall] else [])" for ns
    by (induction ns) (auto simp: found_driver_on_def check_simps)
  show ?thesis
    by (simp add: CheckExistingDriver_Check_def checkForCSINode_def loop check_simps split: sum.split)
qed

end
