(* ===== verification/Node_Check.thy ===== *)
theory Node_Check
  imports Simple_Checks
begin

text \<open>
  \<open>checks/check_nodes.go\<close>, the work done for one node: is it a vSphere node, its VM (hardware
  version), its ESXi host (API version, volume limit). A host is looked at once: the set of hosts
  already seen (\<open>hostESXIVersions\<close>) is passed in and returned. The worker pool around this
  function is in \<open>Node_Pool\<close>.
\<close>

subsection \<open>Constants\<close>

definition hardwareVersionPrefix :: string where
  "hardwareVersionPrefix = ''vmx-''"

definition minHardwareVersion :: int where
  "minHardwareVersion = 15"

definition minRequiredHostVersion :: string where
  "minRequiredHostVersion = ''6.7.3''"

definition minRequiredHostVersionForIncreasedVolLimit :: string where
  "minRequiredHostVersionForIncreasedVolLimit = ''8.0.0''"

definition minUpgradeableHostVersion :: string where
  "minUpgradeableHostVersion = ''7.0.2''"

definition vSphereProviderIDPrefix :: string where
  "vSphereProviderIDPrefix = ''vsphere://''"

subsection \<open>The node\<close>

definition validateVsphereNode :: "Node \<Rightarrow> FeatureGate \<Rightarrow> go_error option" where
  "validateVsphereNode node fg =
     (if gate_enabled fg FeatureGateVSphereMixedNodeEnv then
        (if node_Labels node ''node.openshift.io/platform-type'' = Some ''vsphere'' then None
         else Some (Failure (''node '' @ node_Name node
                @ '' is not a vSphere node: platform-type label is not set to vsphere'')))
      else if node_ProviderID node = [] \<or> \<not> has_prefix (node_ProviderID node) vSphereProviderIDPrefix
      then Some (Failure (''node '' @ node_Name node @ '' is not a vSphere node: providerID ''
             @ quote (node_ProviderID node) @ '' does not have the expected vSphere prefix ''
             @ quote vSphereProviderIDPrefix))
      else None)"

subsection \<open>The VM and the host\<close>

definition vm_uuid :: "Node \<Rightarrow> string" where
  "vm_uuid node = to_lower (trim_space (trim_prefix (node_ProviderID node) ''vsphere://''))"

text \<open>The inner loop of \<open>getVM\<close>: \<open>Inr None\<close> when no datacenter of this vCenter has the VM.\<close>

fun getVM_dcs :: "VClient \<Rightarrow> Node \<Rightarrow> string \<Rightarrow> string list \<Rightarrow> VirtualMachine option result" where
  "getVM_dcs client node vmUUID [] = Inr None"
| "getVM_dcs client node vmUUID (dcName # dcs) =
     (case find_Datacenter client dcName of
        Inl err \<Rightarrow> Inl (Failure (''failed to access Datacenter '' @ dcName @ '': '' @ err_msg err))
      | Inr dc \<Rightarrow>
          (case find_ByUuid client dc vmUUID of
             Inl err \<Rightarrow> Inl (Failure (''failed to find VM '' @ node_Name node @ '' by UUID ''
                           @ vmUUID @ '': '' @ err_msg err))
           | Inr None \<Rightarrow> getVM_dcs client node vmUUID dcs
           | Inr (Some svm) \<Rightarrow>
               (case props_VM client svm of
                  Inl err \<Rightarrow> Inl (Failure (''failed to load VM '' @ node_Name node @ '': '' @ err_msg err))
                | Inr vm \<Rightarrow> Inr (Some vm))))"

fun getVM_conns :: "VSphereConnection list \<Rightarrow> Node \<Rightarrow> string \<Rightarrow> VirtualMachine result outcome" where
  "getVM_conns [] node vmUUID =
     Returned (Inl (Failure (''unable to find VM '' @ node_Name node @ '' by UUID '' @ vmUUID)))"
| "getVM_conns (c # cs) node vmUUID =
     (case Client c of
        None \<Rightarrow> Panicked nil_deref
      | Some client \<Rightarrow>
          (case GetDatacenters (conn_Config c) (Hostname c) of
             Inl err \<Rightarrow> Returned (Inl err)
           | Inr dataCenterNames \<Rightarrow>
               (case getVM_dcs client node vmUUID dataCenterNames of
                  Inl err \<Rightarrow> Returned (Inl err)
                | Inr (Some vm) \<Rightarrow> Returned (Inr vm)
                | Inr None \<Rightarrow> getVM_conns cs node vmUUID)))"

definition getVM :: "CheckArgs \<Rightarrow> Node \<Rightarrow> VirtualMachine result outcome" where
  "getVM checkOpts node = getVM_conns (vmConnection checkOpts) node (vm_uuid node)"

text \<open>The loop of \<open>getHost\<close>: the error of the last failed try, overwritten by the next one.\<close>

fun getHost_loop ::
  "VSphereConnection list \<Rightarrow> string \<Rightarrow> go_error option \<Rightarrow> (go_error option \<times> HostSystem) outcome"
  where
  "getHost_loop [] hostName err = Returned (err, \<lparr>host_Config_ApiVersion = None\<rparr>)"
| "getHost_loop (c # cs) hostName err =
     (case Client c of
        None \<Rightarrow> Panicked nil_deref
      | Some client \<Rightarrow>
          (case props_Host client hostName of
             Inr host \<Rightarrow> Returned (None, host)
           | Inl e \<Rightarrow> getHost_loop cs hostName (Some e)))"

text \<open>On success the API version of the host is all the caller reads.\<close>

definition getHost :: "CheckArgs \<Rightarrow> string \<Rightarrow> string result outcome" where
  "getHost checkOpts hostName =
     obind (getHost_loop (vmConnection checkOpts) hostName None) (\<lambda>(err, host).
       case err of
         Some e \<Rightarrow> Returned (Inl (Failure (''failed to load ESXi host '' @ hostName @ '': '' @ err_msg e)))
       | None \<Rightarrow>
           (case host_Config_ApiVersion host of
              None \<Rightarrow> Returned (Inl (Failure (''error getting ESXi host version '' @ hostName
                                  @ '': host.config is nil'')))
            | Some v \<Rightarrow> Returned (Inr v)))"

subsection \<open>checkOnNode\<close>

text \<open>
  Lines 136 to 169: the node and its VM, up to the name of the host. A VM without a host reaches
  \<open>makeDeprecatedEnvironmentError\<close> with the nil error of the parse above it.
\<close>

definition check_node_vm :: "CheckArgs \<Rightarrow> Node \<Rightarrow> (ClusterCheckResult + string) outcome" where
  "check_node_vm checkOpts node =
     (case validateVsphereNode node (featureGate checkOpts) of
        Some err \<Rightarrow> Returned (Inl (MakeClusterDegradedError CheckStatusNonVSphereNode err))
      | None \<Rightarrow>
          obind (getVM checkOpts node) (\<lambda>vm_or_err.
          case vm_or_err of
            Inl err \<Rightarrow> Returned (Inl (makeDeprecatedEnvironmentError CheckStatusVcenterAPIError err))
          | Inr vm \<Rightarrow>
              (case vm_Config_Version vm of
                 None \<Rightarrow> Panicked nil_deref
               | Some hwVersion \<Rightarrow>
                   (let vmHWVersion = trim hwVersion hardwareVersionPrefix
                    in case parse_int vmHWVersion 0 of
                         Inl e \<Rightarrow> Returned (Inl (makeDeprecatedEnvironmentError
                           CheckStatusVcenterAPIError (num_error ''ParseInt'' vmHWVersion e)))
                       | Inr versionInt \<Rightarrow>
                           if versionInt < minHardwareVersion then
                             Returned (Inl (makeDeprecatedEnvironmentError
                               CheckStatusDeprecatedHWVersion
                               (Failure (''node '' @ node_Name node @ '' has hardware version ''
                                 @ hwVersion @ '', which is below the minimum required version ''
                                 @ format_int minHardwareVersion))))
                           else
                             (case vm_Runtime_Host vm of
                                None \<Rightarrow> Panicked nil_deref
                              | Some hostName \<Rightarrow> Returned (Inr hostName))))))"

text \<open>\<open>IsMinimumVersion\<close> with its error only logged, as the node check uses it.\<close>

definition meets :: "string \<Rightarrow> string \<Rightarrow> bool" where
  "meets minimum v = fst (IsMinimumVersion minimum v)"

text \<open>Lines 180 to 217: the verdict on the host's API version.\<close>

definition host_verdict :: "CheckArgs \<Rightarrow> string \<Rightarrow> string \<Rightarrow> ClusterCheckResult" where
  "host_verdict checkOpts hostName hostAPIVersion =
     (if \<not> meets minRequiredHostVersion hostAPIVersion then
        makeDeprecatedEnvironmentError CheckStatusDeprecatedESXIVersion
          (Failure (''host '' @ hostName @ '' is on ESXI version '' @ hostAPIVersion
             @ '', which is below minimum required version '' @ minRequiredHostVersion))
      else if \<not> meets minUpgradeableHostVersion hostAPIVersion then
        MakeClusterUnupgradeableError CheckStatusDeprecatedESXIVersion
          (Failure (''host '' @ hostName @ '' is on ESXI version '' @ hostAPIVersion
             @ '', which is below minimum required version '' @ minUpgradeableHostVersion
             @ '' for cluster upgrade''))
      else if gate_enabled (featureGate checkOpts)
                FeatureGateVSphereConfigurableMaxAllowedBlockVolumesPerNode then
        (let clusterCSIDriver = (case ClusterCSIDriverLister (apiClient checkOpts) VSphereDriverName of
                                   Inl err \<Rightarrow> None | Inr d \<Rightarrow> Some d);
             currentMaxVolumesPerNode = GetMaxVolumesPerNode clusterCSIDriver
         in if MaxVolumesPerNodeVSphere7 < currentMaxVolumesPerNode
               \<and> \<not> meets minRequiredHostVersionForIncreasedVolLimit hostAPIVersion
            then MakeClusterDegradedError CheckStatusBlockVolumeLimitError
              (Failure (''host '' @ hostName @ '' is on ESXI version '' @ hostAPIVersion
                 @ '', which is below minimum required version ''
                 @ minRequiredHostVersionForIncreasedVolLimit
                 @ '' for maxAllowedBlockVolumesPerNode set in clusterCSIDriver''))
            else MakeClusterCheckResultPass)
      else MakeClusterCheckResultPass)"

definition check_host :: "CheckArgs \<Rightarrow> string \<Rightarrow> ClusterCheckResult outcome" where
  "check_host checkOpts hostName =
     obind (getHost checkOpts hostName) (\<lambda>host_or_err.
       case host_or_err of
         Inl err \<Rightarrow> Returned (makeDeprecatedEnvironmentError CheckStatusVcenterAPIError err)
       | Inr hostAPIVersion \<Rightarrow> Returned (host_verdict checkOpts hostName hostAPIVersion))"

text \<open>\<open>checkOrMarkHostForProcessing\<close>: was the host there, and the set with it.\<close>

definition checkOrMarkHostForProcessing :: "string list \<Rightarrow> string \<Rightarrow> bool \<times> string list" where
  "checkOrMarkHostForProcessing hosts hostName =
     (if hostName \<in> set hosts then (True, hosts) else (False, hostName # hosts))"

definition checkOnNode ::
  "CheckArgs \<Rightarrow> Node \<Rightarrow> string list \<Rightarrow> (ClusterCheckResult \<times> string list) outcome" where
  "checkOnNode checkOpts node hosts =
     obind (check_node_vm checkOpts node) (\<lambda>vm.
       case vm of
         Inl r \<Rightarrow> Returned (r, hosts)
       | Inr hostName \<Rightarrow>
           (let (beingProcessed, hosts') = checkOrMarkHostForProcessing hosts hostName
            in if beingProcessed then Returned (MakeClusterCheckResultPass, hosts')
               else obind (check_host checkOpts hostName) (\<lambda>r. Returned (r, hosts'))))"

text \<open>The reference for one node: its own check with no host seen before.\<close>

definition full_check :: "CheckArgs \<Rightarrow> Node \<Rightarrow> ClusterCheckResult outcome" where
  "full_check checkOpts node =
     obind (check_node_vm checkOpts node) (\<lambda>vm.
       case vm of Inl r \<Rightarrow> Returned r | Inr hostName \<Rightarrow> check_host checkOpts hostName)"

subsection \<open>Results are well formed\<close>

lemma host_verdict_wf: "wf_result (host_verdict args h v)"
  by (simp add: host_verdict_def Let_def split: sum.split)

lemma check_host_wf: "check_host args h = Returned r \<Longrightarrow> wf_result r"
  by (auto simp: check_host_def host_verdict_wf elim!: obind_ReturnedE split: sum.splits)

lemma check_node_vm_failed:
  "check_node_vm args n = Returned (Inl r) \<Longrightarrow> wf_result r \<and> CheckError r \<noteq> None"
  by (auto simp: check_node_vm_def Let_def check_simps wf_result_def elim!: obind_ReturnedE
      split: option.splits sum.splits if_splits)

lemma checkOnNode_cases:
  assumes "checkOnNode args n hosts = Returned (r, hosts')"
  obtains (vm) "check_node_vm args n = Returned (Inl r)" "hosts' = hosts"
  | (seen) h where "check_node_vm args n = Returned (Inr h)" "h \<in> set hosts"
      "r = MakeClusterCheckResultPass" "hosts' = hosts"
  | (host) h where "check_node_vm args n = Returned (Inr h)" "h \<notin> set hosts"
      "check_host args h = Returned r" "hosts' = h # hosts"
proof -
  from assms obtain x where vm: "check_node_vm args n = Returned x"
    by (auto simp: checkOnNode_def obind_Returned)
  show ?thesis
  proof (cases x)
    case (Inl r')
    with assms vm show ?thesis by (auto simp: checkOnNode_def intro: that(1))
  next
    case (Inr h)
    with assms vm show ?thesis
      by (cases "h \<in> set hosts")
        (auto simp: checkOnNode_def checkOrMarkHostForProcessing_def obind_Returned
          intro: that(2) that(3))
  qed
qed

lemma checkOnNode_wf: "checkOnNode args n hosts = Returned (r, hosts') \<Longrightarrow> wf_result r"
  by (erule checkOnNode_cases) (auto dest: check_node_vm_failed check_host_wf)

lemma full_check_vm: "check_node_vm args n = Returned (Inl r) \<Longrightarrow> full_check args n = Returned r"
  by (simp add: full_check_def)

lemma full_check_host: "check_node_vm args n = Returned (Inr h) \<Longrightarrow> full_check args n = check_host args h"
  by (simp add: full_check_def)

lemma full_check_wf: "full_check args n = Returned r \<Longrightarrow> wf_result r"
  by (auto simp: full_check_def elim!: obind_ReturnedE split: sum.splits
      dest: check_node_vm_failed check_host_wf)

lemma full_check_eq_checkOnNode:
  "full_check args n = obind (checkOnNode args n []) (\<lambda>(r, hosts). Returned r)"
  by (cases "check_node_vm args n")
    (auto simp: full_check_def checkOnNode_def checkOrMarkHostForProcessing_def obind_assoc
      split: sum.split, metis obind.simps outcome.exhaust)

subsection \<open>What the node check decides\<close>

lemma dotted_host_versions:
  "minRequiredHostVersion = dotted [6, 7, 3]" "minUpgradeableHostVersion = dotted [7, 0, 2]"
  "minRequiredHostVersionForIncreasedVolLimit = dotted [8, 0, 0]"
  by (simp_all add: minRequiredHostVersion_def minUpgradeableHostVersion_def
      minRequiredHostVersionForIncreasedVolLimit_def go_simps)

text \<open>The volume limit asked for by the ClusterCSIDriver, 59 when it cannot be read.\<close>

definition wanted_volumes :: "CheckArgs \<Rightarrow> int" where
  "wanted_volumes args =
     GetMaxVolumesPerNode (case ClusterCSIDriverLister (apiClient args) VSphereDriverName of
                             Inl err \<Rightarrow> None | Inr d \<Rightarrow> Some d)"

text \<open>
  The verdict on a host with a dotted API version: below 6.7.3 deprecated (blocks upgrades or
  degrades), from 6.7.3 and below 7.0.2 not upgradeable, and, with the feature gate on, a host
  below 8.0.0 degrades the cluster when more than 59 volumes per node are asked for. Everything
  else passes.
\<close>
theorem host_verdict_dotted:
  assumes "ns \<noteq> []" and "\<forall>n \<in> set (take 3 ns). n \<le> max_uint64"
  shows "(CheckStatus (host_verdict args h (dotted ns)), Action (host_verdict args h (dotted ns))) =
     (if \<not> nums_ge (pad3 ns) [6, 7, 3]
      then (CheckStatusDeprecatedESXIVersion, CheckActionBlockUpgradeOrDegrade)
      else if \<not> nums_ge (pad3 ns) [7, 0, 2]
      then (CheckStatusDeprecatedESXIVersion, CheckActionBlockUpgrade)
      else if gate_enabled (featureGate args) FeatureGateVSphereConfigurableMaxAllowedBlockVolumesPerNode
           \<and> MaxVolumesPerNodeVSphere7 < wanted_volumes args \<and> \<not> nums_ge (pad3 ns) [8, 0, 0]
      then (CheckStatusBlockVolumeLimitError, CheckActionDegrade)
      else (CheckStatusPass, CheckActionPass))"
  using IsMinimumVersion_nums [OF assms, of 6 7 3] IsMinimumVersion_nums [OF assms, of 7 0 2]
    IsMinimumVersion_nums [OF assms, of 8 0 0]
  by (simp add: host_verdict_def wanted_volumes_def meets_def dotted_host_versions max_uint64_def
      check_simps Let_def del: nums_ge.simps)

theorem host_verdict_dotted_witness:
  "\<forall>args. Action (host_verdict args ''esx1'' (dotted [6, 7, 2])) = CheckActionBlockUpgradeOrDegrade
     \<and> Action (host_verdict args ''esx1'' (dotted [6, 7, 3])) = CheckActionBlockUpgrade"
  using host_verdict_dotted [of "[6, 7, 2]"] host_verdict_dotted [of "[6, 7, 3]"]
  by (simp add: pad3_def max_uint64_def numeral_3_eq_3)

lemma trim_prefix_chars:
  assumes "\<forall>c \<in> set a. c \<in> set cutset" and "\<forall>c \<in> set d. c \<notin> set cutset"
  shows "trim (a @ d) cutset = d"
  using assms by (simp add: trim_def dropWhile_append2 dropWhile_none)

lemma trim_vmx: "trim (''vmx-'' @ nat_to_dec n) hardwareVersionPrefix = nat_to_dec n"
proof (rule trim_prefix_chars)
  show "\<forall>c \<in> set (nat_to_dec n). c \<notin> set hardwareVersionPrefix"
    using digits_no_underscore [OF nat_to_dec_digits] nat_to_dec_seps
    by (auto simp: hardwareVersionPrefix_def)
qed (simp add: hardwareVersionPrefix_def)

text \<open>
  For a vSphere node whose virtual machine is found, hardware version \<open>vmx-n\<close> is rejected as
  deprecated for \<open>n < 15\<close> and accepted, with the host to look at next, from 15 on; a machine that
  is not placed on a host makes the check panic (the error it passes on is nil there).
\<close>
theorem hardware_version_verdict:
  assumes "validateVsphereNode node (featureGate args) = None"
    and "getVM args node = Returned (Inr vm)"
    and "vm_Config_Version vm = Some (''vmx-'' @ nat_to_dec n)" and "0 < n" and "n < 2 ^ 63"
  shows "check_node_vm args node =
     (if n < 15 then
        Returned (Inl (makeDeprecatedEnvironmentError CheckStatusDeprecatedHWVersion
          (Failure (''node '' @ node_Name node @ '' has hardware version vmx-'' @ nat_to_dec n
             @ '', which is below the minimum required version 15''))))
      else (case vm_Runtime_Host vm of
              None \<Rightarrow> Panicked nil_deref
            | Some h \<Rightarrow> Returned (Inr h)))"
proof -
  have "format_int 15 = ''15''"
    by (simp add: go_simps)
  with assms show ?thesis
    using trim_vmx [of n] parse_int_nat_to_dec [of n]
    by (simp add: check_node_vm_def minHardwareVersion_def Let_def)
qed

text \<open>
  A hardware version written with a leading zero is not read as a decimal number (base 0 makes
  it octal), so the versions \<open>vmx-08\<close> and \<open>vmx-09\<close> are reported as a vCenter API error instead of
  a deprecated hardware version.
\<close>
theorem hardware_version_leading_zero:
  assumes "validateVsphereNode node (featureGate args) = None"
    and "getVM args node = Returned (Inr vm)"
    and "vm_Config_Version vm \<in> {Some ''vmx-08'', Some ''vmx-09''}"
  shows "\<exists>r. check_node_vm args node = Returned (Inl r) \<and> CheckStatus r = CheckStatusVcenterAPIError"
  using assms
  by (auto simp: check_node_vm_def hardwareVersionPrefix_def trim_def parse_int_def parse_uint_def
      base_prefix_def digit_val_def is_digit_def lower_def check_simps Let_def)

end
