(* ===== verification/Example_Cluster.thy ===== *)
theory Example_Cluster
  imports Node_Check
begin

text \<open>
  One small concrete cluster, shared by the witnesses of the theories above: a vCenter \<open>vc1\<close>
  with the datacenter \<open>dc1\<close>, whose virtual machines all run hardware version 15 on one ESXi
  host of version 7.0.2, and nodes that belong to it or do not.
\<close>

definition example_config :: VSphereConfig where
  "example_config =
     \<lparr>Config = \<lparr>VirtualCenter =
        [(''vc1'', \<lparr>VCenterIP = ''vc1'', InsecureFlag = True, cfg_Datacenters = ''dc1''\<rparr>)]\<rparr>,
      LegacyConfig = Some \<lparr>lg_VirtualCenter = [(''vc1'', ''dc1'')],
        lg_Workspace = \<lparr>ws_VCenterIP = ''vc1'', ws_Datacenter = ''dc1'', ws_Folder = ''f'',
          ws_DefaultDatastore = ''ds'', ws_ResourcePoolPath = ''rp''\<rparr>\<rparr>\<rparr>"

definition example_client :: VClient where
  "example_client =
     \<lparr>ApiVersion = ''7.0.3'', About_Build = ''19717403'',
      find_Datacenter = (\<lambda>d. if d = ''dc1'' then Inr ''ref-dc1''
                             else Inl (Failure ''datacenter not found'')),
      find_ByUuid = (\<lambda>dc u. Inr (Some u)),
      props_VM = (\<lambda>u. Inr \<lparr>vm_Config_Version = Some ''vmx-15'', vm_Runtime_Host = Some ''esx1''\<rparr>),
      props_Host = (\<lambda>h. Inr \<lparr>host_Config_ApiVersion = Some ''7.0.2''\<rparr>),
      find_Datastore = (\<lambda>dc d. Inr ''ref-ds''),
      props_Datastore = (\<lambda>r. Inr \<lparr>ds_Reference = r, ds_Summary_Name = ''ds'', ds_Summary_Url = ''url''\<rparr>)\<rparr>"

definition example_connection :: VSphereConnection where
  "example_connection =
     \<lparr>Client = Some example_client, RestClient = True, Username = ''u'', Password = ''p'',
      Hostname = ''vc1'', Insecure = True, conn_Config = example_config\<rparr>"

definition good_node :: "string \<Rightarrow> Node" where
  "good_node name =
     \<lparr>node_Name = name, node_Labels = [''kubernetes.io/os'' \<mapsto> ''linux''],
      node_ProviderID = ''vsphere://'' @ name\<rparr>"

definition foreign_node :: "string \<Rightarrow> Node" where
  "foreign_node name =
     \<lparr>node_Name = name, node_Labels = [''kubernetes.io/os'' \<mapsto> ''linux''],
      node_ProviderID = ''aws:///'' @ name\<rparr>"

definition example_infra :: Infrastructure where
  "example_infra =
     \<lparr>Platform_VSphere = None, CloudConfig_Name = ''cloud-provider-config'', CloudConfig_Key = ''config'',
      InfrastructureName = ''cluster1'', PlatformStatus_Type = Some ''VSphere'',
      ControlPlaneTopology = ''HighlyAvailable''\<rparr>"

definition example_api :: "Node list \<Rightarrow> KubeAPI" where
  "example_api ns =
     \<lparr>api_Infrastructure = example_infra, NodeLister = Inr ns, CSINodeLister = Inr [],
      CSIDriverLister = (\<lambda>n. Inl (NotFound n)),
      ClusterCSIDriverLister = (\<lambda>n. Inl (NotFound n))\<rparr>"

definition example_args :: "Node list \<Rightarrow> CheckArgs" where
  "example_args ns =
     \<lparr>vmConnection = [example_connection], apiClient = example_api ns, featureGate = []\<rparr>"

lemmas example_defs = example_config_def example_client_def example_connection_def
  good_node_def foreign_node_def example_infra_def example_api_def example_args_def

lemma foreign_node_fails:
  "\<exists>e. check_node_vm (example_args ns) (foreign_node x) =
     Returned (Inl (MakeClusterDegradedError CheckStatusNonVSphereNode e))"
  by (simp add: check_node_vm_def example_defs validateVsphereNode_def gate_enabled_def
      vSphereProviderIDPrefix_def has_prefix_def) blast

lemma good_node_valid: "validateVsphereNode (good_node x) (featureGate (example_args ns)) = None"
  by (simp add: example_defs validateVsphereNode_def gate_enabled_def vSphereProviderIDPrefix_def
      has_prefix_def)

lemma good_node_VM:
  "getVM (example_args ns) (good_node x) =
     Returned (Inr \<lparr>vm_Config_Version = Some (''vmx-'' @ nat_to_dec 15), vm_Runtime_Host = Some ''esx1''\<rparr>)"
  by (simp add: getVM_def example_defs GetDatacenters_def go_simps)

lemma good_node_vm: "check_node_vm (example_args ns) (good_node x) = Returned (Inr ''esx1'')"
  using trim_vmx [of 15] parse_int_nat_to_dec [of 15] good_node_valid [of x ns] good_node_VM [of ns x]
  by (simp add: check_node_vm_def minHardwareVersion_def Let_def)

lemma example_host_ok: "host_verdict (example_args ns) h ''7.0.2'' = MakeClusterCheckResultPass"
proof -
  have "''7.0.2'' = dotted [7, 0, 2]"
    by (simp add: go_simps)
  then show ?thesis
    using IsMinimumVersion_nums [of "[7, 0, 2]" 6 7 3] IsMinimumVersion_nums [of "[7, 0, 2]" 7 0 2]
    by (simp add: host_verdict_def meets_def dotted_host_versions max_uint64_def pad3_def
        numeral_3_eq_3 gate_enabled_def example_args_def)
qed

lemma good_node_passes:
  "full_check (example_args ns) (good_node x) = Returned MakeClusterCheckResultPass"
proof -
  have "getHost (example_args ns) ''esx1'' = Returned (Inr ''7.0.2'')"
    by (simp add: getHost_def example_args_def example_connection_def example_client_def)
  then show ?thesis
    by (simp add: full_check_def good_node_vm check_host_def example_host_ok)
qed

subsection \<open>Witnesses of the node check\<close>

theorem hardware_version_verdict_witness:
  "check_node_vm (example_args []) (good_node ''a'') = Returned (Inr ''esx1'')"
  using hardware_version_verdict [OF good_node_valid [of "''a''" "[]"] good_node_VM] by simp

definition old_vm_client :: VClient where
  "old_vm_client = example_client\<lparr>props_VM :=
     (\<lambda>u. Inr \<lparr>vm_Config_Version = Some ''vmx-09'', vm_Runtime_Host = Some ''esx1''\<rparr>)\<rparr>"

definition old_vm_args :: CheckArgs where
  "old_vm_args = (example_args [])\<lparr>vmConnection := [example_connection\<lparr>Client := Some old_vm_client\<rparr>]\<rparr>"

theorem hardware_version_leading_zero_witness:
  "\<exists>r. check_node_vm old_vm_args (good_node ''a'') = Returned (Inl r)
       \<and> CheckStatus r = CheckStatusVcenterAPIError"
proof (rule hardware_version_leading_zero)
  show "validateVsphereNode (good_node ''a'') (featureGate old_vm_args) = None"
    using good_node_valid [of "''a''" "[]"] by (simp add: old_vm_args_def)
  show "getVM old_vm_args (good_node ''a'') =
      Returned (Inr \<lparr>vm_Config_Version = Some ''vmx-09'', vm_Runtime_Host = Some ''esx1''\<rparr>)"
    by (simp add: getVM_def old_vm_args_def old_vm_client_def example_defs GetDatacenters_def)
qed simp

theorem VCenterChecker_reports_first_witness:
  "VCenterChecker_Check (example_args []) =
      Returned (case find (\<lambda>v. vcenter_verdict v \<noteq> None) [''7.0.3''] of
                  None \<Rightarrow> [] | Some v \<Rightarrow> [the (vcenter_verdict v)])"
  using VCenterChecker_reports_first [of "example_args []"]
  by (simp add: api_versions_def map_filter_simps example_args_def example_connection_def
      example_client_def)

end
