(* ===== verification/Storage_Policy.thy ===== *)
theory Storage_Policy
  imports Example_Cluster
begin

text \<open>
  \<open>storageclasscontroller/vmware.go\<close>: the storage policy of one vCenter (a tag category, a tag
  attached to the datastores of the failure domains, a profile that selects the tag). The tagging
  service (\<open>vapi/tags\<close>) and the policy service (\<open>pbm\<close>) are the record \<open>PolicyServer\<close> of calls on
  an arbitrary server state \<open>'s\<close>; the calls that change the server are counted by the code in
  \<open>apiTestInfo\<close>, here the list of their names.
\<close>

subsection \<open>The services\<close>

record Category =
  cat_ID :: string
  cat_Name :: string
  cat_Description :: string
  cat_AssociableTypes :: "string list"
  cat_Cardinality :: string

record Tag =
  tag_ID :: string
  tag_Name :: string
  tag_Description :: string
  tag_CategoryID :: string

text \<open>The policy to create: its name and the one capability, a tag of a category.\<close>

record ProfileSpec =
  prof_Name :: string
  prof_Category :: string
  prof_CapabilityId :: string
  prof_PropertyId :: string
  prof_Values :: "string list"

record 's PolicyServer =
  srv_GetCategory :: "'s \<Rightarrow> string \<Rightarrow> Category option \<times> go_error option"
  srv_CreateCategory :: "Category \<Rightarrow> 's \<Rightarrow> string result \<times> 's"
  srv_UpdateCategory :: "Category \<Rightarrow> 's \<Rightarrow> go_error option \<times> 's"
  srv_GetTag :: "'s \<Rightarrow> string \<Rightarrow> Tag option \<times> go_error option"
  srv_CreateTag :: "Tag \<Rightarrow> 's \<Rightarrow> string result \<times> 's"
  srv_UpdateTag :: "Tag \<Rightarrow> 's \<Rightarrow> go_error option \<times> 's"
  srv_AttachTag :: "string \<Rightarrow> string \<Rightarrow> 's \<Rightarrow> go_error option \<times> 's"
  srv_AttachedTags :: "'s \<Rightarrow> string \<Rightarrow> Tag list list result"
  srv_NewPbmClient :: "'s \<Rightarrow> unit result"
  srv_QueryProfile :: "'s \<Rightarrow> string list result"
  srv_RetrieveContent :: "'s \<Rightarrow> string list \<Rightarrow> (string \<times> string) list result" \<comment> \<open>name and id\<close>
  srv_CreateProfile :: "ProfileSpec \<Rightarrow> 's \<Rightarrow> string result \<times> 's"
  srv_DeleteProfile :: "string list \<Rightarrow> 's \<Rightarrow> go_error option \<times> 's"

record storagePolicyAPI =
  vcenterApiConnection :: VSphereConnection
  sp_infra :: Infrastructure
  failureDomains :: "FailureDomainSpec list"
  policyName :: string
  tagName :: string
  categoryName :: string
  policyCreated :: bool
  apiTestInfo :: "string list"

definition NewStoragePolicyAPI :: "VSphereConnection \<Rightarrow> Infrastructure \<Rightarrow> storagePolicyAPI outcome" where
  "NewStoragePolicyAPI connection infra =
     (case Platform_VSphere infra of
        None \<Rightarrow> Panicked nil_deref
      | Some spec \<Rightarrow> Returned
          \<lparr>vcenterApiConnection = connection, sp_infra = infra,
           failureDomains = filter (\<lambda>fd. fd_Server fd = Hostname connection) (FailureDomains spec),
           policyName = ''openshift-storage-policy-'' @ InfrastructureName infra,
           tagName = InfrastructureName infra,
           categoryName = ''openshift-'' @ InfrastructureName infra,
           policyCreated = False, apiTestInfo = []\<rparr>)"

subsection \<open>Datastores\<close>

definition lookup_datastore :: "VClient \<Rightarrow> string \<Rightarrow> string \<Rightarrow> Datastore result" where
  "lookup_datastore client dcName dsName =
     (case find_Datacenter client dcName of
        Inl err \<Rightarrow> Inl (Failure (''failed to access datacenter '' @ dcName @ '': '' @ err_msg err))
      | Inr dc \<Rightarrow>
          (case find_Datastore client dc dsName of
             Inl err \<Rightarrow> Inl (Failure (''failed to access datastore '' @ dsName @ '': '' @ err_msg err))
           | Inr ds \<Rightarrow>
               (case props_Datastore client ds of
                  Inl err \<Rightarrow> Inl (Failure (''error getting properties of datastore '' @ dsName
                                @ '': '' @ err_msg err))
                | Inr dsMo \<Rightarrow> Inr dsMo)))"

definition getDatastore :: "storagePolicyAPI \<Rightarrow> string \<Rightarrow> string \<Rightarrow> Datastore result outcome" where
  "getDatastore v dcName dsName =
     (case Client (vcenterApiConnection v) of
        None \<Rightarrow> Panicked nil_deref
      | Some vmClient \<Rightarrow> Returned (lookup_datastore vmClient dcName dsName))"

text \<open>The connection always carries a configuration, so the nil test of the code never holds.\<close>

definition policy_GetDefaultDatastore :: "storagePolicyAPI \<Rightarrow> Datastore result outcome" where
  "policy_GetDefaultDatastore v =
     (case Client (vcenterApiConnection v) of
        None \<Rightarrow> Panicked nil_deref
      | Some vmClient \<Rightarrow>
          (let config = conn_Config (vcenterApiConnection v)
           in case failureDomains v of
                fd # rest \<Rightarrow> Returned (lookup_datastore vmClient (fd_Datacenter fd) (fd_Datastore fd))
              | [] \<Rightarrow>
                  (case GetWorkspaceDatacenter config of
                     Inl err \<Rightarrow> Returned (Inl (Failure
                       (''unable to determine default datacenter from current config: '' @ err_msg err)))
                   | Inr dcName \<Rightarrow>
                       (case GetDefaultDatastore config of
                          Inl err \<Rightarrow> Returned (Inl (Failure
                            (''unable to determine default datastore from current config: '' @ err_msg err)))
                        | Inr dsName \<Rightarrow> Returned (lookup_datastore vmClient dcName dsName)))))"

subsection \<open>Associated types and errors\<close>

definition vim25Prefix :: string where
  "vim25Prefix = ''urn:vim25:''"

definition associatedTypesRaw :: "string list" where
  "associatedTypesRaw = [''StoragePod'', ''Datastore'', ''ResourcePool'', ''VirtualMachine'', ''Folder'']"

definition appendPrefix :: "string list \<Rightarrow> string list" where
  "appendPrefix associableTypes =
     sort (map (\<lambda>t. if has_prefix t vim25Prefix then t else vim25Prefix @ t) associableTypes)"

text \<open>\<open>sets.String\<close>: the union, listed in order.\<close>

definition updateAssociatedTypes :: "string list \<Rightarrow> string list" where
  "updateAssociatedTypes associatedTypes =
     sort (remdups (appendPrefix associatedTypes @ appendPrefix associatedTypesRaw))"

fun contains :: "string \<Rightarrow> string \<Rightarrow> bool" where
  "contains [] p = (p = [])"
| "contains (c # cs) p = (has_prefix (c # cs) p \<or> contains cs p)"

definition notFoundError :: "go_error \<Rightarrow> bool" where
  "notFoundError err = contains (err_msg err) ''404''"

text \<open>\<open>utilerrors.NewAggregate\<close> and its text; a single error prints as itself, repeats once.\<close>

definition aggregate_text :: "string list \<Rightarrow> string" where
  "aggregate_text msgs =
     (case msgs of
        [m] \<Rightarrow> m
      | _ \<Rightarrow> (let seen = rev (remdups (rev msgs))
              in case seen of [m] \<Rightarrow> m | _ \<Rightarrow> ''['' @ join '', '' seen @ '']''))"

definition NewAggregate :: "go_error list \<Rightarrow> go_error option" where
  "NewAggregate errs =
     (if errs = [] then None else Some (Failure (aggregate_text (map err_msg errs))))"

lemma NewAggregate_None [simp]: "NewAggregate errs = None \<longleftrightarrow> errs = []"
  by (simp add: NewAggregate_def)

subsection \<open>Tags\<close>

definition call :: "string \<Rightarrow> storagePolicyAPI \<Rightarrow> storagePolicyAPI" where
  "call api v = v\<lparr>apiTestInfo := apiTestInfo v @ [api]\<rparr>"

text \<open>\<open>createOrUpdateTag\<close>, first part: the category, its identifier on success.\<close>

definition ensure_category ::
  "'s PolicyServer \<Rightarrow> storagePolicyAPI \<Rightarrow> 's \<Rightarrow> string result \<times> storagePolicyAPI \<times> 's" where
  "ensure_category srv v s =
     (let name = categoryName v;
          create = (case srv_CreateCategory srv
               \<lparr>cat_ID = [], cat_Name = name,
                cat_Description = ''Added by openshift-install do not remove'',
                cat_AssociableTypes = appendPrefix associatedTypesRaw,
                cat_Cardinality = ''SINGLE''\<rparr> s of
               (Inl err, s1) \<Rightarrow>
                 (Inl (Failure (''error creating category '' @ name @ '': '' @ err_msg err)),
                  call ''create_category'' v, s1)
             | (Inr catId, s1) \<Rightarrow> (Inr catId, call ''create_category'' v, s1));
          update = (\<lambda>c.
             let c' = c\<lparr>cat_AssociableTypes := updateAssociatedTypes (cat_AssociableTypes c)\<rparr>
             in case srv_UpdateCategory srv c' s of
                  (Some err, s1) \<Rightarrow>
                    (Inl (Failure (''error updating category '' @ name @ '': '' @ err_msg err)),
                     call ''update_category'' v, s1)
                | (None, s1) \<Rightarrow> (Inr (cat_ID c), call ''update_category'' v, s1));
          found = (\<lambda>category. case category of
                     None \<Rightarrow> create
                   | Some c \<Rightarrow> if cat_ID c = [] then create else update c)
      in case srv_GetCategory srv s name of
           (category, None) \<Rightarrow> found category
         | (category, Some err) \<Rightarrow>
             if notFoundError err then found category
             else (Inl (Failure (''error finding category: '' @ err_msg err)), v, s))"

text \<open>Second part: the tag.\<close>

definition new_tag :: "string \<Rightarrow> string \<Rightarrow> string \<Rightarrow> Tag" where
  "new_tag name catId i = \<lparr>tag_ID = i, tag_Name = name,
     tag_Description = ''Added by openshift-install do not remove'', tag_CategoryID = catId\<rparr>"

lemma new_tag_simps [simp]:
  "tag_Name (new_tag name catId i) = name" "tag_ID (new_tag name catId i) = i"
  by (simp_all add: new_tag_def)

definition ensure_tag ::
  "'s PolicyServer \<Rightarrow> string \<Rightarrow> storagePolicyAPI \<Rightarrow> 's \<Rightarrow> string result \<times> storagePolicyAPI \<times> 's"
  where
  "ensure_tag srv catId v s =
     (let name = tagName v;
          create = (case srv_CreateTag srv (new_tag name catId []) s of
               (Inl err, s1) \<Rightarrow>
                 (Inl (Failure (''error creating tag '' @ name @ '': '' @ err_msg err)),
                  call ''create_tag'' v, s1)
             | (Inr tagID, s1) \<Rightarrow> (Inr tagID, call ''create_tag'' v, s1));
          found = (\<lambda>tag. case tag of
               None \<Rightarrow> create
             | Some t \<Rightarrow>
                 if tag_ID t = [] then create
                 else if tag_CategoryID t \<noteq> catId then
                   (case srv_UpdateTag srv (new_tag name catId (tag_ID t)) s of
                      (Some err, s1) \<Rightarrow>
                        (Inl (Failure (''error updating tag '' @ name @ '': '' @ err_msg err)),
                         call ''update_tag'' v, s1)
                    | (None, s1) \<Rightarrow> (Inr (tag_ID t), call ''update_tag'' v, s1))
                 else (Inr (tag_ID t), v, s))
      in case srv_GetTag srv s name of
           (tag, None) \<Rightarrow> found tag
         | (tag, Some err) \<Rightarrow>
             if notFoundError err then found tag
             else (Inl (Failure (''error finding tag '' @ name @ '': '' @ err_msg err)), v, s))"

text \<open>The tag manager of a connection without a REST session has no client to call.\<close>

definition createOrUpdateTag ::
  "'s PolicyServer \<Rightarrow> Datastore \<Rightarrow> storagePolicyAPI \<Rightarrow> 's
     \<Rightarrow> (go_error option \<times> storagePolicyAPI \<times> 's) outcome" where
  "createOrUpdateTag srv ds v s =
     (if \<not> RestClient (vcenterApiConnection v) then Panicked nil_deref
      else Returned
        (case ensure_category srv v s of
           (Inl err, v1, s1) \<Rightarrow> (Some err, v1, s1)
         | (Inr catId, v1, s1) \<Rightarrow>
             (case ensure_tag srv catId v1 s1 of
                (Inl err, v2, s2) \<Rightarrow> (Some err, v2, s2)
              | (Inr tagID, v2, s2) \<Rightarrow>
                  (case srv_AttachTag srv tagID (ds_Reference ds) s2 of
                     (err, s3) \<Rightarrow> (err, call ''attach_tag'' v2, s3)))))"

definition checkForTagOnDatastore :: "'s PolicyServer \<Rightarrow> Datastore \<Rightarrow> storagePolicyAPI \<Rightarrow> 's \<Rightarrow> bool outcome"
  where
  "checkForTagOnDatastore srv dsMo v s =
     (if \<not> RestClient (vcenterApiConnection v) then Panicked nil_deref
      else Returned
        (case srv_AttachedTags srv s (ds_Reference dsMo) of
           Inl err \<Rightarrow> False
         | Inr attachedTags \<Rightarrow>
             list_ex (\<lambda>tags. list_ex (\<lambda>tag. tag_Name tag = tagName v) tags) attachedTags))"

definition attachTags ::
  "'s PolicyServer \<Rightarrow> string \<Rightarrow> string \<Rightarrow> storagePolicyAPI \<Rightarrow> 's
     \<Rightarrow> (go_error option \<times> storagePolicyAPI \<times> 's) outcome" where
  "attachTags srv dcName dsName v s =
     obind (getDatastore v dcName dsName) (\<lambda>ds_or_err. case ds_or_err of
       Inl err \<Rightarrow> Returned (Some (Failure (''unable to fetch datastore '' @ dsName @ '': ''
                              @ err_msg err)), v, s)
     | Inr ds \<Rightarrow>
         obind (if policyCreated v then checkForTagOnDatastore srv ds v s else Returned False)
           (\<lambda>tagged.
           if tagged then Returned (None, v, s)
           else obind (createOrUpdateTag srv ds v s) (\<lambda>(err, v1, s1).
             Returned (case err of
                 None \<Rightarrow> (None, v1, s1)
               | Some e \<Rightarrow> (Some (Failure (''error tagging datastore '' @ dsName @ '' with ''
                              @ tagName v @ '': '' @ err_msg e)), v1, s1)))))"

subsection \<open>Profiles\<close>

text \<open>The client of \<open>pbm\<close> is opened on the connection's SOAP client.\<close>

definition with_pbm ::
  "'s PolicyServer \<Rightarrow> storagePolicyAPI \<Rightarrow> 's \<Rightarrow> (unit result \<Rightarrow> 'a outcome) \<Rightarrow> 'a outcome" where
  "with_pbm srv v s f =
     (case Client (vcenterApiConnection v) of
        None \<Rightarrow> Panicked nil_deref
      | Some c \<Rightarrow> f (srv_NewPbmClient srv s))"

definition profile_spec :: "storagePolicyAPI \<Rightarrow> ProfileSpec" where
  "profile_spec v =
     \<lparr>prof_Name = policyName v, prof_Category = ''REQUIREMENT'', prof_CapabilityId = categoryName v,
      prof_PropertyId = ''com.vmware.storage.tag.'' @ categoryName v @ ''.property'',
      prof_Values = [tagName v]\<rparr>"

definition createStorageProfile ::
  "'s PolicyServer \<Rightarrow> storagePolicyAPI \<Rightarrow> 's
     \<Rightarrow> (go_error option \<times> storagePolicyAPI \<times> 's) outcome" where
  "createStorageProfile srv v s =
     with_pbm srv v s (\<lambda>client. case client of
       Inl err \<Rightarrow> Returned (Some (Failure (''error creating pbm client: '' @ err_msg err)), v, s)
     | Inr _ \<Rightarrow>
         Returned (case srv_CreateProfile srv (profile_spec v) s of
             (Inl err, s1) \<Rightarrow> (Some (Failure (''error creating profile: '' @ err_msg err)),
                             call ''create_profile'' v, s1)
           | (Inr pid, s1) \<Rightarrow> (None, call ''create_profile'' v, s1)))"

definition checkForExistingPolicy ::
  "'s PolicyServer \<Rightarrow> storagePolicyAPI \<Rightarrow> 's \<Rightarrow> bool result outcome" where
  "checkForExistingPolicy srv v s =
     with_pbm srv v s (\<lambda>client. Returned (case client of
       Inl err \<Rightarrow> Inl (Failure (''error creating pbm client: '' @ err_msg err))
     | Inr _ \<Rightarrow>
         (case srv_QueryProfile srv s of
            Inl err \<Rightarrow> Inl (Failure (''error querying profiles: '' @ err_msg err))
          | Inr ids \<Rightarrow>
              (case srv_RetrieveContent srv s ids of
                 Inl err \<Rightarrow> Inl (Failure (''error fetching policy profiles: '' @ err_msg err))
               | Inr profiles \<Rightarrow> Inr (list_ex (\<lambda>p. fst p = policyName v) profiles)))))"

text \<open>The last profile with the name wins; without one the empty identifier is deleted.\<close>

definition deleteStoragePolicy ::
  "'s PolicyServer \<Rightarrow> storagePolicyAPI \<Rightarrow> 's \<Rightarrow> (go_error option \<times> 's) outcome" where
  "deleteStoragePolicy srv v s =
     with_pbm srv v s (\<lambda>client. Returned (case client of
       Inl err \<Rightarrow> (Some err, s)
     | Inr _ \<Rightarrow>
         (case srv_QueryProfile srv s of
            Inl err \<Rightarrow> (Some err, s)
          | Inr ids \<Rightarrow>
              (case srv_RetrieveContent srv s ids of
                 Inl err \<Rightarrow> (Some err, s)
               | Inr profiles \<Rightarrow>
                   (let foundProfile = foldl (\<lambda>acc p. if fst p = policyName v then snd p else acc) [] profiles
                    in case srv_DeleteProfile srv [foundProfile] s of
                         (Some err, s1) \<Rightarrow> (Some (Failure (''error deleting profile: '' @ err_msg err)), s1)
                       | (None, s1) \<Rightarrow> (None, s1))))))"

subsection \<open>The storage policy\<close>

text \<open>The loop over the failure domains: it goes on after an error and collects them.\<close>

fun tag_domains ::
  "'s PolicyServer \<Rightarrow> FailureDomainSpec list \<Rightarrow> storagePolicyAPI \<Rightarrow> 's
     \<Rightarrow> (go_error list \<times> storagePolicyAPI \<times> 's) outcome" where
  "tag_domains srv [] v s = Returned ([], v, s)"
| "tag_domains srv (fd # fds) v s =
     obind (attachTags srv (fd_Datacenter fd) (fd_Datastore fd) v s) (\<lambda>(err, v1, s1).
     obind (tag_domains srv fds v1 s1) (\<lambda>(errs, v2, s2).
       Returned ((case err of None \<Rightarrow> errs | Some e \<Rightarrow> e # errs), v2, s2)))"

definition create_if_missing ::
  "'s PolicyServer \<Rightarrow> storagePolicyAPI \<Rightarrow> 's
     \<Rightarrow> ((string \<times> go_error option) \<times> storagePolicyAPI \<times> 's) outcome" where
  "create_if_missing srv v s =
     (if policyCreated v then Returned ((policyName v, None), v, s)
      else obind (createStorageProfile srv v s) (\<lambda>(err, v1, s1).
        Returned (case err of
            None \<Rightarrow> ((policyName v, None), v1, s1)
          | Some e \<Rightarrow> ((policyName v, Some (Failure (''error create storage policy profile ''
                         @ policyName v @ '': '' @ err_msg e))), v1, s1))))"

definition createZonalStoragePolicy ::
  "'s PolicyServer \<Rightarrow> storagePolicyAPI \<Rightarrow> 's
     \<Rightarrow> ((string \<times> go_error option) \<times> storagePolicyAPI \<times> 's) outcome" where
  "createZonalStoragePolicy srv v s =
     obind (tag_domains srv (failureDomains v) v s) (\<lambda>(errs, v1, s1).
       case NewAggregate errs of
         Some e \<Rightarrow> Returned ((policyName v, Some e), v1, s1)
       | None \<Rightarrow> create_if_missing srv v1 s1)"

text \<open>An old cluster without failure domains: the workspace of the legacy configuration.\<close>

definition legacy_policy ::
  "'s PolicyServer \<Rightarrow> storagePolicyAPI \<Rightarrow> 's
     \<Rightarrow> ((string \<times> go_error option) \<times> storagePolicyAPI \<times> 's) outcome" where
  "legacy_policy srv v s =
     (case LegacyConfig (conn_Config (vcenterApiConnection v)) of
        None \<Rightarrow> Panicked nil_deref
      | Some lg \<Rightarrow>
          obind (attachTags srv (ws_Datacenter (lg_Workspace lg)) (ws_DefaultDatastore (lg_Workspace lg)) v s)
            (\<lambda>(err, v1, s1). case err of
               Some e \<Rightarrow> Returned ((policyName v, Some e), v1, s1)
             | None \<Rightarrow> create_if_missing srv v1 s1))"

definition createStoragePolicy ::
  "'s PolicyServer \<Rightarrow> storagePolicyAPI \<Rightarrow> 's
     \<Rightarrow> ((string \<times> go_error option) \<times> storagePolicyAPI \<times> 's) outcome" where
  "createStoragePolicy srv v s =
     obind (checkForExistingPolicy srv v s) (\<lambda>found_or_err. case found_or_err of
       Inl err \<Rightarrow> Returned ((policyName v,
                     Some (Failure (''error finding existing policy: '' @ err_msg err))), v, s)
     | Inr found \<Rightarrow>
         (let v0 = (if found then v\<lparr>policyCreated := True\<rparr> else v)
          in case Platform_VSphere (sp_infra v) of
               Some spec \<Rightarrow>
                 if FailureDomains spec \<noteq> [] then createZonalStoragePolicy srv v0 s
                 else legacy_policy srv v0 s
             | None \<Rightarrow> legacy_policy srv v0 s))"

subsection \<open>Associated types are normalised\<close>

definition with_prefix :: "string \<Rightarrow> string" where
  "with_prefix t = (if has_prefix t vim25Prefix then t else vim25Prefix @ t)"

lemma with_prefix_idem [simp]: "with_prefix (with_prefix t) = with_prefix t"
  by (simp add: with_prefix_def)

lemma set_appendPrefix: "set (appendPrefix ts) = with_prefix ` set ts"
  by (auto simp: appendPrefix_def with_prefix_def)

lemma set_updateAssociatedTypes:
  "set (updateAssociatedTypes ts) = with_prefix ` (set ts \<union> set associatedTypesRaw)"
  by (simp add: updateAssociatedTypes_def set_appendPrefix image_Un)

lemma sort_remdups_eq: "set xs = set ys \<Longrightarrow> sort (remdups xs) = sort (remdups ys)"
  for xs ys :: "'a :: linorder list"
  by (metis distinct_remdups distinct_sort set_remdups set_sort sorted_distinct_set_unique sorted_sort)

lemma updateAssociatedTypes_cong:
  "with_prefix ` (set ts \<union> set associatedTypesRaw) = with_prefix ` (set us \<union> set associatedTypesRaw) \<Longrightarrow>
     updateAssociatedTypes ts = updateAssociatedTypes us"
  unfolding updateAssociatedTypes_def by (rule sort_remdups_eq) (simp add: set_appendPrefix image_Un)

text \<open>
  The associated types of the tag category are brought to a normal form: prefixed, sorted,
  without repeats, the existing types and the five required ones and nothing else. The form does
  not depend on the order in which vCenter lists the types, and normalising again changes nothing.
\<close>
theorem updateAssociatedTypes_normal_form:
  "sorted (updateAssociatedTypes ts) \<and> distinct (updateAssociatedTypes ts)
   \<and> set (updateAssociatedTypes ts) = with_prefix ` (set ts \<union> set associatedTypesRaw)
   \<and> list_all (\<lambda>t. has_prefix t vim25Prefix) (updateAssociatedTypes ts)
   \<and> updateAssociatedTypes (rev ts) = updateAssociatedTypes ts
   \<and> updateAssociatedTypes (updateAssociatedTypes ts) = updateAssociatedTypes ts"
proof (intro conjI)
  show "sorted (updateAssociatedTypes ts)" "distinct (updateAssociatedTypes ts)"
    by (simp_all add: updateAssociatedTypes_def)
  show "set (updateAssociatedTypes ts) = with_prefix ` (set ts \<union> set associatedTypesRaw)"
    by (rule set_updateAssociatedTypes)
  show "list_all (\<lambda>t. has_prefix t vim25Prefix) (updateAssociatedTypes ts)"
    by (auto simp: list_all_iff set_updateAssociatedTypes with_prefix_def)
  show "updateAssociatedTypes (rev ts) = updateAssociatedTypes ts"
    by (rule updateAssociatedTypes_cong) simp
  show "updateAssociatedTypes (updateAssociatedTypes ts) = updateAssociatedTypes ts"
    by (rule updateAssociatedTypes_cong) (auto simp: set_updateAssociatedTypes image_Un image_image)
qed

subsection \<open>A settled vCenter is left alone\<close>

text \<open>The datastore exists and carries the tag.\<close>

definition has_tag :: "'s PolicyServer \<Rightarrow> 's \<Rightarrow> string \<Rightarrow> string \<Rightarrow> bool" where
  "has_tag srv s ref name \<longleftrightarrow>
     (\<exists>tss. srv_AttachedTags srv s ref = Inr tss \<and> (\<exists>ts \<in> set tss. \<exists>t \<in> set ts. tag_Name t = name))"

definition datastore_tagged ::
  "'s PolicyServer \<Rightarrow> 's \<Rightarrow> storagePolicyAPI \<Rightarrow> VClient \<Rightarrow> FailureDomainSpec \<Rightarrow> bool" where
  "datastore_tagged srv s v client fd \<longleftrightarrow>
     (\<exists>ds. lookup_datastore client (fd_Datacenter fd) (fd_Datastore fd) = Inr ds
        \<and> has_tag srv s (ds_Reference ds) (tagName v))"

definition connected :: "VSphereConnection \<Rightarrow> VClient \<Rightarrow> bool" where
  "connected conn client \<longleftrightarrow> Client conn = Some client \<and> RestClient conn"

lemma attachTags_tagged:
  assumes "connected (vcenterApiConnection v) client" and "policyCreated v"
    and "datastore_tagged srv s v client fd"
  shows "attachTags srv (fd_Datacenter fd) (fd_Datastore fd) v s = Returned (None, v, s)"
  using assms
  by (auto simp: attachTags_def getDatastore_def connected_def datastore_tagged_def has_tag_def
      checkForTagOnDatastore_def list_ex_iff)

lemma tag_domains_tagged:
  assumes "connected (vcenterApiConnection v) client" and "policyCreated v"
    and "\<forall>fd \<in> set fds. datastore_tagged srv s v client fd"
  shows "tag_domains srv fds v s = Returned ([], v, s)"
  using assms(3) by (induction fds) (simp_all add: attachTags_tagged [OF assms(1,2)])

lemma settled_policy_stays:
  assumes "connected (vcenterApiConnection v) client"
    and "checkForExistingPolicy srv v s = Returned (Inr True)"
    and "Platform_VSphere (sp_infra v) = Some spec" and "FailureDomains spec \<noteq> []"
    and "\<forall>fd \<in> set (failureDomains v). datastore_tagged srv s v client fd"
  shows "createStoragePolicy srv v s =
           Returned ((policyName v, None), v\<lparr>policyCreated := True\<rparr>, s)"
proof -
  let ?v = "v\<lparr>policyCreated := True\<rparr>"
  have "\<forall>fd \<in> set (failureDomains v). datastore_tagged srv s ?v client fd"
    using assms(5) by (simp add: datastore_tagged_def)
  then have "tag_domains srv (failureDomains v) ?v s = Returned ([], ?v, s)"
    using assms(1) by (intro tag_domains_tagged) simp_all
  then show ?thesis
    using assms(2-4)
    by (simp add: createStoragePolicy_def createZonalStoragePolicy_def create_if_missing_def
        NewAggregate_def)
qed

text \<open>
  Once the policy exists and the datastores of this vCenter's failure domains are tagged,
  syncing the policy again succeeds with the same name and makes no call that changes the vCenter.
\<close>
theorem createStoragePolicy_settled:
  assumes "connected (vcenterApiConnection v) client"
    and "checkForExistingPolicy srv v s = Returned (Inr True)"
    and "Platform_VSphere (sp_infra v) = Some spec" and "FailureDomains spec \<noteq> []"
    and "\<forall>fd \<in> set (failureDomains v). datastore_tagged srv s v client fd"
  shows "createStoragePolicy srv v s =
           Returned ((policyName v, None), v\<lparr>policyCreated := True\<rparr>, s)"
  by (rule settled_policy_stays [OF assms])

subsection \<open>A successful sync settles the vCenter\<close>

text \<open>
  What a vCenter holds: the name of the tag with an identifier (names are unique in a category
  only), the identifiers of the tags attached to an object, and the names of the storage policies.
\<close>

record 's VCenterView =
  vw_tag :: "'s \<Rightarrow> string \<Rightarrow> string option"
  vw_attached :: "'s \<Rightarrow> string \<Rightarrow> string set"
  vw_policies :: "'s \<Rightarrow> string set"

text \<open>Nothing is taken away from it.\<close>

definition grows :: "'s VCenterView \<Rightarrow> 's \<Rightarrow> 's \<Rightarrow> bool" where
  "grows vw s s' \<longleftrightarrow> (\<forall>i n. vw_tag vw s i = Some n \<longrightarrow> vw_tag vw s' i = Some n)
     \<and> (\<forall>ref. vw_attached vw s ref \<subseteq> vw_attached vw s' ref) \<and> vw_policies vw s \<subseteq> vw_policies vw s'"

lemma grows_refl [simp]: "grows vw s s"
  by (simp add: grows_def)

lemma grows_trans: "grows vw s t \<Longrightarrow> grows vw t u \<Longrightarrow> grows vw s u"
  unfolding grows_def by blast

text \<open>
  What the documentation of the tagging and the policy service promises of the calls the operator
  makes. A lookup by name, of a name that is no URN, finds some tag of that name, in whatever
  category. A created tag has the name it was created with; an update that keeps the name renames
  nothing; a tag that was attached without an error is attached. A query that answers lists the names
  of the tags of the object, or of the policies; any query may fail. A created profile is a policy.
  No call takes tags, attachments or policies away.
\<close>

definition service_laws :: "'s PolicyServer \<Rightarrow> 's VCenterView \<Rightarrow> bool" where
  "service_laws srv vw \<longleftrightarrow>
     (\<forall>s n t e. srv_GetTag srv s n = (Some t, e) \<longrightarrow> tag_ID t \<noteq> [] \<longrightarrow> \<not> has_prefix n ''urn:'' \<longrightarrow>
        vw_tag vw s (tag_ID t) = Some n)
     \<and> (\<forall>s c r s'. srv_CreateCategory srv c s = (r, s') \<longrightarrow> grows vw s s')
     \<and> (\<forall>s c e s'. srv_UpdateCategory srv c s = (e, s') \<longrightarrow> grows vw s s')
     \<and> (\<forall>s t r s'. srv_CreateTag srv t s = (r, s') \<longrightarrow> grows vw s s'
          \<and> (\<forall>i. r = Inr i \<longrightarrow> vw_tag vw s' i = Some (tag_Name t)))
     \<and> (\<forall>s t e s'. srv_UpdateTag srv t s = (e, s') \<longrightarrow> vw_tag vw s (tag_ID t) = Some (tag_Name t) \<longrightarrow>
          grows vw s s')
     \<and> (\<forall>s i ref e s'. srv_AttachTag srv i ref s = (e, s') \<longrightarrow> grows vw s s'
          \<and> (e = None \<longrightarrow> vw_tag vw s i \<noteq> None \<longrightarrow> i \<in> vw_attached vw s' ref))
     \<and> (\<forall>s ref tss n. srv_AttachedTags srv s ref = Inr tss \<longrightarrow>
          ((\<exists>ts \<in> set tss. \<exists>t \<in> set ts. tag_Name t = n) \<longleftrightarrow> (\<exists>i \<in> vw_attached vw s ref. vw_tag vw s i = Some n)))
     \<and> (\<forall>s ids ps. srv_QueryProfile srv s = Inr ids \<longrightarrow> srv_RetrieveContent srv s ids = Inr ps \<longrightarrow>
          fst ` set ps = vw_policies vw s)
     \<and> (\<forall>s p r s'. srv_CreateProfile srv p s = (r, s') \<longrightarrow> grows vw s s'
          \<and> (\<forall>i. r = Inr i \<longrightarrow> prof_Name p \<in> vw_policies vw s'))"

lemma service_law:
  assumes "service_laws srv vw"
  shows law_GetTag: "srv_GetTag srv s n = (Some t, e) \<Longrightarrow> tag_ID t \<noteq> [] \<Longrightarrow> \<not> has_prefix n ''urn:'' \<Longrightarrow>
      vw_tag vw s (tag_ID t) = Some n"
    and law_CreateCategory: "srv_CreateCategory srv c s = (r, s') \<Longrightarrow> grows vw s s'"
    and law_UpdateCategory: "srv_UpdateCategory srv c s = (e, s') \<Longrightarrow> grows vw s s'"
    and law_CreateTag: "srv_CreateTag srv t s = (r, s') \<Longrightarrow> grows vw s s'
      \<and> (\<forall>i. r = Inr i \<longrightarrow> vw_tag vw s' i = Some (tag_Name t))"
    and law_UpdateTag: "srv_UpdateTag srv t s = (e, s') \<Longrightarrow> vw_tag vw s (tag_ID t) = Some (tag_Name t) \<Longrightarrow> grows vw s s'"
    and law_AttachTag: "srv_AttachTag srv i ref s = (e, s') \<Longrightarrow> grows vw s s'
      \<and> (e = None \<longrightarrow> vw_tag vw s i \<noteq> None \<longrightarrow> i \<in> vw_attached vw s' ref)"
    and law_AttachedTags: "srv_AttachedTags srv s ref = Inr tss \<Longrightarrow>
      (\<exists>ts \<in> set tss. \<exists>t \<in> set ts. tag_Name t = n) \<longleftrightarrow> (\<exists>i \<in> vw_attached vw s ref. vw_tag vw s i = Some n)"
    and law_profiles: "srv_QueryProfile srv s = Inr ids \<Longrightarrow> srv_RetrieveContent srv s ids = Inr ps \<Longrightarrow>
      fst ` set ps = vw_policies vw s"
    and law_CreateProfile: "srv_CreateProfile srv p s = (r, s') \<Longrightarrow> grows vw s s'
      \<and> (\<forall>i. r = Inr i \<longrightarrow> prof_Name p \<in> vw_policies vw s')"
proof -
  note l = assms [unfolded service_laws_def]
  show "srv_GetTag srv s n = (Some t, e) \<Longrightarrow> tag_ID t \<noteq> [] \<Longrightarrow> \<not> has_prefix n ''urn:'' \<Longrightarrow>
      vw_tag vw s (tag_ID t) = Some n" using conjunct1 [OF l] by blast
  note l2 = conjunct2 [OF l]
  show "srv_CreateCategory srv c s = (r, s') \<Longrightarrow> grows vw s s'" using conjunct1 [OF l2] by blast
  note l3 = conjunct2 [OF l2]
  show "srv_UpdateCategory srv c s = (e, s') \<Longrightarrow> grows vw s s'" using conjunct1 [OF l3] by blast
  note l4 = conjunct2 [OF l3]
  show "srv_CreateTag srv t s = (r, s') \<Longrightarrow> grows vw s s'
      \<and> (\<forall>i. r = Inr i \<longrightarrow> vw_tag vw s' i = Some (tag_Name t))" using conjunct1 [OF l4] by blast
  note l5 = conjunct2 [OF l4]
  show "srv_UpdateTag srv t s = (e, s') \<Longrightarrow> vw_tag vw s (tag_ID t) = Some (tag_Name t) \<Longrightarrow> grows vw s s'"
    using conjunct1 [OF l5] by blast
  note l6 = conjunct2 [OF l5]
  show "srv_AttachTag srv i ref s = (e, s') \<Longrightarrow> grows vw s s'
      \<and> (e = None \<longrightarrow> vw_tag vw s i \<noteq> None \<longrightarrow> i \<in> vw_attached vw s' ref)" using conjunct1 [OF l6] by blast
  note l7 = conjunct2 [OF l6]
  show "srv_AttachedTags srv s ref = Inr tss \<Longrightarrow>
      (\<exists>ts \<in> set tss. \<exists>t \<in> set ts. tag_Name t = n) \<longleftrightarrow> (\<exists>i \<in> vw_attached vw s ref. vw_tag vw s i = Some n)"
    using conjunct1 [OF l7] by blast
  note l8 = conjunct2 [OF l7]
  show "srv_QueryProfile srv s = Inr ids \<Longrightarrow> srv_RetrieveContent srv s ids = Inr ps \<Longrightarrow>
      fst ` set ps = vw_policies vw s" using conjunct1 [OF l8] by blast
  show "srv_CreateProfile srv p s = (r, s') \<Longrightarrow> grows vw s s'
      \<and> (\<forall>i. r = Inr i \<longrightarrow> prof_Name p \<in> vw_policies vw s')" using conjunct2 [OF l8] by blast
qed

text \<open>The object carries a tag of that name; so does the datastore called \<open>ds\<close> of a datacenter.\<close>

definition carries :: "'s VCenterView \<Rightarrow> 's \<Rightarrow> string \<Rightarrow> string \<Rightarrow> bool" where
  "carries vw s ref n \<longleftrightarrow> (\<exists>i \<in> vw_attached vw s ref. vw_tag vw s i = Some n)"

definition target_tagged :: "'s VCenterView \<Rightarrow> 's \<Rightarrow> VClient \<Rightarrow> string \<Rightarrow> string \<times> string \<Rightarrow> bool" where
  "target_tagged vw s client n target \<longleftrightarrow>
     (\<exists>d. lookup_datastore client (fst target) (snd target) = Inr d \<and> carries vw s (ds_Reference d) n)"

lemma grows_carries: "grows vw s s' \<Longrightarrow> carries vw s ref n \<Longrightarrow> carries vw s' ref n"
  unfolding grows_def carries_def by blast

lemma grows_tagged: "grows vw s s' \<Longrightarrow> target_tagged vw s client n target \<Longrightarrow> target_tagged vw s' client n target"
  by (auto simp: target_tagged_def intro: grows_carries)

text \<open>What a part of the sync may do to the client object.\<close>

definition same_api :: "storagePolicyAPI \<Rightarrow> storagePolicyAPI \<Rightarrow> bool" where
  "same_api v v' \<longleftrightarrow> (\<exists>calls. v' = v\<lparr>apiTestInfo := calls\<rparr>)"

lemma same_api_refl [simp]: "same_api v v"
  by (auto simp: same_api_def intro: exI [of _ "apiTestInfo v"])

lemma same_api_call [simp]: "same_api v (call a v)"
  by (auto simp: same_api_def call_def)

lemma same_api_trans: "same_api u v \<Longrightarrow> same_api v w \<Longrightarrow> same_api u w"
  by (auto simp: same_api_def)

lemma same_api_fields:
  "same_api v v' \<Longrightarrow> tagName v' = tagName v \<and> policyName v' = policyName v
     \<and> policyCreated v' = policyCreated v \<and> failureDomains v' = failureDomains v
     \<and> vcenterApiConnection v' = vcenterApiConnection v \<and> sp_infra v' = sp_infra v"
  by (auto simp: same_api_def)

lemma ensure_category_steps:
  assumes "ensure_category srv v s = (r, v', s')" and "service_laws srv vw"
  shows "same_api v v' \<and> grows vw s s'"
proof -
  have "s' = s \<or> (\<exists>c r. srv_CreateCategory srv c s = (r, s')) \<or> (\<exists>c e. srv_UpdateCategory srv c s = (e, s'))"
    using assms(1)
    by (auto simp: ensure_category_def Let_def split: prod.splits option.splits sum.splits if_splits)
  then have "grows vw s s'"
    by (elim disjE exE) (auto dest: law_CreateCategory [OF assms(2)] law_UpdateCategory [OF assms(2)])
  moreover have "same_api v v'"
    using assms(1)
    by (auto simp: ensure_category_def Let_def split: prod.splits option.splits sum.splits if_splits)
  ultimately show ?thesis by simp
qed

lemma ensure_tag_cases:
  assumes "ensure_tag srv c v s = (r, v', s')"
  obtains (failed) "\<forall>i. r \<noteq> Inr i" "v' = v" "s' = s"
  | (created) r' where "srv_CreateTag srv (new_tag (tagName v) c []) s = (r', s')"
      "\<And>i. r = Inr i \<Longrightarrow> r' = Inr i" "same_api v v'"
  | (updated) t err e where "srv_GetTag srv s (tagName v) = (Some t, err)" "tag_ID t \<noteq> []"
      "srv_UpdateTag srv (new_tag (tagName v) c (tag_ID t)) s = (e, s')"
      "\<And>i. r = Inr i \<Longrightarrow> e = None \<and> i = tag_ID t" "same_api v v'"
  | (kept) t err where "srv_GetTag srv s (tagName v) = (Some t, err)" "tag_ID t \<noteq> []" "r = Inr (tag_ID t)"
      "s' = s" "v' = v"
proof -
  have create: thesis if "(case srv_CreateTag srv (new_tag (tagName v) c []) s of
      (Inl err, s1) \<Rightarrow> (Inl (Failure (''error creating tag '' @ tagName v @ '': '' @ err_msg err)),
                        call ''create_tag'' v, s1)
    | (Inr tagID, s1) \<Rightarrow> (Inr tagID, call ''create_tag'' v, s1)) = (r, v', s')"
  proof -
    obtain r' t' where "srv_CreateTag srv (new_tag (tagName v) c []) s = (r', t')" by fastforce
    with that show thesis by (intro created [of r']) (auto split: sum.splits)
  qed
  have found: thesis if "srv_GetTag srv s (tagName v) = (Some t, err)" "tag_ID t \<noteq> []"
    "(if tag_CategoryID t \<noteq> c then
        (case srv_UpdateTag srv (new_tag (tagName v) c (tag_ID t)) s of
           (Some err, s1) \<Rightarrow> (Inl (Failure (''error updating tag '' @ tagName v @ '': '' @ err_msg err)),
                             call ''update_tag'' v, s1)
         | (None, s1) \<Rightarrow> (Inr (tag_ID t), call ''update_tag'' v, s1))
      else (Inr (tag_ID t), v, s)) = (r, v', s')" for t err
  proof (cases "tag_CategoryID t = c")
    case True
    with that show thesis by (intro kept [of t err]) auto
  next
    case False
    obtain e t' where "srv_UpdateTag srv (new_tag (tagName v) c (tag_ID t)) s = (e, t')" by fastforce
    with that False show thesis by (intro updated [of t err e]) (auto split: option.splits)
  qed
  obtain tag err where get: "srv_GetTag srv s (tagName v) = (tag, err)" by fastforce
  show thesis
  proof (cases "\<exists>e. err = Some e \<and> \<not> notFoundError e")
    case True
    with assms get show thesis by (intro failed) (auto simp: ensure_tag_def Let_def)
  next
    case False
    then have "(case tag of None \<Rightarrow> True | Some t \<Rightarrow> tag_ID t = []) \<or> (\<exists>t. tag = Some t \<and> tag_ID t \<noteq> [])"
      by (cases tag) auto
    then show thesis
    proof
      assume "case tag of None \<Rightarrow> True | Some t \<Rightarrow> tag_ID t = []"
      with False assms get show thesis
        by (intro create) (cases err; cases tag; simp add: ensure_tag_def Let_def)
    next
      assume "\<exists>t. tag = Some t \<and> tag_ID t \<noteq> []"
      then obtain t where "tag = Some t" "tag_ID t \<noteq> []" by blast
      with False assms get show thesis
        by (intro found [of t err]) (cases err; simp add: ensure_tag_def Let_def)+
    qed
  qed
qed

lemma ensure_tag_steps:
  assumes "ensure_tag srv c v s = (r, v', s')" and "service_laws srv vw"
    and "\<not> has_prefix (tagName v) ''urn:''"
  shows "same_api v v' \<and> grows vw s s' \<and> (\<forall>i. r = Inr i \<longrightarrow> vw_tag vw s' i = Some (tagName v))"
  using assms(1)
proof (cases rule: ensure_tag_cases)
  case (created r')
  with law_CreateTag [OF assms(2) created(1)] show ?thesis by auto
next
  case (updated t err e)
  have n: "vw_tag vw s (tag_ID t) = Some (tagName v)"
    by (rule law_GetTag [OF assms(2) updated(1,2) assms(3)])
  then have g: "grows vw s s'" by (intro law_UpdateTag [OF assms(2) updated(3)]) simp
  with n updated(4,5) show ?thesis by (auto simp: grows_def)
next
  case (kept t err)
  with law_GetTag [OF assms(2) kept(1,2) assms(3)] show ?thesis by simp
qed auto

lemma createOrUpdateTag_tags:
  assumes "createOrUpdateTag srv ds v s = Returned (err, v', s')" and "service_laws srv vw"
    and "\<not> has_prefix (tagName v) ''urn:''"
  shows "same_api v v' \<and> grows vw s s' \<and> (err = None \<longrightarrow> carries vw s' (ds_Reference ds) (tagName v))"
proof -
  obtain r1 v1 s1 where c: "ensure_category srv v s = (r1, v1, s1)" by (metis surj_pair)
  note c' = ensure_category_steps [OF c assms(2)]
  show ?thesis
  proof (cases r1)
    case (Inl e)
    with assms(1) c c' show ?thesis by (auto simp: createOrUpdateTag_def split: if_splits)
  next
    case (Inr catId)
    obtain r2 v2 s2 where t: "ensure_tag srv catId v1 s1 = (r2, v2, s2)" by (metis surj_pair)
    have n: "tagName v1 = tagName v" using c' same_api_fields by blast
    note t' = ensure_tag_steps [OF t assms(2), unfolded n, OF assms(3)]
    have both: "same_api v v2" "grows vw s s2"
      by (rule same_api_trans [OF conjunct1 [OF c'] conjunct1 [OF t']],
          rule grows_trans [OF conjunct2 [OF c'] conjunct1 [OF conjunct2 [OF t']]])
    show ?thesis
    proof (cases r2)
      case (Inl e)
      with assms(1) c t \<open>r1 = Inr catId\<close> both show ?thesis
        by (auto simp: createOrUpdateTag_def split: if_splits)
    next
      case (Inr i)
      obtain e3 s3 where a: "srv_AttachTag srv i (ds_Reference ds) s2 = (e3, s3)" by fastforce
      note a' = law_AttachTag [OF assms(2) a]
      have nm: "vw_tag vw s2 i = Some (tagName v)" "vw_tag vw s3 i = Some (tagName v)"
        using t' Inr a' by (auto simp: grows_def)
      have res: "err = e3" "v' = call ''attach_tag'' v2" "s' = s3"
        using assms(1) c t a Inr \<open>r1 = Inr catId\<close> by (auto simp: createOrUpdateTag_def split: if_splits)
      have "carries vw s3 (ds_Reference ds) (tagName v)" if "e3 = None"
        using a' nm that by (auto simp: carries_def)
      with res same_api_trans [OF both(1) same_api_call] grows_trans [OF both(2) conjunct1 [OF a']]
      show ?thesis by simp
    qed
  qed
qed

lemma attachTags_tags:
  assumes "attachTags srv dc ds v s = Returned (err, v', s')" and "service_laws srv vw"
    and "\<not> has_prefix (tagName v) ''urn:''" and "Client (vcenterApiConnection v) = Some client"
  shows "same_api v v' \<and> grows vw s s' \<and> (err = None \<longrightarrow> target_tagged vw s' client (tagName v) (dc, ds))"
proof (cases "lookup_datastore client dc ds")
  case (Inl e)
  with assms show ?thesis by (auto simp: attachTags_def getDatastore_def)
next
  case (Inr d)
  have get: "getDatastore v dc ds = Returned (Inr d)"
    using assms(4) Inr by (simp add: getDatastore_def)
  from assms(1) obtain tagged where tg:
    "(if policyCreated v then checkForTagOnDatastore srv d v s else Returned False) = Returned tagged"
    by (auto simp: attachTags_def get elim!: obind_ReturnedE)
  show ?thesis
  proof (cases tagged)
    case True
    then obtain tss where "srv_AttachedTags srv s (ds_Reference d) = Inr tss"
      "\<exists>ts \<in> set tss. \<exists>t \<in> set ts. tag_Name t = tagName v"
      using tg by (auto simp: checkForTagOnDatastore_def list_ex_iff split: if_splits sum.splits)
    then have "carries vw s (ds_Reference d) (tagName v)"
      using law_AttachedTags [OF assms(2)] unfolding carries_def by blast
    with assms(1) get tg True Inr show ?thesis by (auto simp: attachTags_def target_tagged_def)
  next
    case False
    with assms(1) get tg obtain err1 where c: "createOrUpdateTag srv d v s = Returned (err1, v', s')"
      "err = None \<longleftrightarrow> err1 = None"
      by (auto simp: attachTags_def elim!: obind_ReturnedE split: option.splits)
    from createOrUpdateTag_tags [OF c(1) assms(2,3)] c(2) Inr show ?thesis
      by (auto simp: target_tagged_def)
  qed
qed

abbreviation domain_target :: "FailureDomainSpec \<Rightarrow> string \<times> string" where
  "domain_target fd \<equiv> (fd_Datacenter fd, fd_Datastore fd)"

lemma tag_domains_tags:
  assumes "service_laws srv vw"
  shows "tag_domains srv fds v s = Returned (errs, v', s') \<Longrightarrow> \<not> has_prefix (tagName v) ''urn:'' \<Longrightarrow>
    Client (vcenterApiConnection v) = Some client \<Longrightarrow>
    same_api v v' \<and> grows vw s s'
    \<and> (errs = [] \<longrightarrow> (\<forall>fd \<in> set fds. target_tagged vw s' client (tagName v) (domain_target fd)))"
proof (induction fds arbitrary: v s errs)
  case (Cons fd fds)
  from Cons.prems(1) obtain err v1 s1 errs1 where
    a: "attachTags srv (fd_Datacenter fd) (fd_Datastore fd) v s = Returned (err, v1, s1)" and
    b: "tag_domains srv fds v1 s1 = Returned (errs1, v', s')" and
    e: "errs = [] \<longleftrightarrow> err = None \<and> errs1 = []"
    by (auto elim!: obind_ReturnedE split: option.splits)
  note a' = attachTags_tags [OF a assms Cons.prems(2,3)]
  then have f: "tagName v1 = tagName v" "vcenterApiConnection v1 = vcenterApiConnection v"
    using same_api_fields by blast+
  have b': "same_api v1 v' \<and> grows vw s1 s'
      \<and> (errs1 = [] \<longrightarrow> (\<forall>fd \<in> set fds. target_tagged vw s' client (tagName v) (domain_target fd)))"
    using Cons.IH [OF b] Cons.prems(2,3) f by simp
  have "target_tagged vw s' client (tagName v) (domain_target fd)" if "err = None"
  proof -
    from a' that have "target_tagged vw s1 client (tagName v) (domain_target fd)" by blast
    with b' show ?thesis by (blast intro: grows_tagged)
  qed
  then show ?case using a' b' e same_api_trans grows_trans by (metis set_ConsD)
qed simp

lemma create_if_missing_settles:
  assumes "create_if_missing srv v s = Returned ((n, None), v', s')" and "service_laws srv vw"
    and "Client (vcenterApiConnection v) = Some client"
    and "policyCreated v \<Longrightarrow> policyName v \<in> vw_policies vw s"
  shows "n = policyName v \<and> policyName v \<in> vw_policies vw s' \<and> grows vw s s'"
proof (cases "policyCreated v")
  case True
  with assms show ?thesis by (auto simp: create_if_missing_def)
next
  case False
  obtain r s1 where c: "srv_CreateProfile srv (profile_spec v) s = (r, s1)" by fastforce
  have "(\<exists>i. r = Inr i) \<and> s1 = s' \<and> n = policyName v"
    using assms(1,3) False c
    by (auto simp: create_if_missing_def createStorageProfile_def with_pbm_def split: sum.splits)
  then show ?thesis using law_CreateProfile [OF assms(2) c] by (auto simp: profile_spec_def)
qed

text \<open>
  The datastores a sync over one connection has to tag: those of the failure domains of its vCenter,
  or the default datastore of the old configuration when the cluster has no failure domains.
\<close>

definition policy_datastores :: "VSphereConnection \<Rightarrow> Infrastructure \<Rightarrow> (string \<times> string) list" where
  "policy_datastores connection infra =
     (case Platform_VSphere infra of
        Some spec \<Rightarrow>
          if FailureDomains spec \<noteq> []
          then map domain_target (filter (\<lambda>fd. fd_Server fd = Hostname connection) (FailureDomains spec))
          else (case LegacyConfig (conn_Config connection) of
                  None \<Rightarrow> []
                | Some lg \<Rightarrow> [(ws_Datacenter (lg_Workspace lg), ws_DefaultDatastore (lg_Workspace lg))])
      | None \<Rightarrow> [])"

lemma new_policy_fields:
  assumes "NewStoragePolicyAPI connection infra = Returned v"
  shows "vcenterApiConnection v = connection" "sp_infra v = infra" "\<not> policyCreated v"
    "policyName v = ''openshift-storage-policy-'' @ InfrastructureName infra" "tagName v = InfrastructureName infra"
    "\<exists>spec. Platform_VSphere infra = Some spec
       \<and> failureDomains v = filter (\<lambda>fd. fd_Server fd = Hostname connection) (FailureDomains spec)"
  using assms by (auto simp: NewStoragePolicyAPI_def split: option.splits)

lemma successful_policy:
  assumes "service_laws srv vw" and "\<not> has_prefix (InfrastructureName infra) ''urn:''"
    and "NewStoragePolicyAPI connection infra = Returned v" and "Client connection = Some client"
    and "createStoragePolicy srv v s = Returned ((n, None), v', s')"
  shows "n = policyName v \<and> n \<in> vw_policies vw s'
     \<and> (\<forall>target \<in> set (policy_datastores connection infra). target_tagged vw s' client (tagName v) target)"
proof -
  note v = new_policy_fields [OF assms(3)]
  obtain spec where spec: "Platform_VSphere infra = Some spec"
    "failureDomains v = filter (\<lambda>fd. fd_Server fd = Hostname connection) (FailureDomains spec)" using v(6) by blast
  from assms(5) obtain found where found: "checkForExistingPolicy srv v s = Returned (Inr found)"
    by (auto simp: createStoragePolicy_def elim!: obind_ReturnedE split: sum.splits)
  let ?v0 = "if found then v\<lparr>policyCreated := True\<rparr> else v"
  have v0: "tagName ?v0 = tagName v" "policyName ?v0 = policyName v" "failureDomains ?v0 = failureDomains v"
    "vcenterApiConnection ?v0 = connection" "policyCreated ?v0 = found"
    using v by auto
  have urn: "\<not> has_prefix (tagName ?v0) ''urn:''" and cl: "Client (vcenterApiConnection ?v0) = Some client"
    using assms(2,4) v0 v(5) by simp_all
  have known: "policyName v \<in> vw_policies vw s" if f: found
  proof -
    obtain ids ps where q: "srv_QueryProfile srv s = Inr ids" "srv_RetrieveContent srv s ids = Inr ps"
      "\<exists>p \<in> set ps. fst p = policyName v"
      using found f assms(4) v(1)
      by (auto simp: checkForExistingPolicy_def with_pbm_def list_ex_iff split: sum.splits)
    then have "policyName v \<in> fst ` set ps" by force
    with law_profiles [OF assms(1) q(1,2)] show ?thesis by simp
  qed
  have tagged: "\<exists>v1 s1. same_api ?v0 v1 \<and> grows vw s s1
      \<and> (\<forall>target \<in> set (policy_datastores connection infra). target_tagged vw s1 client (tagName v) target)
      \<and> create_if_missing srv v1 s1 = Returned ((n, None), v', s')"
  proof (cases "FailureDomains spec = []")
    case False
    then have "createZonalStoragePolicy srv ?v0 s = Returned ((n, None), v', s')"
      using assms(5) found spec v(2) by (simp add: createStoragePolicy_def)
    then obtain v1 s1 where t: "tag_domains srv (failureDomains v) ?v0 s = Returned ([], v1, s1)"
      and c: "create_if_missing srv v1 s1 = Returned ((n, None), v', s')"
      by (auto simp: createZonalStoragePolicy_def elim!: obind_ReturnedE split: option.splits if_splits)
    from tag_domains_tags [OF assms(1) t urn cl] c spec False v0(1) show ?thesis
      by (auto simp: policy_datastores_def)
  next
    case True
    then have "legacy_policy srv ?v0 s = Returned ((n, None), v', s')"
      using assms(5) found spec v(2) by (simp add: createStoragePolicy_def)
    then obtain lg v1 s1 where lg: "LegacyConfig (conn_Config connection) = Some lg"
      and t: "attachTags srv (ws_Datacenter (lg_Workspace lg)) (ws_DefaultDatastore (lg_Workspace lg)) ?v0 s =
          Returned (None, v1, s1)"
      and c: "create_if_missing srv v1 s1 = Returned ((n, None), v', s')"
      using v0(4) by (auto simp: legacy_policy_def elim!: obind_ReturnedE split: option.splits)
    from attachTags_tags [OF t assms(1) urn cl] c spec True lg v0(1) show ?thesis
      by (auto simp: policy_datastores_def)
  qed
  then obtain v1 s1 where 1: "same_api ?v0 v1" "grows vw s s1"
    "\<forall>target \<in> set (policy_datastores connection infra). target_tagged vw s1 client (tagName v) target"
    "create_if_missing srv v1 s1 = Returned ((n, None), v', s')" by blast
  note f = same_api_fields [OF 1(1)]
  have "Client (vcenterApiConnection v1) = Some client" using f v0(4) assms(4) by simp
  moreover have "policyCreated v1 \<Longrightarrow> policyName v1 \<in> vw_policies vw s1"
    using f v0(2,5) known 1(2) unfolding grows_def by auto
  ultimately have "n = policyName v1 \<and> policyName v1 \<in> vw_policies vw s' \<and> grows vw s1 s'"
    by (rule create_if_missing_settles [OF 1(4) assms(1)])
  with 1(3) f v0(2) grows_tagged show ?thesis by metis
qed

text \<open>All queries a sync makes are answered.\<close>

definition queries_answer :: "'s PolicyServer \<Rightarrow> 's \<Rightarrow> bool" where
  "queries_answer srv s \<longleftrightarrow> srv_NewPbmClient srv s = Inr ()
     \<and> (\<exists>ids ps. srv_QueryProfile srv s = Inr ids \<and> srv_RetrieveContent srv s ids = Inr ps)
     \<and> (\<forall>ref. \<exists>tss. srv_AttachedTags srv s ref = Inr tss)"

lemma attachTags_settled:
  assumes "service_laws srv vw" and "queries_answer srv s" and "connected (vcenterApiConnection v) client"
    and "policyCreated v" and "target_tagged vw s client (tagName v) (dc, ds)"
  shows "attachTags srv dc ds v s = Returned (None, v, s)"
proof -
  obtain d where d: "lookup_datastore client dc ds = Inr d" "carries vw s (ds_Reference d) (tagName v)"
    using assms(5) by (auto simp: target_tagged_def)
  obtain tss where tss: "srv_AttachedTags srv s (ds_Reference d) = Inr tss"
    using assms(2) by (auto simp: queries_answer_def)
  then have "\<exists>ts \<in> set tss. \<exists>t \<in> set ts. tag_Name t = tagName v"
    using law_AttachedTags [OF assms(1)] d(2) unfolding carries_def by blast
  with d(1) tss assms(3,4) show ?thesis
    by (auto simp: attachTags_def getDatastore_def connected_def checkForTagOnDatastore_def list_ex_iff)
qed

lemma settled_policy:
  assumes "service_laws srv vw" and "queries_answer srv s" and "connected connection client"
    and "NewStoragePolicyAPI connection infra = Returned v" and "policyName v \<in> vw_policies vw s"
    and "\<forall>target \<in> set (policy_datastores connection infra). target_tagged vw s client (tagName v) target"
    and "\<forall>spec. Platform_VSphere infra = Some spec \<longrightarrow> FailureDomains spec = [] \<longrightarrow>
           LegacyConfig (conn_Config connection) \<noteq> None"
  shows "createStoragePolicy srv v s = Returned ((policyName v, None), v\<lparr>policyCreated := True\<rparr>, s)"
proof -
  let ?v = "v\<lparr>policyCreated := True\<rparr>"
  note v = new_policy_fields [OF assms(4)]
  obtain spec where spec: "Platform_VSphere infra = Some spec"
    "failureDomains v = filter (\<lambda>fd. fd_Server fd = Hostname connection) (FailureDomains spec)" using v(6) by blast
  obtain ids ps where q: "srv_NewPbmClient srv s = Inr ()" "srv_QueryProfile srv s = Inr ids"
    "srv_RetrieveContent srv s ids = Inr ps" using assms(2) by (auto simp: queries_answer_def)
  have "policyName v \<in> fst ` set ps" using law_profiles [OF assms(1) q(2,3)] assms(5) by simp
  then have "\<exists>p \<in> set ps. fst p = policyName v" by force
  then have found: "checkForExistingPolicy srv v s = Returned (Inr True)"
    using q assms(3) v(1) by (simp add: checkForExistingPolicy_def with_pbm_def connected_def list_ex_iff)
  have attach: "attachTags srv dc ds ?v s = Returned (None, ?v, s)"
    if "(dc, ds) \<in> set (policy_datastores connection infra)" for dc ds
    using attachTags_settled [OF assms(1,2), of ?v client dc ds] assms(3,6) v(1) that by simp
  show ?thesis
  proof (cases "FailureDomains spec = []")
    case False
    have "tag_domains srv fds ?v s = Returned ([], ?v, s)"
      if "\<forall>fd \<in> set fds. domain_target fd \<in> set (policy_datastores connection infra)" for fds
      using that by (induction fds) (simp_all add: attach)
    then have "tag_domains srv (failureDomains v) ?v s = Returned ([], ?v, s)"
      using spec False by (simp add: policy_datastores_def)
    with found spec False v(2) show ?thesis
      by (simp add: createStoragePolicy_def createZonalStoragePolicy_def create_if_missing_def NewAggregate_def)
  next
    case True
    obtain lg where lg: "LegacyConfig (conn_Config connection) = Some lg"
      using assms(7) spec(1) True by (cases "LegacyConfig (conn_Config connection)") auto
    have "attachTags srv (ws_Datacenter (lg_Workspace lg)) (ws_DefaultDatastore (lg_Workspace lg)) ?v s = Returned (None, ?v, s)"
      by (rule attach) (simp add: policy_datastores_def spec True lg)
    with found spec True v(1,2) lg show ?thesis
      by (simp add: createStoragePolicy_def legacy_policy_def create_if_missing_def)
  qed
qed

text \<open>
  C36: a storage policy sync that reports success leaves the vCenter settled. Over a logged in
  connection, from the object the code makes for it, and whatever the vCenter held before, other tags
  of the same name in other categories included, the policy named after the cluster then
  exists, and each datastore to tag carries a tag of the cluster's name: those of the failure domains
  of this vCenter, or the default datastore of the old configuration when the cluster has none. If the vCenter
  answers its queries, the next sync succeeds with the same name and changes nothing. It is only
  assumed that the services do what their documentation says and that the cluster's name is no URN.
\<close>
theorem createStoragePolicy_establishes:
  assumes "service_laws srv vw" and "\<not> has_prefix (InfrastructureName infra) ''urn:''"
    and "connected connection client" and "NewStoragePolicyAPI connection infra = Returned v"
    and "createStoragePolicy srv v s = Returned ((n, None), v', s')"
  shows "n = ''openshift-storage-policy-'' @ InfrastructureName infra \<and> n \<in> vw_policies vw s'
    \<and> (\<forall>target \<in> set (policy_datastores connection infra). \<exists>d.
         lookup_datastore client (fst target) (snd target) = Inr d
         \<and> (\<exists>i \<in> vw_attached vw s' (ds_Reference d). vw_tag vw s' i = Some (InfrastructureName infra)))
    \<and> (queries_answer srv s' \<longrightarrow>
         createStoragePolicy srv v s' = Returned ((n, None), v\<lparr>policyCreated := True\<rparr>, s'))"
proof -
  note v = new_policy_fields [OF assms(4)]
  have cl: "Client connection = Some client" using assms(3) by (simp add: connected_def)
  note after = successful_policy [OF assms(1,2,4) cl assms(5)]
  have "LegacyConfig (conn_Config connection) \<noteq> None"
    if "Platform_VSphere infra = Some spec" "FailureDomains spec = []" for spec
    using assms(5) v(1,2) that
    by (auto simp: createStoragePolicy_def legacy_policy_def Let_def elim!: obind_ReturnedE
        split: sum.splits option.splits if_splits)
  with settled_policy [OF assms(1) _ assms(3,4)] after v(4,5) show ?thesis
    unfolding target_tagged_def carries_def by metis
qed

subsection \<open>Witnesses: services that keep their promises\<close>

text \<open>
  A server that stores the tag of each datastore and the created profiles; it accepts every call,
  identifies a tag by its name and answers queries by name with a tag of that identifier.
\<close>

type_synonym list_server = "(string \<times> string) list \<times> string list" \<comment> \<open>attachments, profiles\<close>

definition tag_of :: "string \<Rightarrow> Tag" where
  "tag_of n = \<lparr>tag_ID = CHR ''t'' # n, tag_Name = n, tag_Description = [], tag_CategoryID = ''cat''\<rparr>"

definition list_services :: "list_server PolicyServer" where
  "list_services =
     \<lparr>srv_GetCategory = (\<lambda>s n. (None, Some (Failure ''404 Not Found''))),
      srv_CreateCategory = (\<lambda>c s. (Inr ''cat'', s)),
      srv_UpdateCategory = (\<lambda>c s. (None, s)),
      srv_GetTag = (\<lambda>s n. (Some (tag_of n), None)),
      srv_CreateTag = (\<lambda>t s. (Inr (CHR ''t'' # tag_Name t), s)),
      srv_UpdateTag = (\<lambda>t s. (if tag_ID t = CHR ''t'' # tag_Name t then None else Some (Failure ''404''), s)),
      srv_AttachTag = (\<lambda>i ref s. (None, ((ref, drop 1 i) # fst s, snd s))),
      srv_AttachedTags = (\<lambda>s ref. Inr [map (\<lambda>(r, n). tag_of n) (filter (\<lambda>(r, n). r = ref) (fst s))]),
      srv_NewPbmClient = (\<lambda>s. Inr ()),
      srv_QueryProfile = (\<lambda>s. Inr (snd s)),
      srv_RetrieveContent = (\<lambda>s ids. Inr (map (\<lambda>i. (i, i)) ids)),
      srv_CreateProfile = (\<lambda>p s. (Inr (prof_Name p), (fst s, prof_Name p # snd s))),
      srv_DeleteProfile = (\<lambda>ids s. (None, (fst s, filter (\<lambda>i. i \<notin> set ids) (snd s))))\<rparr>"

lemma list_services_has_tag: "has_tag list_services s ref n \<longleftrightarrow> (ref, n) \<in> set (fst s)"
  by (force simp: has_tag_def list_services_def tag_of_def)

definition list_view :: "list_server VCenterView" where
  "list_view =
     \<lparr>vw_tag = (\<lambda>s i. case i of c # n \<Rightarrow> if c = CHR ''t'' then Some n else None | [] \<Rightarrow> None),
      vw_attached = (\<lambda>s ref. {CHR ''t'' # n | n. (ref, n) \<in> set (fst s)}),
      vw_policies = (\<lambda>s. set (snd s))\<rparr>"

lemma list_grows:
  "set (fst s) \<subseteq> set (fst s') \<Longrightarrow> set (snd s) \<subseteq> set (snd s') \<Longrightarrow> grows list_view s s'"
  by (auto simp: grows_def list_view_def)

lemma list_view_tag: "vw_tag list_view s i = Some n \<longleftrightarrow> i = CHR ''t'' # n"
  by (auto simp: list_view_def split: list.split)

lemma list_view_carries:
  "(\<exists>i \<in> vw_attached list_view s ref. vw_tag list_view s i = Some n) \<longleftrightarrow> (ref, n) \<in> set (fst s)"
  by (auto simp: list_view_tag) (auto simp: list_view_def)

lemma list_services_laws: "service_laws list_services list_view"
  unfolding service_laws_def list_view_carries
proof (intro conjI)
  show "\<forall>s n t e. srv_GetTag list_services s n = (Some t, e) \<longrightarrow> tag_ID t \<noteq> [] \<longrightarrow> \<not> has_prefix n ''urn:'' \<longrightarrow>
      vw_tag list_view s (tag_ID t) = Some n"
    by (auto simp: list_services_def tag_of_def list_view_tag)
  show "\<forall>s i ref e s'. srv_AttachTag list_services i ref s = (e, s') \<longrightarrow> grows list_view s s'
      \<and> (e = None \<longrightarrow> vw_tag list_view s i \<noteq> None \<longrightarrow> i \<in> vw_attached list_view s' ref)"
    by (auto simp: list_services_def list_view_tag intro!: list_grows) (simp add: list_view_def)
  show "\<forall>s ref tss n. srv_AttachedTags list_services s ref = Inr tss \<longrightarrow>
      ((\<exists>ts \<in> set tss. \<exists>t \<in> set ts. tag_Name t = n) \<longleftrightarrow> (ref, n) \<in> set (fst s))"
    by (force simp: list_services_def tag_of_def)
  show "\<forall>s ids ps. srv_QueryProfile list_services s = Inr ids \<longrightarrow> srv_RetrieveContent list_services s ids = Inr ps \<longrightarrow>
      fst ` set ps = vw_policies list_view s"
    by (auto simp: list_services_def list_view_def image_iff)
  show "\<forall>s p r s'. srv_CreateProfile list_services p s = (r, s') \<longrightarrow> grows list_view s s'
      \<and> (\<forall>i. r = Inr i \<longrightarrow> prof_Name p \<in> vw_policies list_view s')"
    by (auto simp: list_services_def intro!: list_grows) (simp add: list_view_def)
qed (auto simp: list_services_def list_view_tag intro: list_grows)

definition one_domain :: VSpherePlatformSpec where
  "one_domain = \<lparr>VCenters = [\<lparr>vc_Server = ''vc1'', vc_Datacenters = [''dc1'']\<rparr>],
     FailureDomains = [\<lparr>fd_Name = ''fd'', fd_Region = ''r'', fd_Zone = ''z'', fd_Server = ''vc1'',
       fd_Datacenter = ''dc1'', fd_Folder = [], fd_ResourcePool = [], fd_Datastore = ''ds''\<rparr>]\<rparr>"

definition example_policy_api :: storagePolicyAPI where
  "example_policy_api =
     \<lparr>vcenterApiConnection = example_connection,
      sp_infra = example_infra\<lparr>Platform_VSphere := Some one_domain\<rparr>,
      failureDomains = FailureDomains one_domain, policyName = ''openshift-storage-policy-cluster1'',
      tagName = ''cluster1'', categoryName = ''openshift-cluster1'', policyCreated = False,
      apiTestInfo = []\<rparr>"

lemma example_policy_run:
  "createStoragePolicy list_services example_policy_api ([], []) =
     Returned ((''openshift-storage-policy-cluster1'', None),
       example_policy_api\<lparr>apiTestInfo := [''create_category'', ''attach_tag'', ''create_profile'']\<rparr>,
       ([(''ref-ds'', ''cluster1'')], [''openshift-storage-policy-cluster1'']))"
  by (simp add: createStoragePolicy_def checkForExistingPolicy_def with_pbm_def example_policy_api_def
      example_connection_def example_client_def list_services_def one_domain_def
      createZonalStoragePolicy_def attachTags_def getDatastore_def lookup_datastore_def
      createOrUpdateTag_def ensure_category_def ensure_tag_def tag_of_def notFoundError_def
      has_prefix_def create_if_missing_def createStorageProfile_def profile_spec_def call_def
      NewAggregate_def Let_def)

theorem createStoragePolicy_establishes_witness:
  "createStoragePolicy list_services example_policy_api
      ([(''ref-ds'', ''cluster1'')], [''openshift-storage-policy-cluster1'']) =
     Returned ((''openshift-storage-policy-cluster1'', None), example_policy_api\<lparr>policyCreated := True\<rparr>,
       ([(''ref-ds'', ''cluster1'')], [''openshift-storage-policy-cluster1'']))"
proof -
  let ?infra = "example_infra\<lparr>Platform_VSphere := Some one_domain\<rparr>"
  have "connected example_connection example_client" "\<not> has_prefix (InfrastructureName ?infra) ''urn:''"
    "NewStoragePolicyAPI example_connection ?infra = Returned example_policy_api"
    by (simp_all add: connected_def example_policy_api_def example_connection_def one_domain_def
        NewStoragePolicyAPI_def example_infra_def has_prefix_def)
  note established = createStoragePolicy_establishes [OF list_services_laws this(2,1,3) example_policy_run]
  have "queries_answer list_services ([(''ref-ds'', ''cluster1'')], [''openshift-storage-policy-cluster1''])"
    by (simp add: queries_answer_def list_services_def)
  then show ?thesis using established by blast
qed

theorem createStoragePolicy_settled_witness:
  "createStoragePolicy list_services example_policy_api
      ([(''ref-ds'', ''cluster1'')], [''openshift-storage-policy-cluster1'']) =
     Returned ((policyName example_policy_api, None), example_policy_api\<lparr>policyCreated := True\<rparr>,
       ([(''ref-ds'', ''cluster1'')], [''openshift-storage-policy-cluster1'']))"
proof (rule createStoragePolicy_settled)
  show "connected (vcenterApiConnection example_policy_api) example_client"
    "Platform_VSphere (sp_infra example_policy_api) = Some one_domain" "FailureDomains one_domain \<noteq> []"
    by (simp_all add: connected_def example_policy_api_def example_connection_def one_domain_def)
  show "checkForExistingPolicy list_services example_policy_api
      ([(''ref-ds'', ''cluster1'')], [''openshift-storage-policy-cluster1'']) = Returned (Inr True)"
    by (simp add: checkForExistingPolicy_def with_pbm_def example_policy_api_def
        example_connection_def list_services_def)
  show "\<forall>fd \<in> set (failureDomains example_policy_api). datastore_tagged list_services
      ([(''ref-ds'', ''cluster1'')], [''openshift-storage-policy-cluster1'']) example_policy_api example_client fd"
    by (simp add: datastore_tagged_def list_services_has_tag example_policy_api_def one_domain_def
        lookup_datastore_def example_client_def)
qed

end
