(* ===== verification/Conditions.thy ===== *)
theory Conditions
  imports Check_Result
begin

text \<open>
  The operator's status conditions: the list operations of library-go
  (\<open>v1helpers/helpers.go\<close>), the write loop \<open>UpdateStatus\<close>, and the part of
  \<open>vspherecontroller.go\<close> and \<open>operator_removal.go\<close> that turns a check result into conditions.
  The locale \<open>condition_store\<close> is the contract of the list operations; everything the
  controller promises about its conditions is proved from it.
\<close>

type_synonym conditions = "OperatorCondition list"

subsection \<open>The list operations\<close>

fun find_from :: "nat \<Rightarrow> conditions \<Rightarrow> string \<Rightarrow> nat option" where
  "find_from i [] t = None"
| "find_from i (c # cs) t = (if cnd_Type c = t then Some i else find_from (Suc i) cs t)"

text \<open>\<open>FindOperatorCondition\<close> returns a pointer into the list, here the index.\<close>

definition FindOperatorCondition :: "conditions \<Rightarrow> string \<Rightarrow> nat option" where
  "FindOperatorCondition conds conditionType = find_from 0 conds conditionType"

definition SetOperatorCondition :: "int \<Rightarrow> conditions \<Rightarrow> OperatorCondition \<Rightarrow> conditions" where
  "SetOperatorCondition now conds newCondition =
     (case FindOperatorCondition conds (cnd_Type newCondition) of
        None \<Rightarrow> conds @ [newCondition\<lparr>cnd_LastTransitionTime := now\<rparr>]
      | Some i \<Rightarrow>
          (let existing = conds ! i;
               existing' = (if cnd_Status existing \<noteq> cnd_Status newCondition
                            then existing\<lparr>cnd_Status := cnd_Status newCondition,
                                          cnd_LastTransitionTime := now\<rparr>
                            else existing)
           in conds[i := existing'\<lparr>cnd_Reason := cnd_Reason newCondition,
                                   cnd_Message := cnd_Message newCondition\<rparr>]))"

definition RemoveOperatorCondition :: "conditions \<Rightarrow> string \<Rightarrow> conditions" where
  "RemoveOperatorCondition conds conditionType = filter (\<lambda>c. cnd_Type c \<noteq> conditionType) conds"

definition lookup_condition :: "conditions \<Rightarrow> string \<Rightarrow> OperatorCondition option" where
  "lookup_condition conds t = map_option (\<lambda>i. conds ! i) (FindOperatorCondition conds t)"

text \<open>What a condition says, its transition time aside.\<close>

definition said :: "OperatorCondition \<Rightarrow> ConditionStatus \<times> string \<times> string" where
  "said c = (cnd_Status c, cnd_Reason c, cnd_Message c)"

lemma find_from_None: "find_from i cs t = None \<longleftrightarrow> (\<forall>c \<in> set cs. cnd_Type c \<noteq> t)"
  by (induction cs arbitrary: i) auto

lemma find_from_shift: "find_from (Suc i) cs t = map_option Suc (find_from i cs t)"
  by (induction cs arbitrary: i) auto

lemma lookup_simps [cond_simps]:
  "lookup_condition [] t = None"
  "lookup_condition (c # cs) t = (if cnd_Type c = t then Some c else lookup_condition cs t)"
  by (simp_all add: lookup_condition_def FindOperatorCondition_def find_from_shift
      option.map_comp comp_def)

lemma lookup_find: "lookup_condition cs t = find (\<lambda>c. cnd_Type c = t) cs"
  by (induction cs) (auto simp: cond_simps)

text \<open>\<open>SetOperatorCondition\<close> as a recursion on the list.\<close>

definition overwrite :: "int \<Rightarrow> OperatorCondition \<Rightarrow> OperatorCondition \<Rightarrow> OperatorCondition" where
  "overwrite now new old =
     old\<lparr>cnd_Status := cnd_Status new, cnd_Reason := cnd_Reason new, cnd_Message := cnd_Message new,
         cnd_LastTransitionTime :=
           (if cnd_Status old \<noteq> cnd_Status new then now else cnd_LastTransitionTime old)\<rparr>"

lemma SetOperatorCondition_simps [cond_simps]:
  "SetOperatorCondition now [] n = [n\<lparr>cnd_LastTransitionTime := now\<rparr>]"
  "SetOperatorCondition now (c # cs) n =
     (if cnd_Type c = cnd_Type n then overwrite now n c # cs else c # SetOperatorCondition now cs n)"
proof -
  show "SetOperatorCondition now [] n = [n\<lparr>cnd_LastTransitionTime := now\<rparr>]"
    by (simp add: SetOperatorCondition_def FindOperatorCondition_def)
  show "SetOperatorCondition now (c # cs) n =
     (if cnd_Type c = cnd_Type n then overwrite now n c # cs else c # SetOperatorCondition now cs n)"
    by (auto simp: SetOperatorCondition_def FindOperatorCondition_def find_from_shift overwrite_def
        Let_def split: option.split)
qed

lemma overwrite_simps [simp]:
  "cnd_Type (overwrite now n c) = cnd_Type c" "said (overwrite now n c) = said n"
  by (simp_all add: overwrite_def said_def)

lemma said_time [simp]: "said (n\<lparr>cnd_LastTransitionTime := t\<rparr>) = said n"
  by (simp add: said_def)

lemma lookup_Set:
  "map_option said (lookup_condition (SetOperatorCondition now cs n) t) =
     (if t = cnd_Type n then Some (said n) else map_option said (lookup_condition cs t))"
  by (induction cs) (auto simp: cond_simps)

lemma lookup_Set_other:
  "t \<noteq> cnd_Type n \<Longrightarrow> lookup_condition (SetOperatorCondition now cs n) t = lookup_condition cs t"
  by (induction cs) (auto simp: cond_simps)

lemma lookup_Remove:
  "lookup_condition (RemoveOperatorCondition cs t') t = (if t = t' then None else lookup_condition cs t)"
  by (induction cs) (auto simp: cond_simps RemoveOperatorCondition_def)

abbreviation distinct_types :: "conditions \<Rightarrow> bool" where
  "distinct_types cs \<equiv> distinct (map cnd_Type cs)"

lemma types_Set:
  "map cnd_Type (SetOperatorCondition now cs n) =
     (if cnd_Type n \<in> cnd_Type ` set cs then map cnd_Type cs else map cnd_Type cs @ [cnd_Type n])"
  by (induction cs) (auto simp: cond_simps)

lemma distinct_types_Set: "distinct_types cs \<Longrightarrow> distinct_types (SetOperatorCondition now cs n)"
  by (simp add: types_Set)

lemma distinct_types_Remove: "distinct_types cs \<Longrightarrow> distinct_types (RemoveOperatorCondition cs t)"
  by (simp add: RemoveOperatorCondition_def distinct_map_filter)

text \<open>
  A condition list acts as a map from types to conditions: after \<open>SetOperatorCondition\<close> the
  type reads back with the new status, reason and message, its transition time is the present
  exactly when the type is new or its status changes, every other type reads as before, and no
  type is ever listed twice.
\<close>
theorem SetOperatorCondition_reads_back:
  assumes "distinct_types cs"
  shows "(\<exists>c. lookup_condition (SetOperatorCondition now cs n) (cnd_Type n) = Some c \<and> said c = said n
        \<and> cnd_LastTransitionTime c =
            (case lookup_condition cs (cnd_Type n) of
               Some old \<Rightarrow> if cnd_Status old = cnd_Status n then cnd_LastTransitionTime old else now
             | None \<Rightarrow> now))
    \<and> (\<forall>t. t \<noteq> cnd_Type n \<longrightarrow>
           lookup_condition (SetOperatorCondition now cs n) t = lookup_condition cs t)
    \<and> distinct_types (SetOperatorCondition now cs n)"
proof (intro conjI)
  show "\<exists>c. lookup_condition (SetOperatorCondition now cs n) (cnd_Type n) = Some c \<and> said c = said n
        \<and> cnd_LastTransitionTime c =
            (case lookup_condition cs (cnd_Type n) of
               Some old \<Rightarrow> if cnd_Status old = cnd_Status n then cnd_LastTransitionTime old else now
             | None \<Rightarrow> now)"
    by (induction cs) (auto simp: cond_simps overwrite_def said_def)
qed (simp_all add: lookup_Set_other distinct_types_Set assms)

definition degraded_cond :: "ConditionStatus \<Rightarrow> OperatorCondition" where
  "degraded_cond s = \<lparr>cnd_Type = ''XDegraded'', cnd_Status = s, cnd_Reason = ''r'', cnd_Message = ''m'',
     cnd_LastTransitionTime = 7\<rparr>"

theorem SetOperatorCondition_reads_back_witness:
  "\<exists>c. lookup_condition (SetOperatorCondition 9 [degraded_cond ConditionTrue] (degraded_cond ConditionFalse))
         ''XDegraded'' = Some c \<and> cnd_LastTransitionTime c = 9"
  using SetOperatorCondition_reads_back
    [of "[degraded_cond ConditionTrue]" 9 "degraded_cond ConditionFalse"]
  by (auto simp: degraded_cond_def cond_simps)

subsection \<open>The contract of the list operations\<close>

locale condition_store =
  fixes get :: "'s \<Rightarrow> string \<Rightarrow> OperatorCondition option"
    and put :: "OperatorCondition \<Rightarrow> 's \<Rightarrow> 's"
    and delete :: "string \<Rightarrow> 's \<Rightarrow> 's"
  assumes said_put: "map_option said (get (put c s) t) =
      (if t = cnd_Type c then Some (said c) else map_option said (get s t))"
    and said_delete: "map_option said (get (delete t' s) t) =
      (if t = t' then None else map_option said (get s t))"
begin

abbreviation reads :: "'s \<Rightarrow> string \<Rightarrow> (ConditionStatus \<times> string \<times> string) option" where
  "reads s t \<equiv> map_option said (get s t)"

lemma put_put: "cnd_Type c \<noteq> cnd_Type d \<Longrightarrow> reads (put c (put d s)) = reads (put d (put c s))"
  by (auto simp: said_put fun_eq_iff)

lemma put_again: "cnd_Type c = cnd_Type d \<Longrightarrow> reads (put c (put d s)) = reads (put c s)"
  by (auto simp: said_put fun_eq_iff)

lemma delete_all:
  "reads (fold delete ts s) t = (if t \<in> set ts then None else reads s t)"
  by (induction ts arbitrary: s) (auto simp: said_delete)

text \<open>A degraded condition, an upgradeable one, a disabled one set or removed, an old one removed.\<close>

lemma four_updates:
  assumes "distinct [cnd_Type dg, cnd_Type up, dis, old]" and "cnd_Type dc = dis"
  shows "reads (put up (delete old ((if b then put dc else delete dis) (put dg s)))) t =
    (if t = cnd_Type up then Some (said up) else if t = old then None
     else if t = dis then (if b then Some (said dc) else None)
     else if t = cnd_Type dg then Some (said dg) else reads s t)"
  using assms by (auto simp: said_put said_delete)

end

interpretation conds: condition_store lookup_condition
  "\<lambda>c cs. SetOperatorCondition now cs c" "\<lambda>t cs. RemoveOperatorCondition cs t" for now
  by unfold_locales (auto simp: lookup_Set lookup_Remove)

subsection \<open>UpdateStatus\<close>

text \<open>
  One attempt: the conditions it reads (another writer may change them between attempts) and the
  API server's answer to the write.
\<close>

datatype api_answer = Accept | Conflict go_error | Refuse go_error

type_synonym attempt = "conditions result \<times> api_answer"

definition apply_all :: "(conditions \<Rightarrow> conditions) list \<Rightarrow> conditions \<Rightarrow> conditions" where
  "apply_all updateFuncs cs = fold (\<lambda>f s. f s) updateFuncs cs"

text \<open>\<open>steps\<close> attempts are left, \<open>k\<close> is the next one; the result is the error and what was written.\<close>

fun UpdateStatus_loop ::
  "nat \<Rightarrow> nat \<Rightarrow> (conditions \<Rightarrow> conditions) list \<Rightarrow> (nat \<Rightarrow> attempt) \<Rightarrow> go_error option
     \<Rightarrow> go_error option \<times> conditions option" where
  "UpdateStatus_loop 0 k updateFuncs att lastErr =
     (case lastErr of
        Some e \<Rightarrow> (Some e, None)
      | None \<Rightarrow> (Some (Failure ''timed out waiting for the condition''), None))"
| "UpdateStatus_loop (Suc steps) k updateFuncs att lastErr =
     (case fst (att k) of
        Inl err \<Rightarrow> (Some err, None)
      | Inr oldStatus \<Rightarrow>
          (let newStatus = apply_all updateFuncs oldStatus
           in if newStatus = oldStatus then (None, None)
              else case snd (att k) of
                     Accept \<Rightarrow> (None, Some newStatus)
                   | Conflict err \<Rightarrow> UpdateStatus_loop steps (Suc k) updateFuncs att (Some err)
                   | Refuse err \<Rightarrow> (Some err, None)))"

definition DefaultBackoff_Steps :: nat where
  "DefaultBackoff_Steps = 4"

definition UpdateStatus ::
  "(conditions \<Rightarrow> conditions) list \<Rightarrow> (nat \<Rightarrow> attempt) \<Rightarrow> go_error option \<times> conditions option" where
  "UpdateStatus updateFuncs att = UpdateStatus_loop DefaultBackoff_Steps 0 updateFuncs att None"

lemma UpdateStatus_loop_written:
  "UpdateStatus_loop n k fs att e = (err, Some new) \<Longrightarrow>
     err = None \<and> (\<exists>i. k \<le> i \<and> i < k + n \<and> (\<exists>old. fst (att i) = Inr old \<and> new = apply_all fs old
        \<and> new \<noteq> old \<and> snd (att i) = Accept)
        \<and> (\<forall>j. k \<le> j \<and> j < i \<longrightarrow> (\<exists>c. snd (att j) = Conflict c)))"
proof (induction n arbitrary: k e)
  case (Suc n)
  obtain old where old: "fst (att k) = Inr old" using Suc.prems by (cases "fst (att k)") auto
  show ?case
  proof (cases "snd (att k)")
    case (Conflict c)
    with Suc.prems old have "UpdateStatus_loop n (Suc k) fs att (Some c) = (err, Some new)"
      by (simp add: Let_def split: if_splits)
    from Suc.IH [OF this] obtain i where "err = None" "Suc k \<le> i" "i < Suc k + n"
      "\<exists>old. fst (att i) = Inr old \<and> new = apply_all fs old \<and> new \<noteq> old \<and> snd (att i) = Accept"
      "\<forall>j. Suc k \<le> j \<and> j < i \<longrightarrow> (\<exists>c. snd (att j) = Conflict c)" by blast
    moreover have "\<forall>j. k \<le> j \<and> j < i \<longrightarrow> (\<exists>c. snd (att j) = Conflict c)"
      using calculation(5) Conflict by (metis Suc_leI le_neq_implies_less)
    ultimately show ?thesis by (intro conjI exI [of _ i]) auto
  next
    case Accept
    with Suc.prems old show ?thesis by (auto simp: Let_def intro!: exI [of _ k] split: if_splits)
  next
    case (Refuse c)
    with Suc.prems old show ?thesis by (auto simp: Let_def split: if_splits)
  qed
qed (simp split: option.splits)

text \<open>
  \<open>UpdateStatus\<close> never loses an update made by somebody else: what it writes is the update
  functions applied to the conditions the same attempt read, the write was accepted, every earlier
  attempt ended in a conflict, and there are at most four attempts.
\<close>
theorem UpdateStatus_writes_on_read:
  assumes "UpdateStatus fs att = (err, Some new)"
  shows "err = None \<and> (\<exists>i < 4. \<exists>old. fst (att i) = Inr old \<and> new = apply_all fs old
      \<and> new \<noteq> old \<and> snd (att i) = Accept \<and> (\<forall>j < i. \<exists>c. snd (att j) = Conflict c))"
  using UpdateStatus_loop_written [of 4 0 fs att None] assms
  by (auto simp: UpdateStatus_def DefaultBackoff_Steps_def)

theorem UpdateStatus_writes_on_read_witness:
  "\<exists>i < (4 :: nat). [degraded_cond ConditionTrue] = [(degraded_cond ConditionTrue)]
     \<and> snd ((\<lambda>k. if k = 0 then (Inr [] :: conditions result, Conflict (Failure ''c'')) else (Inr [], Accept)) i)
          = Accept"
  using UpdateStatus_writes_on_read
    [of "[\<lambda>cs. [degraded_cond ConditionTrue]]"
        "\<lambda>k. if k = 0 then (Inr [], Conflict (Failure ''c'')) else (Inr [], Accept)" None
        "[degraded_cond ConditionTrue]"]
  by (auto simp: UpdateStatus_def DefaultBackoff_Steps_def numeral_eq_Suc apply_all_def)

text \<open>The common case, nobody else writes: one attempt, and the update is what is stored.\<close>

definition quiet :: "conditions \<Rightarrow> nat \<Rightarrow> attempt" where
  "quiet cs k = (Inr cs, Accept)"

lemma UpdateStatus_quiet:
  "UpdateStatus fs (quiet cs) =
     (None, if apply_all fs cs = cs then None else Some (apply_all fs cs))"
  by (simp add: UpdateStatus_def DefaultBackoff_Steps_def numeral_eq_Suc quiet_def Let_def)

subsection \<open>Conditions of the controller\<close>

definition OperatorStatusTypeDegraded :: string where
  "OperatorStatusTypeDegraded = ''Degraded''"

definition OperatorStatusTypeUpgradeable :: string where
  "OperatorStatusTypeUpgradeable = ''Upgradeable''"

definition OperatorStatusTypeAvailable :: string where
  "OperatorStatusTypeAvailable = ''Available''"

text \<open>\<open>hasErrorConditions\<close> stops at the first condition that says degraded or not upgradeable.\<close>

fun hasErrorConditions :: "conditions \<Rightarrow> bool" where
  "hasErrorConditions [] = False"
| "hasErrorConditions (condition # rest) =
     (if has_suffix (cnd_Type condition) OperatorStatusTypeDegraded
         \<and> cnd_Status condition = ConditionTrue then True
      else if has_suffix (cnd_Type condition) OperatorStatusTypeUpgradeable
         \<and> cnd_Status condition = ConditionFalse then True
      else hasErrorConditions rest)"

definition new_condition :: "string \<Rightarrow> ConditionStatus \<Rightarrow> string \<Rightarrow> string \<Rightarrow> OperatorCondition" where
  "new_condition t s r m =
     \<lparr>cnd_Type = t, cnd_Status = s, cnd_Reason = r, cnd_Message = m, cnd_LastTransitionTime = 0\<rparr>"

definition getDisabledConditionName :: "string \<Rightarrow> string" where
  "getDisabledConditionName name = name @ ''Disabled''"

definition addUpgradeableBlockCondition ::
  "ClusterCheckResult \<Rightarrow> string \<Rightarrow> conditions \<Rightarrow> ConditionStatus \<Rightarrow> OperatorCondition \<times> bool" where
  "addUpgradeableBlockCondition lastCheckResult name oldConditions upgradeStatus =
     (let conditionType = name @ OperatorStatusTypeUpgradeable;
          blockUpgradeCondition = new_condition conditionType upgradeStatus
            (status_string (CheckStatus lastCheckResult)) (Reason lastCheckResult)
      in (blockUpgradeCondition,
          case lookup_condition oldConditions conditionType of
            Some condition \<Rightarrow> said condition \<noteq> said blockUpgradeCondition
          | None \<Rightarrow> True))"

definition degrade_condition :: "ClusterCheckResult \<Rightarrow> OperatorCondition" where
  "degrade_condition lastCheckResult =
     (if Action lastCheckResult = CheckActionDegrade
      then new_condition (''VMwareVSphereOperatorCheck'' @ OperatorStatusTypeDegraded) ConditionTrue
             (status_string (CheckStatus lastCheckResult)) (Reason lastCheckResult)
      else new_condition (''VMwareVSphereOperatorCheck'' @ OperatorStatusTypeDegraded)
             ConditionFalse [] [])"

text \<open>The update functions of \<open>updateConditions\<close>, in the order they are appended.\<close>

definition updateConditions_funcs ::
  "int \<Rightarrow> string \<Rightarrow> ClusterCheckResult \<Rightarrow> OperatorCondition \<Rightarrow> bool \<Rightarrow> bool
     \<Rightarrow> (conditions \<Rightarrow> conditions) list" where
  "updateConditions_funcs now name lastCheckResult allowUpgradeCond operandControllerStarted
     blockCSIDriverInstall =
     [\<lambda>cs. SetOperatorCondition now cs (degrade_condition lastCheckResult),
      \<lambda>cs. if \<not> operandControllerStarted \<and> blockCSIDriverInstall
           then SetOperatorCondition now cs
                  (new_condition (getDisabledConditionName name) ConditionTrue []
                     (Reason lastCheckResult))
           else RemoveOperatorCondition cs (getDisabledConditionName name),
      \<lambda>cs. RemoveOperatorCondition cs (name @ OperatorStatusTypeAvailable),
      \<lambda>cs. SetOperatorCondition now cs allowUpgradeCond]"

fun blockUpgradeMessage :: "ConditionStatus \<Rightarrow> string \<Rightarrow> string" where
  "blockUpgradeMessage ConditionFalse r = ''Marking cluster un-upgradeable because '' @ r"
| "blockUpgradeMessage ConditionUnknown r = ''Marking cluster upgrade status unknown because '' @ r"
| "blockUpgradeMessage ConditionTrue r = r"

type_synonym event = "string \<times> string" \<comment> \<open>reason and text of a warning\<close>

record conditions_update =
  upd_error :: "go_error option"
  upd_written :: "conditions option"
  upd_events :: "event list"

definition updateConditions ::
  "int \<Rightarrow> string \<Rightarrow> ClusterCheckResult \<Rightarrow> conditions \<Rightarrow> ConditionStatus \<Rightarrow> bool \<Rightarrow> bool
     \<Rightarrow> (nat \<Rightarrow> attempt) \<Rightarrow> conditions_update" where
  "updateConditions now name lastCheckResult status upgradeStatus operandControllerStarted
     blockCSIDriverInstall att =
     (let (allowUpgradeCond, conditionChanged) =
            addUpgradeableBlockCondition lastCheckResult name status upgradeStatus;
          (err, written) = UpdateStatus (updateConditions_funcs now name lastCheckResult
            allowUpgradeCond operandControllerStarted blockCSIDriverInstall) att
      in \<lparr>upd_error = err, upd_written = written,
          upd_events =
            (if conditionChanged \<and> upgradeStatus \<noteq> ConditionTrue
             then [(status_string (CheckStatus lastCheckResult),
                    blockUpgradeMessage upgradeStatus (Reason lastCheckResult))]
             else [])\<rparr>)"

lemma updateConditions_simps:
  "upd_error (updateConditions now name r status up started block att) =
     fst (UpdateStatus (updateConditions_funcs now name r
            (fst (addUpgradeableBlockCondition r name status up)) started block) att)"
  "upd_written (updateConditions now name r status up started block att) =
     snd (UpdateStatus (updateConditions_funcs now name r
            (fst (addUpgradeableBlockCondition r name status up)) started block) att)"
  by (simp_all add: updateConditions_def split: prod.split)

lemma said_new [simp]: "said (new_condition t s r m) = (s, r, m)"
  by (simp add: said_def new_condition_def)

lemma type_new [simp]: "cnd_Type (new_condition t s r m) = t"
  by (simp add: new_condition_def)

lemma last_chars_differ: "length a = length b \<Longrightarrow> a \<noteq> b \<Longrightarrow> x @ a \<noteq> y @ b"
  by auto

lemma condition_types_distinct:
  "distinct [''VMwareVSphereOperatorCheckDegraded'', name @ ''Upgradeable'', name @ ''Disabled'',
             name @ ''Available'']"
proof -
  have "''VMwareVSphereOperatorCheck'' @ ''Degraded'' \<noteq> name @ ''Disabled''"
    by (rule last_chars_differ) auto
  moreover have "''VMwareVSphereOperatorChec'' @ ''kDegraded'' \<noteq> name @ ''Available''"
    by (rule last_chars_differ) auto
  moreover have "''VMwareVSphereOperatorCh'' @ ''eckDegraded'' \<noteq> name @ ''Upgradeable''"
    by (rule last_chars_differ) auto
  ultimately show ?thesis by auto
qed

definition degrade_said :: "ClusterCheckResult \<Rightarrow> ConditionStatus \<times> string \<times> string" where
  "degrade_said r = (if Action r = CheckActionDegrade
     then (ConditionTrue, status_string (CheckStatus r), Reason r) else (ConditionFalse, [], []))"

lemma degrade_condition_type:
  "cnd_Type (degrade_condition r) = ''VMwareVSphereOperatorCheckDegraded''"
  "said (degrade_condition r) = degrade_said r"
  by (simp_all add: degrade_condition_def OperatorStatusTypeDegraded_def degrade_said_def)

lemma updateConditions_funcs_read:
  assumes "cnd_Type up = name @ ''Upgradeable''"
  shows "map_option said (lookup_condition (apply_all
       (updateConditions_funcs now name r up started block) cs) t) =
    (if t = name @ ''Upgradeable'' then Some (said up)
     else if t = name @ ''Available'' then None
     else if t = name @ ''Disabled''
       then (if \<not> started \<and> block then Some (ConditionTrue, [], Reason r) else None)
     else if t = ''VMwareVSphereOperatorCheckDegraded'' then Some (degrade_said r)
     else map_option said (lookup_condition cs t))"
proof -
  note types = condition_types_distinct [of name]
  let ?dc = "new_condition (name @ ''Disabled'') ConditionTrue [] (Reason r)"
  have "distinct [cnd_Type (degrade_condition r), cnd_Type up, name @ ''Disabled'', name @ ''Available'']"
    using types assms by (simp add: degrade_condition_type)
  note four = conds.four_updates [OF this, of ?dc now _ cs t]
  obtain b where b: "(\<not> started \<and> block) = b" by blast
  show ?thesis
    unfolding updateConditions_funcs_def b
    using four [of b] assms
    by (cases b)
      (simp_all add: apply_all_def getDisabledConditionName_def OperatorStatusTypeAvailable_def
        degrade_condition_type del: map_option_eq_Some)
qed

lemma updateConditions_funcs_distinct:
  "distinct_types cs \<Longrightarrow>
     distinct_types (apply_all (updateConditions_funcs now name r up started block) cs)"
  by (auto simp: updateConditions_funcs_def apply_all_def intro!: distinct_types_Set distinct_types_Remove)

text \<open>
  C19: what a cluster reads after \<open>updateConditions\<close> has written: the controller's own degraded
  condition says True exactly for a degrading result, the upgradeable condition carries the asked
  status with the result's status and reason, the disabled condition is there exactly when the
  driver was never started and its installation is blocked, the old available condition is gone,
  and every other condition is as the same attempt read it.
\<close>
theorem updateConditions_effect:
  assumes "updateConditions now name r status up started block att = u"
    and "upd_written u = Some cs"
  shows "\<exists>i < 4. \<exists>old. fst (att i) = Inr old \<and> (\<forall>t.
      map_option said (lookup_condition cs t) =
       (if t = name @ ''Upgradeable''
        then Some (up, status_string (CheckStatus r), Reason r)
        else if t = name @ ''Available'' then None
        else if t = name @ ''Disabled''
          then (if \<not> started \<and> block then Some (ConditionTrue, [], Reason r) else None)
        else if t = ''VMwareVSphereOperatorCheckDegraded''
          then Some (if Action r = CheckActionDegrade
                     then (ConditionTrue, status_string (CheckStatus r), Reason r)
                     else (ConditionFalse, [], []))
        else map_option said (lookup_condition old t)))
     \<and> (distinct_types old \<longrightarrow> distinct_types cs)"
proof -
  let ?up = "fst (addUpgradeableBlockCondition r name status up)"
  let ?fs = "updateConditions_funcs now name r ?up started block"
  have up: "cnd_Type ?up = name @ ''Upgradeable''"
    "said ?up = (up, status_string (CheckStatus r), Reason r)"
    by (simp_all add: addUpgradeableBlockCondition_def OperatorStatusTypeUpgradeable_def Let_def)
  obtain err where "UpdateStatus ?fs att = (err, Some cs)"
    using assms by (auto simp: updateConditions_def split: prod.splits)
  then obtain i old where i: "i < 4" "fst (att i) = Inr old" "cs = apply_all ?fs old"
    using UpdateStatus_loop_written [of 4 0 ?fs att None]
    by (auto simp: UpdateStatus_def DefaultBackoff_Steps_def)
  then show ?thesis
    using updateConditions_funcs_read [OF up(1)] updateConditions_funcs_distinct up(2)
    by (intro exI [of _ i] conjI exI [of _ old]) (auto simp: degrade_said_def)
qed

text \<open>
  A warning event is emitted exactly when the upgradeable condition is not True and says
  something else than the status the sync started with; an unchanged verdict is not repeated.
\<close>
theorem updateConditions_event_on_change:
  "upd_events (updateConditions now name r status up started block att) \<noteq> [] \<longleftrightarrow>
     up \<noteq> ConditionTrue \<and>
     map_option said (lookup_condition status (name @ ''Upgradeable'')) \<noteq>
       Some (up, status_string (CheckStatus r), Reason r)"
  by (auto simp: updateConditions_def addUpgradeableBlockCondition_def
      OperatorStatusTypeUpgradeable_def Let_def split: prod.split option.split)

subsection \<open>Removal of the conditions\<close>

definition vsphereOperatorPrefix :: string where
  "vsphereOperatorPrefix = ''VMwareVSphere''"

definition untouchableConditions :: "string list" where
  "untouchableConditions =
     [''VMwareVSphereControllerDegraded'', ''VMwareVSphereDriverFeatureConfigControllerDegraded'',
      ''VMWareVSphereDriverServiceMonitorControllerDegraded'']"

definition addDisabledCondition :: "int \<Rightarrow> string \<Rightarrow> conditions \<Rightarrow> conditions" where
  "addDisabledCondition now name cs =
     SetOperatorCondition now cs
       (new_condition (getDisabledConditionName name) ConditionTrue [] ''Operator is disabled'')"

definition removed_types :: "string \<Rightarrow> conditions \<Rightarrow> string list" where
  "removed_types name originalConditions =
     map cnd_Type (filter (\<lambda>c. has_prefix (cnd_Type c) vsphereOperatorPrefix
         \<and> cnd_Type c \<notin> set (getDisabledConditionName name # untouchableConditions))
       originalConditions)"

definition removeConditions_funcs ::
  "int \<Rightarrow> string \<Rightarrow> conditions \<Rightarrow> (conditions \<Rightarrow> conditions) list" where
  "removeConditions_funcs now name status =
     [\<lambda>cs. fold (\<lambda>t cs. RemoveOperatorCondition cs t) (removed_types name status) cs,
      addDisabledCondition now name]"

definition removeConditions ::
  "int \<Rightarrow> string \<Rightarrow> conditions \<Rightarrow> (nat \<Rightarrow> attempt) \<Rightarrow> go_error option \<times> conditions option" where
  "removeConditions now name status att = UpdateStatus (removeConditions_funcs now name status) att"

lemma removeConditions_funcs_read:
  "map_option said (lookup_condition (apply_all (removeConditions_funcs now name status) cs) t) =
     (if t = name @ ''Disabled'' then Some (ConditionTrue, [], ''Operator is disabled'')
      else if t \<in> set (removed_types name status) then None
      else map_option said (lookup_condition cs t))"
  by (simp add: removeConditions_funcs_def apply_all_def addDisabledCondition_def
      getDisabledConditionName_def conds.said_put conds.delete_all)

text \<open>
  Removal of the operands leaves a disabled condition that says True, none of the vSphere
  conditions the sync started with except the three untouchable ones, and every other condition
  as it was.
\<close>
theorem removeConditions_effect:
  assumes "removeConditions now name status att = (err, Some cs)"
  shows "\<exists>i < 4. \<exists>old. fst (att i) = Inr old \<and> (\<forall>t.
     map_option said (lookup_condition cs t) =
      (if t = name @ ''Disabled'' then Some (ConditionTrue, [], ''Operator is disabled'')
       else if t \<in> cnd_Type ` set status \<and> has_prefix t ''VMwareVSphere''
               \<and> t \<noteq> ''VMwareVSphereControllerDegraded''
               \<and> t \<noteq> ''VMwareVSphereDriverFeatureConfigControllerDegraded''
       then None
       else map_option said (lookup_condition old t)))"
proof -
  let ?fs = "removeConditions_funcs now name status"
  have "UpdateStatus ?fs att = (err, Some cs)" using assms by (simp add: removeConditions_def)
  then obtain i old where i: "i < 4" "fst (att i) = Inr old" "cs = apply_all ?fs old"
    using UpdateStatus_loop_written [of 4 0 ?fs att None]
    by (auto simp: UpdateStatus_def DefaultBackoff_Steps_def)
  have removed: "t \<in> set (removed_types name status) \<longleftrightarrow>
      t \<in> cnd_Type ` set status \<and> has_prefix t ''VMwareVSphere''
      \<and> t \<noteq> ''VMwareVSphereControllerDegraded''
      \<and> t \<noteq> ''VMwareVSphereDriverFeatureConfigControllerDegraded''"
    if "t \<noteq> name @ ''Disabled''" for t
    using that
    by (auto simp: removed_types_def vsphereOperatorPrefix_def untouchableConditions_def
        getDisabledConditionName_def has_prefix_def)
  show ?thesis
    using i removed by (intro exI [of _ i] conjI exI [of _ old]) (auto simp: removeConditions_funcs_read)
qed

subsection \<open>Witnesses\<close>

definition degrading :: ClusterCheckResult where
  "degrading = MakeClusterDegradedError CheckStatusNonVSphereNode (Failure ''e'')"

lemma degrading_simps:
  "Action degrading = CheckActionDegrade" "Reason degrading = ''e''"
  "CheckStatus degrading = CheckStatusNonVSphereNode"
  by (simp_all add: degrading_def check_simps)

lemma written_when_changed:
  "apply_all fs [] \<noteq> [] \<Longrightarrow> UpdateStatus fs (quiet []) = (None, Some (apply_all fs []))"
  by (simp add: UpdateStatus_quiet)

lemma lookup_not_empty: "map_option said (lookup_condition cs t) \<noteq> None \<Longrightarrow> cs \<noteq> []"
  by (auto simp: cond_simps)

theorem updateConditions_effect_witness:
  "\<exists>cs. upd_written (updateConditions 5 ''C'' degrading [] ConditionFalse False True (quiet [])) = Some cs
      \<and> map_option said (lookup_condition cs ''CDisabled'') = Some (ConditionTrue, [], ''e'')"
proof -
  let ?up = "fst (addUpgradeableBlockCondition degrading ''C'' [] ConditionFalse)"
  let ?fs = "updateConditions_funcs 5 ''C'' degrading ?up False True"
  let ?u = "updateConditions 5 ''C'' degrading [] ConditionFalse False True (quiet [])"
  have "cnd_Type ?up = ''C'' @ ''Upgradeable''"
    by (simp add: addUpgradeableBlockCondition_def OperatorStatusTypeUpgradeable_def Let_def)
  from updateConditions_funcs_read [OF this, of 5 degrading False True "[]" "''CUpgradeable''"]
  have "apply_all ?fs [] \<noteq> []" by (intro lookup_not_empty [of _ "''CUpgradeable''"]) auto
  then have w: "upd_written ?u = Some (apply_all ?fs [])"
    by (simp add: updateConditions_simps written_when_changed)
  from updateConditions_effect [OF refl w] show ?thesis
    using w by (auto simp: degrading_simps quiet_def simp del: map_option_eq_Some)
qed

theorem removeConditions_effect_witness:
  "\<exists>cs. removeConditions 5 ''C'' [degraded_cond ConditionTrue] (quiet [degraded_cond ConditionTrue]) = (None, Some cs)
      \<and> map_option said (lookup_condition cs ''CDisabled'') = Some (ConditionTrue, [], ''Operator is disabled'')"
proof -
  let ?s = "[degraded_cond ConditionTrue]"
  let ?fs = "removeConditions_funcs 5 ''C'' ?s"
  have "map_option said (lookup_condition (apply_all ?fs ?s) ''CDisabled'') \<noteq>
      map_option said (lookup_condition ?s ''CDisabled'')"
    using removeConditions_funcs_read [of 5 "''C''" ?s ?s "''CDisabled''"]
    by (simp add: cond_simps degraded_cond_def del: map_option_eq_Some)
  then have "apply_all ?fs ?s \<noteq> ?s" by metis
  then have w: "removeConditions 5 ''C'' ?s (quiet ?s) = (None, Some (apply_all ?fs ?s))"
    by (simp add: removeConditions_def UpdateStatus_quiet)
  from removeConditions_effect [OF w] show ?thesis
    using w by (auto simp: quiet_def simp del: map_option_eq_Some)
qed

end
