(* ===== verification/Node_Pool.thy ===== *)
theory Node_Pool
  imports Example_Cluster
begin

text \<open>
  \<open>checks/check_nodes.go\<close>, the concurrency: \<open>NodeChecker.Check\<close> feeds the nodes into a channel of
  capacity \<open>workerCount\<close>, \<open>workerCount\<close> goroutines run \<open>runWorker\<close>, a failed check is appended
  to the shared results and ends its worker, and the feeder stops feeding once it sees a result.
  Each step of a goroutine is a rule of \<open>pool_step\<close>; the scheduler is any sequence of steps.
  \<open>checkOnNode\<close> is one step: all it does to shared state is the one critical section of
  \<open>checkOrMarkHostForProcessing\<close>, so it can be thought to happen there.
\<close>

subsection \<open>State and steps\<close>

definition workerCount :: nat where
  "workerCount = 10"

datatype worker =
  Receiving                          \<comment> \<open>at the channel receive of \<open>runWorker\<close>\<close>
| Checking Node                      \<comment> \<open>in \<open>checkOnNode\<close>\<close>
| Reporting ClusterCheckResult       \<comment> \<open>about to call \<open>addResult\<close>\<close>
| Stopped                            \<comment> \<open>left the loop, \<open>wg.Done()\<close>\<close>

datatype feeder =
  Feeding "Node list"                \<comment> \<open>at the head of the loop of \<open>Check\<close>\<close>
| Sending Node "Node list"           \<comment> \<open>in \<open>addWork\<close>, past the result test\<close>
| Waiting                            \<comment> \<open>channel closed, in \<open>wg.Wait()\<close>\<close>
| Finished "ClusterCheckResult list" \<comment> \<open>\<open>Check\<close> returned\<close>

text \<open>
  \<open>handled\<close> is a history variable, the nodes whose check has returned; no step reads it.
\<close>

record pool =
  workers :: "worker list"
  chan :: "Node list"
  closed :: bool
  hosts :: "string list"
  results :: "ClusterCheckResult list"
  feeder_at :: feeder
  crashed :: bool
  handled :: "Node list"

definition createPool :: "Node list \<Rightarrow> pool" where
  "createPool nodes =
     \<lparr>workers = replicate workerCount Receiving, chan = [], closed = False, hosts = [],
      results = [], feeder_at = Feeding nodes, crashed = False, handled = []\<rparr>"

definition waitForWorkFinish :: "pool \<Rightarrow> ClusterCheckResult list" where
  "waitForWorkFinish s = (if 0 < length (results s) then results s else [MakeClusterCheckResultPass])"

text \<open>The part of \<open>runWorker\<close> after \<open>checkOnNode\<close> has returned.\<close>

definition after_check :: "ClusterCheckResult \<Rightarrow> worker" where
  "after_check r = (if CheckError r \<noteq> None then Reporting r else Receiving)"

inductive pool_step :: "CheckArgs \<Rightarrow> pool \<Rightarrow> pool \<Rightarrow> bool" for args :: CheckArgs where
  addWork_refused:
    "\<not> crashed s \<Longrightarrow> feeder_at s = Feeding (n # ns) \<Longrightarrow> 0 < length (results s) \<Longrightarrow>
     pool_step args s (s\<lparr>feeder_at := Waiting, closed := True\<rparr>)"
| addWork_accepted:
    "\<not> crashed s \<Longrightarrow> feeder_at s = Feeding (n # ns) \<Longrightarrow> \<not> 0 < length (results s) \<Longrightarrow>
     pool_step args s (s\<lparr>feeder_at := Sending n ns\<rparr>)"
| send:
    "\<not> crashed s \<Longrightarrow> feeder_at s = Sending n ns \<Longrightarrow> length (chan s) < workerCount \<Longrightarrow>
     pool_step args s (s\<lparr>feeder_at := Feeding ns, chan := chan s @ [n]\<rparr>)"
| all_fed:
    "\<not> crashed s \<Longrightarrow> feeder_at s = Feeding [] \<Longrightarrow>
     pool_step args s (s\<lparr>feeder_at := Waiting, closed := True\<rparr>)"
| receive:
    "\<not> crashed s \<Longrightarrow> i < length (workers s) \<Longrightarrow> workers s ! i = Receiving \<Longrightarrow> chan s = n # rest \<Longrightarrow>
     pool_step args s (s\<lparr>workers := (workers s)[i := Checking n], chan := rest\<rparr>)"
| receive_closed:
    "\<not> crashed s \<Longrightarrow> i < length (workers s) \<Longrightarrow> workers s ! i = Receiving \<Longrightarrow> chan s = [] \<Longrightarrow> closed s \<Longrightarrow>
     pool_step args s (s\<lparr>workers := (workers s)[i := Stopped]\<rparr>)"
| check:
    "\<not> crashed s \<Longrightarrow> i < length (workers s) \<Longrightarrow> workers s ! i = Checking n \<Longrightarrow>
     checkOnNode args n (hosts s) = Returned (r, hosts') \<Longrightarrow>
     pool_step args s (s\<lparr>workers := (workers s)[i := after_check r], hosts := hosts',
                         handled := n # handled s\<rparr>)"
| check_panic:
    "\<not> crashed s \<Longrightarrow> i < length (workers s) \<Longrightarrow> workers s ! i = Checking n \<Longrightarrow>
     checkOnNode args n (hosts s) = Panicked m \<Longrightarrow>
     pool_step args s (s\<lparr>crashed := True\<rparr>)"
| addResult:
    "\<not> crashed s \<Longrightarrow> i < length (workers s) \<Longrightarrow> workers s ! i = Reporting r \<Longrightarrow>
     pool_step args s (s\<lparr>workers := (workers s)[i := Stopped], results := results s @ [r]\<rparr>)"
| work_finished:
    "\<not> crashed s \<Longrightarrow> feeder_at s = Waiting \<Longrightarrow> \<forall>w \<in> set (workers s). w = Stopped \<Longrightarrow>
     pool_step args s (s\<lparr>feeder_at := Finished (waitForWorkFinish s)\<rparr>)"

inductive pool_reach :: "CheckArgs \<Rightarrow> Node list \<Rightarrow> pool \<Rightarrow> bool"
  for args :: CheckArgs and nodes :: "Node list" where
  start: "pool_reach args nodes (createPool nodes)"
| step: "pool_reach args nodes s \<Longrightarrow> pool_step args s t \<Longrightarrow> pool_reach args nodes t"

definition stuck :: "CheckArgs \<Rightarrow> pool \<Rightarrow> bool" where
  "stuck args s \<longleftrightarrow> (\<forall>t. \<not> pool_step args s t)"

definition deadlocked :: "CheckArgs \<Rightarrow> pool \<Rightarrow> bool" where
  "deadlocked args s \<longleftrightarrow> stuck args s \<and> \<not> crashed s \<and> (\<forall>rs. feeder_at s \<noteq> Finished rs)"

text \<open>\<open>Check\<close> as a whole: what it can return.\<close>

definition NodeChecker_may_return :: "CheckArgs \<Rightarrow> ClusterCheckResult list \<Rightarrow> bool" where
  "NodeChecker_may_return checkOpts rs \<longleftrightarrow>
     (case ListLinuxNodes (apiClient checkOpts) of
        Inl err \<Rightarrow>
          rs = [MakeClusterDegradedError CheckStatusOpenshiftAPIError
                  (Failure (''error listing node objects: '' @ err_msg err))]
      | Inr nodes \<Rightarrow>
          (\<exists>s. pool_reach checkOpts nodes s \<and> feeder_at s = Finished rs))"

subsection \<open>Case rules\<close>

inductive_cases pool_stepE: "pool_step args s t"

inductive_simps finished_step: "pool_step args (s\<lparr>feeder_at := Finished rs\<rparr>) t"

lemmas pool_intros = pool_step.intros

lemma list_update_cases:
  "w \<in> set (ws[i := v]) \<Longrightarrow> w = v \<or> w \<in> set ws"
  using set_update_subset_insert by fastforce

lemma checkOnNode_not_exited: "checkOnNode args n hs \<noteq> Exited"
proof -
  have "getVM_conns cs n u \<noteq> Exited" for cs u
    by (induction cs) (auto split: option.split sum.split)
  moreover have "getHost_loop cs h e \<noteq> Exited" for cs h e
    by (induction cs arbitrary: e) (auto split: option.split sum.split)
  ultimately show ?thesis
    by (auto simp: checkOnNode_def check_node_vm_def check_host_def getHost_def getVM_def Let_def
        elim!: obind_ExitedE split: option.splits sum.splits prod.splits if_splits)
qed

subsection \<open>Every run ends\<close>

text \<open>Each step lowers this weight, so no run is infinite.\<close>

fun worker_weight :: "worker \<Rightarrow> nat" where
  "worker_weight Receiving = 1"
| "worker_weight (Checking n) = 4"
| "worker_weight (Reporting r) = 2"
| "worker_weight Stopped = 0"

fun feeder_weight :: "feeder \<Rightarrow> nat" where
  "feeder_weight (Feeding ns) = 6 * length ns + 2"
| "feeder_weight (Sending n ns) = 6 * length ns + 7"
| "feeder_weight Waiting = 1"
| "feeder_weight (Finished rs) = 0"

definition pool_weight :: "pool \<Rightarrow> nat" where
  "pool_weight s = feeder_weight (feeder_at s) + 4 * length (chan s)
     + sum_list (map worker_weight (workers s)) + (if crashed s then 0 else 1)"

lemma sum_workers_update:
  fixes f :: "worker \<Rightarrow> nat"
  shows "i < length ws \<Longrightarrow>
     sum_list (map f (ws[i := w])) + f (ws ! i) = sum_list (map f ws) + f w"
proof (induction ws arbitrary: i)
  case (Cons v ws)
  then show ?case by (cases i) auto
qed simp

lemma worker_weight_after_check: "worker_weight (after_check r) \<le> 2"
  by (simp add: after_check_def)

lemma pool_step_weight: "pool_step args s t \<Longrightarrow> pool_weight t < pool_weight s"
proof (induction rule: pool_step.induct)
  case (receive s i n rest)
  then show ?case
    using sum_workers_update [of i "workers s" worker_weight "Checking n"] by (simp add: pool_weight_def)
next
  case (receive_closed s i)
  then show ?case
    using sum_workers_update [of i "workers s" worker_weight Stopped] by (simp add: pool_weight_def)
next
  case (check s i n r hosts')
  then show ?case
    using sum_workers_update [of i "workers s" worker_weight "after_check r"] worker_weight_after_check [of r]
    by (simp add: pool_weight_def)
next
  case (addResult s i r)
  then show ?case
    using sum_workers_update [of i "workers s" worker_weight Stopped] by (simp add: pool_weight_def)
qed (auto simp: pool_weight_def)

text \<open>A run is a chain of steps; its length is bounded by the weight of its first state.\<close>

fun pool_run :: "CheckArgs \<Rightarrow> pool \<Rightarrow> pool list \<Rightarrow> bool" where
  "pool_run args s [] = True"
| "pool_run args s (t # ts) = (pool_step args s t \<and> pool_run args t ts)"

lemma pool_run_bounded: "pool_run args s ts \<Longrightarrow> length ts \<le> pool_weight s"
proof (induction ts arbitrary: s)
  case (Cons t ts)
  then have "length ts \<le> pool_weight t" "pool_weight t < pool_weight s"
    by (auto dest: pool_step_weight)
  then show ?case by simp
qed simp

lemma pool_weight_createPool: "pool_weight (createPool nodes) = 6 * length nodes + 13"
  by (simp add: pool_weight_def createPool_def workerCount_def sum_list_replicate)

text \<open>
  C11: the worker pool always comes to rest: whatever the scheduler does and whatever the checks
  answer, a run over \<open>n\<close> nodes takes at most \<open>6 n + 13\<close> steps.
\<close>
theorem pool_terminates:
  assumes "pool_run args (createPool nodes) ts"
  shows "length ts \<le> 6 * length nodes + 13"
  using pool_run_bounded [OF assms] by (simp add: pool_weight_createPool)

subsection \<open>When the pool can be stuck\<close>

definition occurrences :: "(worker \<Rightarrow> bool) \<Rightarrow> pool \<Rightarrow> nat" where
  "occurrences P s = sum_list (map (\<lambda>w. if P w then 1 else 0) (workers s))"

fun is_checking :: "worker \<Rightarrow> bool" where
  "is_checking (Checking n) = True"
| "is_checking w = False"

fun is_reporting :: "worker \<Rightarrow> bool" where
  "is_reporting (Reporting r) = True"
| "is_reporting w = False"

abbreviation is_stopped :: "worker \<Rightarrow> bool" where
  "is_stopped w \<equiv> w = Stopped"

fun queued :: "feeder \<Rightarrow> Node list" where
  "queued (Feeding ns) = ns"
| "queued (Sending n ns) = n # ns"
| "queued Waiting = []"
| "queued (Finished rs) = []"

fun past_loop :: "feeder \<Rightarrow> bool" where
  "past_loop Waiting = True"
| "past_loop (Finished rs) = True"
| "past_loop f = False"

lemma occurrences_update:
  assumes "i < length (workers s)"
  shows "occurrences P (s\<lparr>workers := (workers s)[i := w]\<rparr>) + (if P (workers s ! i) then 1 else 0)
           = occurrences P s + (if P w then 1 else 0)"
  using sum_workers_update [OF assms, of "\<lambda>w. if P w then 1 else 0" w]
  by (simp add: occurrences_def)

text \<open>Node accounting: where the nodes handed to \<open>Check\<close> are.\<close>

definition pool_count_inv :: "Node list \<Rightarrow> pool \<Rightarrow> bool" where
  "pool_count_inv nodes s \<longleftrightarrow>
     length (workers s) = workerCount \<and> length (chan s) \<le> workerCount
     \<and> closed s = past_loop (feeder_at s)
     \<and> (\<not> closed s \<longrightarrow> occurrences is_stopped s = length (results s))
     \<and> length (results s) + occurrences is_reporting s \<le> length (handled s)
     \<and> length (queued (feeder_at s)) + length (chan s) + occurrences is_checking s
         + length (handled s) \<le> length nodes"

lemma pool_count_inv_start: "pool_count_inv nodes (createPool nodes)"
  by (simp add: pool_count_inv_def createPool_def occurrences_def sum_list_replicate)

lemma occurrences_frame [simp]:
  "occurrences P (s\<lparr>feeder_at := f\<rparr>) = occurrences P s"
  "occurrences P (s\<lparr>closed := b\<rparr>) = occurrences P s"
  "occurrences P (s\<lparr>chan := c\<rparr>) = occurrences P s"
  "occurrences P (s\<lparr>hosts := h\<rparr>) = occurrences P s"
  "occurrences P (s\<lparr>results := r\<rparr>) = occurrences P s"
  "occurrences P (s\<lparr>handled := d\<rparr>) = occurrences P s"
  "occurrences P (s\<lparr>crashed := b\<rparr>) = occurrences P s"
  by (simp_all add: occurrences_def)

lemma pool_count_inv_step:
  "pool_step args s t \<Longrightarrow> pool_count_inv nodes s \<Longrightarrow> pool_count_inv nodes t"
proof (induction rule: pool_step.induct)
  case (receive s i n rest)
  then show ?case
    using occurrences_update [of i s is_stopped "Checking n"]
      occurrences_update [of i s is_reporting "Checking n"]
      occurrences_update [of i s is_checking "Checking n"]
    by (simp add: pool_count_inv_def)
next
  case (receive_closed s i)
  then show ?case
    using occurrences_update [of i s is_stopped Stopped]
      occurrences_update [of i s is_reporting Stopped] occurrences_update [of i s is_checking Stopped]
    by (simp add: pool_count_inv_def)
next
  case (check s i n r hosts')
  then show ?case
    using occurrences_update [of i s is_stopped "after_check r"]
      occurrences_update [of i s is_reporting "after_check r"]
      occurrences_update [of i s is_checking "after_check r"]
    by (simp add: pool_count_inv_def after_check_def split: if_splits)
next
  case (addResult s i r)
  then show ?case
    using occurrences_update [of i s is_stopped Stopped]
      occurrences_update [of i s is_reporting Stopped] occurrences_update [of i s is_checking Stopped]
    by (simp add: pool_count_inv_def)
qed (auto simp: pool_count_inv_def)

lemma pool_reach_count_inv: "pool_reach args nodes s \<Longrightarrow> pool_count_inv nodes s"
  by (induction rule: pool_reach.induct)
    (auto intro: pool_count_inv_start pool_count_inv_step)

lemma all_stopped_count:
  "\<forall>w \<in> set (workers s). w = Stopped \<Longrightarrow> occurrences is_stopped s = length (workers s)"
proof -
  have "sum_list (map (\<lambda>w. if w = Stopped then 1 else 0) ws) = length ws"
    if "\<forall>w \<in> set ws. w = Stopped" for ws :: "worker list"
    using that by (induction ws) auto
  then show "\<forall>w \<in> set (workers s). w = Stopped \<Longrightarrow> ?thesis"
    by (simp add: occurrences_def)
qed

text \<open>The only way to be stuck: the feeder blocks on a full channel nobody reads any more.\<close>

lemma deadlocked_shape:
  assumes "deadlocked args s" and "pool_count_inv nodes s"
  obtains n ns where "feeder_at s = Sending n ns" and "length (chan s) = workerCount"
    and "\<forall>w \<in> set (workers s). w = Stopped"
proof -
  from assms(1) have stuck: "\<And>t. \<not> pool_step args s t" and run: "\<not> crashed s"
    and unfinished: "\<And>rs. feeder_at s \<noteq> Finished rs"
    by (auto simp: deadlocked_def stuck_def)
  note inv = assms(2) [unfolded pool_count_inv_def]
  have no_check: "w \<noteq> Checking n" if "w \<in> set (workers s)" for w n
    using that stuck run checkOnNode_not_exited
    by (metis (no_types, lifting) in_set_conv_nth outcome.exhaust pool_step.check
        pool_step.check_panic surj_pair)
  have no_report: "w \<noteq> Reporting r" if "w \<in> set (workers s)" for w r
    using that stuck run by (metis in_set_conv_nth pool_step.addResult)
  have recv: "chan s = [] \<and> \<not> closed s" if "Receiving \<in> set (workers s)"
    using that stuck run by (metis in_set_conv_nth neq_Nil_conv pool_step.receive pool_step.receive_closed)
  have all: "\<forall>w \<in> set (workers s). w = Stopped" if "closed s \<or> chan s \<noteq> []"
    using that no_check no_report recv by (metis worker.exhaust)
  show ?thesis
  proof (cases "feeder_at s")
    case (Feeding ns)
    then show ?thesis
      using stuck run by (metis neq_Nil_conv pool_step.addWork_accepted
          pool_step.addWork_refused pool_step.all_fed)
  next
    case (Sending n ns)
    then have "length (chan s) = workerCount"
      using stuck run inv by (metis le_neq_implies_less pool_step.send)
    moreover from this have "chan s \<noteq> []" by (auto simp: workerCount_def)
    ultimately show ?thesis using Sending all that by blast
  next
    case Waiting
    then have "closed s" using inv by simp
    then show ?thesis using all stuck run Waiting by (metis pool_step.work_finished)
  next
    case (Finished rs)
    then show ?thesis using unfinished by simp
  qed
qed

text \<open>
  C13: with at most twenty Linux nodes (workers plus channel capacity) the node check never
  deadlocks: every reachable state in which no goroutine can move is one where \<open>Check\<close> has
  returned or a worker has crashed the process.
\<close>
theorem pool_no_deadlock_small:
  assumes "pool_reach args nodes s" and "length nodes \<le> 2 * workerCount"
  shows "\<not> deadlocked args s"
proof
  assume d: "deadlocked args s"
  note inv = pool_reach_count_inv [OF assms(1)]
  obtain n ns where f: "feeder_at s = Sending n ns" and c: "length (chan s) = workerCount"
    and stop: "\<forall>w \<in> set (workers s). w = Stopped"
    by (rule deadlocked_shape [OF d inv])
  from all_stopped_count [OF stop] inv f have "length (results s) = workerCount"
    by (auto simp: pool_count_inv_def)
  with inv f c have "1 + workerCount + workerCount \<le> length nodes"
    by (simp add: pool_count_inv_def)
  with assms(2) show False by simp
qed

subsection \<open>The deadlock\<close>

text \<open>A state before any host was looked at.\<close>

definition phase ::
  "worker list \<Rightarrow> Node list \<Rightarrow> feeder \<Rightarrow> ClusterCheckResult list \<Rightarrow> Node list \<Rightarrow> pool" where
  "phase ws c f rs hs =
     \<lparr>workers = ws, chan = c, closed = False, hosts = [], results = rs, feeder_at = f,
      crashed = False, handled = hs\<rparr>"

lemma phase_addWork:
  "pool_reach args nodes (phase ws c (Feeding (n # ns)) [] hs) \<Longrightarrow>
     pool_reach args nodes (phase ws c (Sending n ns) [] hs)"
  by (erule pool_reach.step)
    (use pool_step.addWork_accepted [of "phase ws c (Feeding (n # ns)) [] hs"] in
      \<open>simp add: phase_def\<close>)

lemma phase_send:
  "pool_reach args nodes (phase ws c (Sending n ns) rs hs) \<Longrightarrow> length c < workerCount \<Longrightarrow>
     pool_reach args nodes (phase ws (c @ [n]) (Feeding ns) rs hs)"
  by (erule pool_reach.step)
    (use pool_step.send [of "phase ws c (Sending n ns) rs hs"] in \<open>simp add: phase_def\<close>)

lemma phase_receive:
  "pool_reach args nodes (phase ws (n # c) f rs hs) \<Longrightarrow> i < length ws \<Longrightarrow> ws ! i = Receiving \<Longrightarrow>
     pool_reach args nodes (phase (ws[i := Checking n]) c f rs hs)"
  by (erule pool_reach.step)
    (use pool_step.receive [of "phase ws (n # c) f rs hs"] in \<open>simp add: phase_def\<close>)

lemma phase_check:
  "pool_reach args nodes (phase ws c f rs hs) \<Longrightarrow> i < length ws \<Longrightarrow> ws ! i = Checking n \<Longrightarrow>
     check_node_vm args n = Returned (Inl r) \<Longrightarrow>
     pool_reach args nodes (phase (ws[i := Reporting r]) c f rs (n # hs))"
  by (erule pool_reach.step)
    (use pool_step.check [of "phase ws c f rs hs" i n args r "[]"] check_node_vm_failed [of args n r] in
      \<open>simp add: phase_def checkOnNode_def after_check_def\<close>)

lemma phase_addResult:
  "pool_reach args nodes (phase ws c f rs hs) \<Longrightarrow> i < length ws \<Longrightarrow> ws ! i = Reporting r \<Longrightarrow>
     pool_reach args nodes (phase (ws[i := Stopped]) c f (rs @ [r]) hs)"
  by (erule pool_reach.step)
    (use pool_step.addResult [of "phase ws c f rs hs"] in \<open>simp add: phase_def\<close>)

lemma update_first_of_tail:
  "length xs = i \<Longrightarrow> (xs @ y # ys)[i := z] = xs @ z # ys" "length xs = i \<Longrightarrow> (xs @ y # ys) ! i = y"
  by (auto simp: nth_append list_update_append)

lemma phase_busy:
  assumes "workerCount \<le> length nodes"
  shows "j \<le> workerCount \<Longrightarrow> pool_reach args nodes
     (phase (map Checking (take j nodes) @ replicate (workerCount - j) Receiving) []
        (Feeding (drop j nodes)) [] [])"
proof (induction j)
  case 0
  show ?case using pool_reach.start [of args nodes] by (simp add: createPool_def phase_def)
next
  case (Suc j)
  then have j: "j < workerCount" "j < length nodes" using assms by auto
  let ?ws = "map Checking (take j nodes) @ replicate (workerCount - j) Receiving"
  have ws: "?ws = map Checking (take j nodes) @ Receiving # replicate (workerCount - Suc j) Receiving"
    using j(1) by (simp add: Suc_diff_Suc flip: replicate_Suc)
  have "pool_reach args nodes (phase ?ws [nodes ! j] (Feeding (drop (Suc j) nodes)) [] [])"
    using phase_send [OF phase_addWork, of args nodes ?ws "[]" "nodes ! j" "drop (Suc j) nodes" "[]"]
      Suc j by (simp add: Cons_nth_drop_Suc workerCount_def)
  from phase_receive [OF this, of j] j show ?case
    by (simp add: ws update_first_of_tail take_Suc_conv_app_nth)
qed

lemma phase_full:
  assumes "2 * workerCount \<le> length nodes"
  shows "j \<le> workerCount \<Longrightarrow> pool_reach args nodes
     (phase (map Checking (take workerCount nodes)) (take j (drop workerCount nodes))
        (Feeding (drop (workerCount + j) nodes)) [] [])"
proof (induction j)
  case 0
  show ?case using phase_busy [of nodes workerCount args] assms by simp
next
  case (Suc j)
  then have j: "j < workerCount" "workerCount + j < length nodes" using assms by auto
  have t: "take (Suc j) (drop workerCount nodes) = take j (drop workerCount nodes) @ [nodes ! (workerCount + j)]"
    using j by (simp add: take_Suc_conv_app_nth)
  show ?case
    using phase_send [OF phase_addWork, of args nodes "map Checking (take workerCount nodes)"
        "take j (drop workerCount nodes)" "nodes ! (workerCount + j)" "drop (Suc (workerCount + j)) nodes" "[]"]
      Suc j by (simp add: Cons_nth_drop_Suc t)
qed

lemma phase_checked:
  assumes "pool_reach args nodes (phase (map Checking ns) c f [] hs)"
    and "\<forall>n \<in> set ns. check_node_vm args n = Returned (Inl (g n))"
  shows "j \<le> length ns \<Longrightarrow> \<exists>hs'. pool_reach args nodes
     (phase (map (\<lambda>n. Reporting (g n)) (take j ns) @ map Checking (drop j ns)) c f [] hs')"
proof (induction j)
  case 0
  show ?case using assms(1) by auto
next
  case (Suc j)
  then obtain hs' where r: "pool_reach args nodes
      (phase (map (\<lambda>n. Reporting (g n)) (take j ns) @ map Checking (drop j ns)) c f [] hs')"
    using Suc.IH [OF Suc_leD] by blast
  have d: "drop j ns = ns ! j # drop (Suc j) ns"
    using Suc by (simp add: Cons_nth_drop_Suc)
  from phase_check [OF r, of j "ns ! j" "g (ns ! j)"] assms(2) Suc.prems
  have "pool_reach args nodes (phase (map (\<lambda>n. Reporting (g n)) (take j ns) @ Reporting (g (ns ! j))
      # map Checking (drop (Suc j) ns)) c f [] (ns ! j # hs'))"
    by (simp add: d update_first_of_tail)
  moreover have "take (Suc j) ns = take j ns @ [ns ! j]"
    using Suc.prems by (simp add: take_Suc_conv_app_nth)
  ultimately show ?case by auto
qed

lemma phase_reported:
  assumes "pool_reach args nodes (phase (map Reporting rs) c f [] hs)"
  shows "j \<le> length rs \<Longrightarrow> pool_reach args nodes
     (phase (replicate j Stopped @ map Reporting (drop j rs)) c f (take j rs) hs)"
proof (induction j)
  case 0
  show ?case using assms by simp
next
  case (Suc j)
  have d: "drop j rs = rs ! j # drop (Suc j) rs"
    using Suc by (simp add: Cons_nth_drop_Suc)
  from phase_addResult [OF Suc.IH, of j "rs ! j"] Suc.prems show ?case
    by (simp add: d update_first_of_tail take_Suc_conv_app_nth replicate_append_same
        flip: replicate_Suc)
      (simp add: replicate_app_Cons_same)
qed

lemma blocked_phase_deadlocked:
  assumes "\<forall>w \<in> set ws. w = Stopped" and "length c = workerCount"
  shows "deadlocked args (phase ws c (Sending n ns) rs hs)"
proof -
  have "\<forall>i < length ws. ws ! i = Stopped"
    using assms(1) by (simp add: all_set_conv_all_nth)
  then have "\<not> pool_step args (phase ws c (Sending n ns) rs hs) t" for t
    using assms(2) by (auto elim!: pool_stepE simp: phase_def)
  then show ?thesis by (simp add: deadlocked_def stuck_def phase_def)
qed

text \<open>
  C12: with more than twenty Linux nodes the node check can hang for ever: if the checks of the
  first ten nodes fail (the vCenter API is down, say), there is a schedule in which the feeder
  blocks sending the twenty-first node while all ten workers have left on an error. Neither the
  context nor a timeout is consulted by the send.
\<close>
theorem pool_deadlock_reachable:
  assumes "2 * workerCount < length nodes"
    and "\<forall>n \<in> set (take workerCount nodes). check_node_vm args n = Returned (Inl (g n))"
  shows "\<exists>s. pool_reach args nodes s \<and> deadlocked args s"
proof -
  let ?ns = "take workerCount nodes" and ?c = "take workerCount (drop workerCount nodes)"
  let ?f = "Sending (nodes ! (2 * workerCount)) (drop (Suc (2 * workerCount)) nodes)"
  have len: "length ?ns = workerCount" "length ?c = workerCount" using assms(1) by auto
  have "pool_reach args nodes (phase (map Checking ?ns) ?c ?f [] [])"
    using phase_full [of nodes workerCount args] assms(1)
    by (auto intro!: phase_addWork simp: Cons_nth_drop_Suc mult_2)
  from phase_checked [OF this assms(2), of workerCount] obtain hs where
    "pool_reach args nodes (phase (map (\<lambda>n. Reporting (g n)) (take workerCount ?ns)
       @ map Checking (drop workerCount ?ns)) ?c ?f [] hs)"
    using len by (metis order_refl)
  then have "pool_reach args nodes (phase (map Reporting (map g ?ns)) ?c ?f [] hs)"
    using len by (simp add: comp_def)
  from phase_reported [OF this, of workerCount] len
  have "pool_reach args nodes (phase (replicate workerCount Stopped) ?c ?f (map g ?ns) hs)"
    by simp
  moreover have "deadlocked args (phase (replicate workerCount Stopped) ?c ?f (map g ?ns) hs)"
    using len(2) by (intro blocked_phase_deadlocked) auto
  ultimately show ?thesis by blast
qed

subsection \<open>What the check returns\<close>

text \<open>
  A failed result exists: recorded, or held by a worker on its way to \<open>addResult\<close>.
\<close>

definition failing :: "pool \<Rightarrow> bool" where
  "failing s \<longleftrightarrow> results s \<noteq> [] \<or> (\<exists>w \<in> set (workers s). is_reporting w)"

definition genuine :: "CheckArgs \<Rightarrow> Node list \<Rightarrow> ClusterCheckResult \<Rightarrow> bool" where
  "genuine args nodes r \<longleftrightarrow> CheckError r \<noteq> None \<and> (\<exists>n \<in> set nodes. full_check args n = Returned r)"

text \<open>Nothing is made up: work comes from the node list, failures from the checks of its nodes.\<close>

definition pool_source_inv :: "CheckArgs \<Rightarrow> Node list \<Rightarrow> pool \<Rightarrow> bool" where
  "pool_source_inv args nodes s \<longleftrightarrow>
     set (queued (feeder_at s)) \<subseteq> set nodes \<and> set (chan s) \<subseteq> set nodes
     \<and> (\<forall>n. Checking n \<in> set (workers s) \<longrightarrow> n \<in> set nodes)
     \<and> (\<forall>r \<in> set (results s). genuine args nodes r)
     \<and> (\<forall>r. Reporting r \<in> set (workers s) \<longrightarrow> genuine args nodes r)
     \<and> (crashed s \<longrightarrow> (\<exists>n \<in> set nodes. \<exists>m. full_check args n = Panicked m))"

text \<open>Nothing is lost: until something fails every node is somewhere, and was found good if handled.\<close>

definition pool_cover_inv :: "CheckArgs \<Rightarrow> Node list \<Rightarrow> pool \<Rightarrow> bool" where
  "pool_cover_inv args nodes s \<longleftrightarrow>
     (\<not> failing s \<longrightarrow>
        (\<forall>n \<in> set nodes. n \<in> set (queued (feeder_at s)) \<or> n \<in> set (chan s)
            \<or> Checking n \<in> set (workers s) \<or> n \<in> set (handled s))
        \<and> (\<forall>h \<in> set (hosts s). check_host args h = Returned MakeClusterCheckResultPass)
        \<and> (\<forall>n \<in> set (handled s). full_check args n = Returned MakeClusterCheckResultPass))
     \<and> (results s = [] \<longrightarrow> Stopped \<in> set (workers s) \<longrightarrow> chan s = [] \<and> past_loop (feeder_at s))
     \<and> closed s = past_loop (feeder_at s)
     \<and> (\<forall>rs. feeder_at s = Finished rs \<longrightarrow>
          rs = waitForWorkFinish s \<and> (\<forall>w \<in> set (workers s). w = Stopped))"

lemma checkOnNode_genuine:
  assumes "checkOnNode args n hs = Returned (r, hosts')" and "CheckError r \<noteq> None"
    and "n \<in> set nodes"
  shows "genuine args nodes r"
  using assms(1)
proof (cases rule: checkOnNode_cases)
  case vm
  then show ?thesis using assms by (auto simp: genuine_def dest: full_check_vm)
next
  case (seen h)
  then show ?thesis using assms(2) by (simp add: check_simps)
next
  case (host h)
  then show ?thesis using assms full_check_host by (fastforce simp: genuine_def)
qed

lemma checkOnNode_passed:
  assumes "checkOnNode args n hs = Returned (r, hosts')" and "CheckError r = None"
    and "\<forall>h \<in> set hs. check_host args h = Returned MakeClusterCheckResultPass"
  shows "full_check args n = Returned MakeClusterCheckResultPass"
    and "\<forall>h \<in> set hosts'. check_host args h = Returned MakeClusterCheckResultPass"
proof -
  have pass: "r = MakeClusterCheckResultPass"
    using checkOnNode_wf [OF assms(1)] assms(2) by (simp add: wf_result_def)
  from assms(1) have "full_check args n = Returned MakeClusterCheckResultPass \<and>
      (\<forall>h \<in> set hosts'. check_host args h = Returned MakeClusterCheckResultPass)"
  proof (cases rule: checkOnNode_cases)
    case vm
    then show ?thesis using assms(2) check_node_vm_failed by blast
  next
    case (seen h)
    then show ?thesis using assms(3) by (simp add: full_check_host)
  next
    case (host h)
    then show ?thesis using assms(3) pass by (simp add: full_check_host)
  qed
  then show "full_check args n = Returned MakeClusterCheckResultPass"
    and "\<forall>h \<in> set hosts'. check_host args h = Returned MakeClusterCheckResultPass" by auto
qed

lemma checkOnNode_panic:
  assumes "checkOnNode args n hs = Panicked m"
  shows "full_check args n = Panicked m"
proof (cases "check_node_vm args n")
  case (Returned v)
  with assms show ?thesis
    by (cases v)
      (auto simp: checkOnNode_def full_check_def obind_Panicked checkOrMarkHostForProcessing_def
        split: if_splits)
qed (use assms in \<open>auto simp: checkOnNode_def full_check_def\<close>)

lemma pool_source_inv_step:
  "pool_step args s t \<Longrightarrow> pool_source_inv args nodes s \<Longrightarrow> pool_source_inv args nodes t"
proof (induction rule: pool_step.induct)
  case (receive s i n rest)
  then show ?case by (auto simp: pool_source_inv_def dest!: list_update_cases)
next
  case (check s i n r hosts')
  then have n: "n \<in> set nodes" by (metis nth_mem pool_source_inv_def)
  show ?case
    using check checkOnNode_genuine [OF check(4) _ n]
    by (auto simp: pool_source_inv_def after_check_def dest!: list_update_cases split: if_splits)
next
  case (check_panic s i n m)
  then have "n \<in> set nodes" by (metis nth_mem pool_source_inv_def)
  moreover have "full_check args n = Panicked m"
    using check_panic(4) by (rule checkOnNode_panic)
  ultimately show ?case using check_panic(5) by (auto simp: pool_source_inv_def)
next
  case (addResult s i r)
  then have "genuine args nodes r" by (metis nth_mem pool_source_inv_def)
  then show ?case using addResult by (auto simp: pool_source_inv_def dest!: list_update_cases)
qed (auto simp: pool_source_inv_def dest!: list_update_cases)

text \<open>How a worker's step changes who checks, reports and has stopped.\<close>

lemma update_keeps: "w \<in> set ws \<Longrightarrow> ws ! i \<noteq> w \<Longrightarrow> w \<in> set (ws[i := v])"
  by (metis in_set_conv_nth length_list_update nth_list_update_neq)

lemma update_has: "i < length ws \<Longrightarrow> v \<in> set (ws[i := v])"
  by (simp add: set_update_memI)

lemma failing_update:
  assumes "\<not> is_reporting (workers s ! i)" and "failing s"
    and "results t = results s" and "workers t = (workers s)[i := w]"
  shows "failing t"
  using assms unfolding failing_def by (metis update_keeps)

lemma unfinished_while_running:
  "pool_cover_inv args nodes s \<Longrightarrow> i < length (workers s) \<Longrightarrow> workers s ! i \<noteq> Stopped \<Longrightarrow>
     feeder_at s \<noteq> Finished rs"
  by (auto simp: pool_cover_inv_def all_set_conv_all_nth)

lemma pool_cover_inv_step:
  "pool_step args s t \<Longrightarrow> pool_cover_inv args nodes s \<Longrightarrow> pool_cover_inv args nodes t"
proof (induction rule: pool_step.induct)
  case (receive s i n rest)
  let ?t = "s\<lparr>workers := (workers s)[i := Checking n], chan := rest\<rparr>"
  have was_ok: "\<not> failing ?t \<Longrightarrow> \<not> failing s"
    using failing_update [of s i ?t] receive by auto
  have keep: "Checking m \<in> set (workers s) \<Longrightarrow> Checking m \<in> set ((workers s)[i := Checking n])" for m
    using update_keeps [of _ "workers s" i] receive by auto
  have "Stopped \<in> set ((workers s)[i := Checking n]) \<Longrightarrow> Stopped \<in> set (workers s)"
    by (auto dest: list_update_cases)
  with receive was_ok keep update_has [of i "workers s" "Checking n"]
    unfinished_while_running [OF receive(5), of i] show ?case
    by (auto simp: pool_cover_inv_def)
next
  case (receive_closed s i)
  let ?t = "s\<lparr>workers := (workers s)[i := Stopped]\<rparr>"
  have was_ok: "\<not> failing ?t \<Longrightarrow> \<not> failing s"
    using failing_update [of s i ?t] receive_closed by auto
  have keep: "Checking m \<in> set (workers s) \<Longrightarrow> Checking m \<in> set ((workers s)[i := Stopped])" for m
    using update_keeps [of _ "workers s" i] receive_closed by auto
  show ?case
    using receive_closed was_ok keep unfinished_while_running [OF receive_closed(6), of i]
    by (auto simp: pool_cover_inv_def dest: list_update_cases)
next
  case (check s i n r hosts')
  let ?t = "s\<lparr>workers := (workers s)[i := after_check r], hosts := hosts', handled := n # handled s\<rparr>"
  have was_ok: "\<not> failing ?t \<Longrightarrow> \<not> failing s"
    using failing_update [of s i ?t] check by auto
  have ok: "\<not> failing ?t \<Longrightarrow> CheckError r = None"
    using check update_has [of i "workers s" "after_check r"]
    by (auto simp: failing_def after_check_def split: if_splits)
  have keep: "Checking m \<in> set (workers s) \<Longrightarrow> m \<noteq> n \<Longrightarrow>
      Checking m \<in> set ((workers s)[i := after_check r])" for m
    using update_keeps [of _ "workers s" i] check by auto
  have stop: "Stopped \<in> set ((workers s)[i := after_check r]) \<Longrightarrow> Stopped \<in> set (workers s)"
    by (auto dest!: list_update_cases simp: after_check_def split: if_splits)
  have fin: "feeder_at s \<noteq> Finished rs" for rs
    using check unfinished_while_running [OF check(5), of i] by simp
  show ?case
    unfolding pool_cover_inv_def
  proof (intro conjI impI)
    assume nf: "\<not> failing ?t"
    have hs: "\<forall>h \<in> set (hosts s). check_host args h = Returned MakeClusterCheckResultPass"
      using check(5) was_ok [OF nf] by (simp add: pool_cover_inv_def)
    note good = checkOnNode_passed [OF check(4) ok [OF nf] hs]
    show "\<forall>h \<in> set (hosts ?t). check_host args h = Returned MakeClusterCheckResultPass"
      using good(2) by simp
    show "\<forall>n \<in> set (handled ?t). full_check args n = Returned MakeClusterCheckResultPass"
      using good(1) check(5) was_ok [OF nf] by (simp add: pool_cover_inv_def)
    show "\<forall>n \<in> set nodes. n \<in> set (queued (feeder_at ?t)) \<or> n \<in> set (chan ?t)
        \<or> Checking n \<in> set (workers ?t) \<or> n \<in> set (handled ?t)"
      using check(5) was_ok [OF nf] keep by (auto simp: pool_cover_inv_def)
  qed (use check stop fin in \<open>auto simp: pool_cover_inv_def\<close>)
next
  case (addResult s i r)
  then have "feeder_at s \<noteq> Finished rs" for rs
    using unfinished_while_running [OF addResult(4), of i] by simp
  with addResult show ?case by (auto simp: pool_cover_inv_def failing_def)
qed (auto simp: pool_cover_inv_def failing_def waitForWorkFinish_def)

lemma pool_reach_invs:
  "pool_reach args nodes s \<Longrightarrow> pool_source_inv args nodes s \<and> pool_cover_inv args nodes s"
proof (induction rule: pool_reach.induct)
  case start
  show ?case
    by (auto simp: pool_source_inv_def pool_cover_inv_def createPool_def failing_def workerCount_def)
next
  case (step s t)
  then show ?case using pool_source_inv_step pool_cover_inv_step by blast
qed

lemma finished_results:
  assumes "pool_reach args nodes s" and "feeder_at s = Finished rs"
  shows "rs = [MakeClusterCheckResultPass] \<and>
           (\<forall>n \<in> set nodes. full_check args n = Returned MakeClusterCheckResultPass)
         \<or> rs \<noteq> [] \<and> (\<forall>r \<in> set rs. genuine args nodes r)"
proof -
  have src: "pool_source_inv args nodes s" and cov: "pool_cover_inv args nodes s"
    using pool_reach_invs [OF assms(1)] by auto
  have rs: "rs = waitForWorkFinish s" and stop: "\<forall>w \<in> set (workers s). w = Stopped"
    using cov assms(2) by (auto simp: pool_cover_inv_def)
  show ?thesis
  proof (cases "results s = []")
    case True
    have "length (workers s) = workerCount"
      using pool_reach_count_inv [OF assms(1)] by (simp add: pool_count_inv_def)
    with stop have "Stopped \<in> set (workers s)" by (cases "workers s") (auto simp: workerCount_def)
    moreover have "\<not> failing s" using True stop by (auto simp: failing_def)
    moreover have "Checking n \<notin> set (workers s)" for n using stop by auto
    ultimately have "\<forall>n \<in> set nodes. full_check args n = Returned MakeClusterCheckResultPass"
      using cov True assms(2) unfolding pool_cover_inv_def
      by (metis empty_iff list.set(1) queued.simps(4))
    with rs True show ?thesis by (simp add: waitForWorkFinish_def)
  next
    case False
    with rs src show ?thesis by (simp add: waitForWorkFinish_def pool_source_inv_def)
  qed
qed

text \<open>
  C9: the concurrent node check answers like the sequential one, whatever the schedule: it returns
  the single pass result exactly when every Linux node passes its own check (its virtual machine
  and its host), and otherwise it returns at least one result, each an error that checking some
  node on its own gives. Skipping a host another worker has already claimed loses no failure.
\<close>
theorem NodeChecker_correct:
  assumes "ListLinuxNodes (apiClient args) = Inr nodes" and "NodeChecker_may_return args rs"
  shows "(rs = [MakeClusterCheckResultPass]
            \<longleftrightarrow> (\<forall>n \<in> set nodes. full_check args n = Returned MakeClusterCheckResultPass))
         \<and> (rs \<noteq> [MakeClusterCheckResultPass] \<longrightarrow> rs \<noteq> [] \<and>
              (\<forall>r \<in> set rs. CheckError r \<noteq> None \<and> (\<exists>n \<in> set nodes. full_check args n = Returned r)))"
proof -
  obtain s where "pool_reach args nodes s" "feeder_at s = Finished rs"
    using assms by (auto simp: NodeChecker_may_return_def)
  note res = finished_results [OF this]
  have "\<not> genuine args nodes r"
    if "\<forall>n \<in> set nodes. full_check args n = Returned MakeClusterCheckResultPass" for r
    using that by (auto simp: genuine_def check_simps)
  then have "\<not> (rs \<noteq> [] \<and> (\<forall>r \<in> set rs. genuine args nodes r))"
    if "\<forall>n \<in> set nodes. full_check args n = Returned MakeClusterCheckResultPass"
    using that by (metis list.set_intros(1) neq_Nil_conv)
  moreover have "\<not> genuine args nodes MakeClusterCheckResultPass"
    by (simp add: genuine_def check_simps)
  then have "rs \<noteq> [MakeClusterCheckResultPass]" if "\<forall>r \<in> set rs. genuine args nodes r"
    using that by auto
  ultimately show ?thesis using res unfolding genuine_def by blast
qed

lemma NodeChecker_wf:
  assumes "NodeChecker_may_return args rs" and "r \<in> set rs"
  shows "wf_result r"
proof (cases "ListLinuxNodes (apiClient args)")
  case (Inl e)
  with assms show ?thesis by (auto simp: NodeChecker_may_return_def)
next
  case (Inr nodes)
  then obtain s where "pool_reach args nodes s" "feeder_at s = Finished rs"
    using assms(1) by (auto simp: NodeChecker_may_return_def)
  from finished_results [OF this] assms(2) show ?thesis
    by (auto simp: genuine_def dest: full_check_wf)
qed

interpretation node_check: cluster_check NodeChecker_may_return
  by unfold_locales (rule NodeChecker_wf)

subsection \<open>The check does return\<close>

lemma reach_quiet:
  assumes "pool_reach args nodes s"
  shows "\<exists>t. pool_reach args nodes t \<and> stuck args t"
  using assms
proof (induction s rule: measure_induct_rule [where f = pool_weight])
  case (less s)
  show ?case
  proof (cases "stuck args s")
    case False
    then obtain t where "pool_step args s t" by (auto simp: stuck_def)
    then show ?thesis using less pool_step_weight pool_reach.step by metis
  qed (use less in blast)
qed

lemma quiet_is_finished:
  assumes "length nodes \<le> 2 * workerCount"
    and "\<forall>n \<in> set nodes. \<forall>m. full_check args n \<noteq> Panicked m"
    and s: "pool_reach args nodes s" "stuck args s"
  shows "\<exists>rs. feeder_at s = Finished rs"
proof (rule ccontr)
  assume "\<nexists>rs. feeder_at s = Finished rs"
  moreover have "\<not> crashed s"
    using pool_reach_invs [OF s(1)] assms(2) by (auto simp: pool_source_inv_def)
  ultimately have d: "deadlocked args s" using s(2) by (auto simp: deadlocked_def)
  have c: "pool_count_inv nodes s" by (rule pool_reach_count_inv [OF s(1)])
  from deadlocked_shape [OF d c] obtain n ns where f: "feeder_at s = Sending n ns"
    and q: "length (chan s) = workerCount" and stop: "\<forall>w \<in> set (workers s). w = Stopped" by metis
  have "length (results s) = workerCount"
    using all_stopped_count [OF stop] c f by (auto simp: pool_count_inv_def)
  with c f q assms(1) show False by (simp add: pool_count_inv_def)
qed

lemma NodeChecker_has_result:
  assumes "ListLinuxNodes (apiClient args) = Inr nodes" and "length nodes \<le> 2 * workerCount"
    and "\<forall>n \<in> set nodes. \<forall>m. full_check args n \<noteq> Panicked m"
  shows "\<exists>rs. NodeChecker_may_return args rs"
  using reach_quiet [OF pool_reach.start [of args nodes]] quiet_is_finished [OF assms(2,3)]
  unfolding NodeChecker_may_return_def assms(1) sum.case by blast

text \<open>
  C10: with at most twenty Linux nodes, none of whose checks panics, the node check can always run
  to its end, and a run that stops anywhere else does not exist: it returns.
\<close>
theorem NodeChecker_returns:
  assumes "ListLinuxNodes (apiClient args) = Inr nodes" and "length nodes \<le> 2 * workerCount"
    and "\<forall>n \<in> set nodes. \<forall>m. full_check args n \<noteq> Panicked m"
  shows "(\<exists>rs. NodeChecker_may_return args rs)
         \<and> (\<forall>s. pool_reach args nodes s \<longrightarrow> stuck args s \<longrightarrow> (\<exists>rs. feeder_at s = Finished rs))"
  using NodeChecker_has_result [OF assms] quiet_is_finished [OF assms(2,3)] by blast

subsection \<open>Witnesses\<close>

definition two_nodes :: "Node list" where
  "two_nodes = [good_node ''a'', good_node ''b'']"

lemma two_nodes_listed: "ListLinuxNodes (apiClient (example_args two_nodes)) = Inr two_nodes"
  by (simp add: ListLinuxNodes_def example_defs two_nodes_def linux_node_def)

lemma two_nodes_pass:
  "\<forall>n \<in> set two_nodes. full_check (example_args two_nodes) n = Returned MakeClusterCheckResultPass"
  by (simp add: two_nodes_def good_node_passes)

theorem NodeChecker_returns_witness:
  "\<exists>rs. NodeChecker_may_return (example_args two_nodes) rs"
proof -
  have "length two_nodes \<le> 2 * workerCount" by (simp add: two_nodes_def workerCount_def)
  with NodeChecker_returns [OF two_nodes_listed] two_nodes_pass show ?thesis by simp
qed

theorem NodeChecker_correct_witness:
  "\<exists>rs. NodeChecker_may_return (example_args two_nodes) rs \<and> rs = [MakeClusterCheckResultPass]"
proof -
  have "length two_nodes \<le> 2 * workerCount" by (simp add: two_nodes_def workerCount_def)
  then obtain rs where rs: "NodeChecker_may_return (example_args two_nodes) rs"
    using NodeChecker_has_result [OF two_nodes_listed] two_nodes_pass by auto
  from NodeChecker_correct [OF two_nodes_listed rs] two_nodes_pass
  have "rs = [MakeClusterCheckResultPass]" by blast
  with rs show ?thesis by blast
qed

theorem pool_terminates_witness:
  "length [(createPool [])\<lparr>feeder_at := Waiting, closed := True\<rparr>] \<le> 6 * length ([] :: Node list) + 13"
proof (rule pool_terminates [where args = "example_args []"])
  show "pool_run (example_args []) (createPool []) [(createPool [])\<lparr>feeder_at := Waiting, closed := True\<rparr>]"
    using pool_step.all_fed [of "createPool []" "example_args []"] by (simp add: createPool_def)
qed

theorem pool_no_deadlock_small_witness:
  "\<not> deadlocked (example_args two_nodes) (createPool two_nodes)"
  using pool_no_deadlock_small [OF pool_reach.start, of two_nodes]
  by (simp add: two_nodes_def workerCount_def)

theorem pool_deadlock_reachable_witness:
  "\<exists>s. pool_reach (example_args []) (replicate 21 (foreign_node ''a'')) s
       \<and> deadlocked (example_args []) s"
proof -
  obtain e where "check_node_vm (example_args []) (foreign_node ''a'') =
      Returned (Inl (MakeClusterDegradedError CheckStatusNonVSphereNode e))"
    using foreign_node_fails by blast
  then show ?thesis
    by (intro pool_deadlock_reachable
        [where g = "\<lambda>n. MakeClusterDegradedError CheckStatusNonVSphereNode e"])
      (simp_all add: workerCount_def)
qed

end
