(* ===== verification/Env_Checker.thy ===== *)
theory Env_Checker
  imports Node_Pool
begin

text \<open>
  \<open>vspherecontroller/vsphere_environment_checker.go\<close> and the exponential backoff it uses
  (\<open>Backoff.Step\<close> and \<open>delay\<close> of \<open>k8s.io/apimachinery/pkg/util/wait\<close>). Times and durations are
  nanoseconds. \<open>time.Now()\<close> and the random part of the jitter are arguments; the factor is a
  whole number here, and the products stay far below \<open>2^53\<close>, where \<open>float64\<close> is exact.
\<close>

subsection \<open>Backoff\<close>

definition minute :: int where
  "minute = 60 * 1000000000"

definition hour :: int where
  "hour = 60 * minute"

record Backoff =
  Duration :: int
  Factor :: int
  Jitter_on :: bool \<comment> \<open>\<open>Jitter > 0\<close>\<close>
  Steps :: int
  Cap :: int

text \<open>\<open>Jitter(duration, jitter)\<close>: \<open>extra duration\<close> is the random amount added.\<close>

definition Jitter :: "(int \<Rightarrow> int) \<Rightarrow> int \<Rightarrow> int" where
  "Jitter extra duration = duration + extra duration"

definition delay ::
  "(int \<Rightarrow> int) \<Rightarrow> int \<Rightarrow> int \<Rightarrow> int \<Rightarrow> int \<Rightarrow> bool \<Rightarrow> int \<times> int \<times> int" where
  "delay extra steps duration cap factor jitter =
     (if steps < 1 then
        if jitter then (Jitter extra duration, duration, 0) else (duration, duration, 0)
      else
        (let steps1 = steps - 1;
             (nxt, steps2) =
               (if factor \<noteq> 0 then
                  (if 0 < cap \<and> cap < duration * factor then (cap, 0) else (duration * factor, steps1))
                else (duration, steps1))
         in (if jitter then Jitter extra duration else duration, nxt, steps2)))"

definition Step :: "(int \<Rightarrow> int) \<Rightarrow> Backoff \<Rightarrow> int \<times> Backoff" where
  "Step extra b =
     (let (nextDuration, d, s) = delay extra (Steps b) (Duration b) (Cap b) (Factor b) (Jitter_on b)
      in (nextDuration, b\<lparr>Duration := d, Steps := s\<rparr>))"

definition defaultBackoff :: Backoff where
  "defaultBackoff = \<lparr>Duration = minute, Factor = 2, Jitter_on = True, Steps = 2147483647, Cap = hour\<rparr>"

subsection \<open>The composite checker\<close>

record EnvChecker =
  backoff :: Backoff
  nextCheck :: int
  lastCheck :: int

definition newVSphereEnvironmentChecker :: "int \<Rightarrow> EnvChecker" where
  "newVSphereEnvironmentChecker now =
     \<lparr>backoff = defaultBackoff, nextCheck = now, lastCheck = 0\<rparr>"

definition ResetExpBackoff :: "int \<Rightarrow> EnvChecker \<Rightarrow> EnvChecker" where
  "ResetExpBackoff now v = v\<lparr>nextCheck := now, backoff := defaultBackoff\<rparr>"

text \<open>The zero value of \<open>ClusterCheckResult\<close>; an unset action is \<open>CheckActionPass\<close>.\<close>

definition zero_result :: ClusterCheckResult where
  "zero_result =
     \<lparr>CheckError = None, CheckStatus = CheckStatusUnset, Action = CheckActionPass, Reason = []\<rparr>"

definition overall_result :: "ClusterCheckResult list \<Rightarrow> ClusterCheckResult" where
  "overall_result allChecks =
     foldl (\<lambda>overall r. if Action overall \<le> Action r then r else overall) zero_result allChecks"

text \<open>
  \<open>Check\<close>, given the clock at its guard and at \<open>lastCheck\<close>, and the results the checkers
  return in this run.
\<close>

definition Check ::
  "int \<Rightarrow> int \<Rightarrow> (int \<Rightarrow> int) \<Rightarrow> ClusterCheckResult list \<Rightarrow> EnvChecker
     \<Rightarrow> (int \<times> ClusterCheckResult \<times> bool) \<times> EnvChecker" where
  "Check now now' extra allChecks v =
     (if \<not> nextCheck v < now then ((0, zero_result, False), v)
      else
        (let (nextErrorDelay, b) = Step extra (backoff v);
             v1 = v\<lparr>backoff := b, lastCheck := now'\<rparr>;
             overallResult = overall_result allChecks
         in if CheckActionPass < Action overallResult
            then ((nextErrorDelay, overallResult, True),
                  v1\<lparr>nextCheck := now' + nextErrorDelay\<rparr>)
            else ((Cap defaultBackoff, MakeClusterCheckResultPass, True),
                  v1\<lparr>backoff := defaultBackoff, nextCheck := now' + Cap defaultBackoff\<rparr>)))"

text \<open>The loop over the three checkers of \<open>newVSphereEnvironmentChecker\<close>.\<close>

definition checkers_may_return :: "CheckArgs \<Rightarrow> ClusterCheckResult list \<Rightarrow> bool" where
  "checkers_may_return checkOpts allChecks \<longleftrightarrow>
     (\<exists>vcenter nodes. VCenterChecker_Check checkOpts = Returned vcenter
        \<and> NodeChecker_may_return checkOpts nodes
        \<and> allChecks = CheckExistingDriver_Check checkOpts @ vcenter @ nodes)"

lemma checkers_wf:
  assumes "checkers_may_return args rs" and "r \<in> set rs"
  shows "wf_result r"
  using assms existing_driver_check.results_wf vcenter_check.results_wf node_check.results_wf
  by (auto simp: checkers_may_return_def)

interpretation env_check: cluster_check checkers_may_return
  by unfold_locales (rule checkers_wf)

subsection \<open>The overall result\<close>

lemma overall_result_snoc:
  "overall_result (rs @ [r]) =
     (if Action (overall_result rs) \<le> Action r then r else overall_result rs)"
  by (simp add: overall_result_def)

lemma overall_result_max: "r \<in> set rs \<Longrightarrow> Action r \<le> Action (overall_result rs)"
proof (induction rs rule: rev_induct)
  case (snoc x rs)
  then show ?case by (auto simp: overall_result_snoc)
qed simp

lemma overall_result_last:
  "rs \<noteq> [] \<Longrightarrow>
     \<exists>front rear. rs = front @ overall_result rs # rear
        \<and> (\<forall>r \<in> set rear. Action r < Action (overall_result rs))"
proof (induction rs rule: rev_induct)
  case (snoc x rs)
  show ?case
  proof (cases "Action (overall_result rs) \<le> Action x")
    case True
    then show ?thesis by (intro exI [of _ rs] exI [of _ "[]"]) (simp add: overall_result_snoc)
  next
    case False
    then have "rs \<noteq> []" by (auto simp: overall_result_def zero_result_def)
    with snoc.IH obtain front rear where
      rs: "rs = front @ overall_result rs # rear" and
      less: "\<forall>r \<in> set rear. Action r < Action (overall_result rs)"
      by auto
    have same: "overall_result (rs @ [x]) = overall_result rs"
      using False by (simp add: overall_result_snoc)
    have "rs @ [x] = front @ overall_result rs # (rear @ [x])"
      by (metis rs append.assoc append_Cons)
    moreover have "\<forall>r \<in> set (rear @ [x]). Action r < Action (overall_result rs)"
      using False less by auto
    ultimately show ?thesis unfolding same by blast
  qed
qed simp

text \<open>Only "degrade" ranks above "block upgrade or degrade".\<close>

lemma overall_result_masked:
  assumes "r \<in> set rs" and "Action r = CheckActionBlockUpgradeOrDegrade"
    and "\<forall>r \<in> set rs. Action r \<noteq> CheckActionDegrade"
  shows "Action (overall_result rs) = CheckActionBlockUpgradeOrDegrade" "overall_result rs \<in> set rs"
proof -
  have "rs \<noteq> []" using assms(1) by auto
  then show mem: "overall_result rs \<in> set rs"
    using overall_result_last [of rs] by (metis in_set_conv_decomp)
  then have "Action (overall_result rs) \<noteq> CheckActionDegrade" using assms(3) by blast
  then show "Action (overall_result rs) = CheckActionBlockUpgradeOrDegrade"
    using overall_result_max [OF assms(1)] assms(2)
    by (cases "Action (overall_result rs)") (simp_all add: less_eq_CheckAction_def)
qed

text \<open>
  The composite reports the most severe result of its checkers, the last one among equals: no
  result is more severe than the overall one, and every result after it is strictly less severe.
\<close>
theorem overall_result_most_severe:
  assumes "rs \<noteq> []"
  shows "\<exists>front rear. rs = front @ overall_result rs # rear
      \<and> (\<forall>r \<in> set front. Action r \<le> Action (overall_result rs))
      \<and> (\<forall>r \<in> set rear. Action r < Action (overall_result rs))"
proof -
  obtain front rear where split: "rs = front @ overall_result rs # rear"
    "\<forall>r \<in> set rear. Action r < Action (overall_result rs)"
    using overall_result_last [OF assms] by blast
  moreover have "\<forall>r \<in> set front. Action r \<le> Action (overall_result rs)"
  proof
    fix r assume "r \<in> set front"
    then have "r \<in> set rs" by (subst split(1)) simp
    then show "Action r \<le> Action (overall_result rs)" by (rule overall_result_max)
  qed
  ultimately show ?thesis by blast
qed

theorem overall_result_most_severe_witness:
  "\<exists>front rear. [MakeClusterUnupgradeableError CheckStatusDeprecatedVCenter (Failure ''a''),
        MakeClusterDegradedError CheckStatusNonVSphereNode (Failure ''b''), MakeClusterCheckResultPass]
      = front @ MakeClusterDegradedError CheckStatusNonVSphereNode (Failure ''b'') # rear"
proof -
  let ?rs = "[MakeClusterUnupgradeableError CheckStatusDeprecatedVCenter (Failure ''a''),
        MakeClusterDegradedError CheckStatusNonVSphereNode (Failure ''b''), MakeClusterCheckResultPass]"
  have "overall_result ?rs = MakeClusterDegradedError CheckStatusNonVSphereNode (Failure ''b'')"
    by (simp add: overall_result_def zero_result_def check_simps action_order)
  then show ?thesis using overall_result_most_severe [of ?rs] by auto
qed

subsection \<open>The schedule of the checks\<close>

text \<open>The backoff after \<open>n\<close> failed checks in a row.\<close>

fun backoff_after :: "nat \<Rightarrow> Backoff" where
  "backoff_after 0 = defaultBackoff"
| "backoff_after (Suc n) = snd (Step (\<lambda>d. 0) (backoff_after n))"

lemma Step_extra: "snd (Step extra b) = snd (Step (\<lambda>d. 0) b)"
  by (simp add: Step_def delay_def Let_def split: prod.split)

lemma backoff_small:
  "n \<le> 5 \<Longrightarrow> backoff_after n = defaultBackoff\<lparr>Duration := 2 ^ n * minute, Steps := 2147483647 - int n\<rparr>"
proof (induction n)
  case 0
  show ?case by (simp add: defaultBackoff_def)
next
  case (Suc n)
  then have "n \<in> {0, 1, 2, 3, 4}" by auto
  with Suc show ?case
    by (auto simp: Step_def delay_def defaultBackoff_def minute_def hour_def)
qed

lemma backoff_capped: "backoff_after (6 + n) = defaultBackoff\<lparr>Duration := hour, Steps := 0\<rparr>"
proof (induction n)
  case 0
  have "backoff_after 6 = snd (Step (\<lambda>d. 0) (backoff_after 5))"
    by (simp add: numeral_eq_Suc)
  then show ?case
    using backoff_small [of 5]
    by (simp add: Step_def delay_def defaultBackoff_def minute_def hour_def)
next
  case (Suc n)
  then have "backoff_after (Suc (6 + n)) = defaultBackoff\<lparr>Duration := hour, Steps := 0\<rparr>"
    by (simp only: backoff_after.simps) (simp add: Step_def delay_def defaultBackoff_def)
  then show ?case by simp
qed

lemma backoff_duration: "Duration (backoff_after n) = min (2 ^ n * minute) hour"
proof (cases "n \<le> 5")
  case True
  then have "n \<in> {0, 1, 2, 3, 4, 5}" by auto
  with backoff_small [OF True] show ?thesis by (auto simp: minute_def hour_def)
next
  case False
  then obtain k where n: "n = 6 + k" using le_Suc_ex [of 6 n] by auto
  have "(2 :: int) ^ 6 \<le> 2 ^ n" unfolding n by (rule power_increasing) auto
  then have "hour \<le> 2 ^ n * minute" by (simp add: hour_def minute_def)
  then show ?thesis by (simp add: n backoff_capped)
qed

lemma backoff_fixed [simp]: "Jitter_on (backoff_after n)" "Cap (backoff_after n) = hour"
  "Factor (backoff_after n) = 2"
  by (induction n) (simp_all add: Step_def delay_def defaultBackoff_def Let_def split: prod.split)

lemma Step_after:
  "Step extra (backoff_after n) =
     (min (2 ^ n * minute) hour + extra (min (2 ^ n * minute) hour), backoff_after (Suc n))"
proof -
  have "fst (Step extra b) = Duration b + extra (Duration b)" if "Jitter_on b" for b
    using that by (simp add: Step_def delay_def Jitter_def Let_def split: prod.split)
  moreover have "snd (Step extra (backoff_after n)) = backoff_after (Suc n)"
    using Step_extra [of extra "backoff_after n"] by simp
  ultimately show ?thesis by (simp add: prod_eq_iff backoff_duration)
qed

definition base_delay :: "nat \<Rightarrow> int" where
  "base_delay n = min (2 ^ n * minute) hour"

lemma Step_base: "Step extra (backoff_after n) =
    (base_delay n + extra (base_delay n), backoff_after (Suc n))"
  by (simp only: Step_after base_delay_def)

lemma Check_failed:
  assumes "backoff v = backoff_after n" and "nextCheck v < now"
    and "Action (overall_result rs) \<noteq> CheckActionPass"
  shows "Check now now' extra rs v =
      ((base_delay n + extra (base_delay n), overall_result rs, True),
       v\<lparr>backoff := backoff_after (Suc n), lastCheck := now',
          nextCheck := now' + (base_delay n + extra (base_delay n))\<rparr>)"
  using assms by (simp add: Check_def Step_base Let_def del: backoff_after.simps(2))

lemma Check_early: "t \<le> nextCheck v \<Longrightarrow> Check t t' e rs v = ((0, zero_result, False), v)"
  by (simp add: Check_def)

text \<open>
  Exponential backoff of the checks. The check that fails after \<open>n\<close> failures in a row asks for
  the next one after \<open>2^n\<close> minutes, one hour at most (plus jitter), and until that time is over
  every call of \<open>Check\<close> returns at once with \<open>false\<close> and changes nothing.
\<close>
theorem failed_check_backs_off:
  assumes "backoff v = backoff_after n" and "nextCheck v < now"
    and "Action (overall_result rs) \<noteq> CheckActionPass"
    and "Check now now' extra rs v = (answer, v')"
  shows "answer = (base_delay n + extra (base_delay n), overall_result rs, True)
     \<and> base_delay n = min (2 ^ n * minute) hour
     \<and> backoff v' = backoff_after (Suc n)
     \<and> (\<forall>t t' e rs'. t \<le> now' + (base_delay n + extra (base_delay n)) \<longrightarrow>
          Check t t' e rs' v' = ((0, zero_result, False), v'))"
  using assms(4) Check_early [of _ v']
  by (auto simp: Check_failed [OF assms(1-3)] base_delay_def simp del: backoff_after.simps(2))

text \<open>
  A passing run resets the backoff, answers with the pass result and asks for the next check
  in an hour; \<open>ResetExpBackoff\<close> makes the next call run at any later time, with the delays
  starting again at one minute.
\<close>
theorem passed_check_resets:
  assumes "nextCheck v < now" and "Action (overall_result rs) = CheckActionPass"
  shows "Check now now' extra rs v =
      ((hour, MakeClusterCheckResultPass, True),
       \<lparr>backoff = backoff_after 0, nextCheck = now' + hour, lastCheck = now'\<rparr>)
     \<and> (\<forall>w t. nextCheck (ResetExpBackoff t w) = t \<and> backoff (ResetExpBackoff t w) = backoff_after 0)"
  using assms by (simp add: Check_def ResetExpBackoff_def defaultBackoff_def Let_def split: prod.split)

text \<open>The life of the checker: any sequence of checks and resets; jitter adds at most one percent.\<close>

definition fair_jitter :: "(int \<Rightarrow> int) \<Rightarrow> bool" where
  "fair_jitter extra \<longleftrightarrow> (\<forall>d. 0 \<le> d \<longrightarrow> 0 \<le> extra d \<and> extra d \<le> d div 100)"

inductive env_reach :: "EnvChecker \<Rightarrow> bool" where
  new: "env_reach (newVSphereEnvironmentChecker now)"
| check: "env_reach v \<Longrightarrow> env_reach (snd (Check now now' extra rs v))"
| reset: "env_reach v \<Longrightarrow> env_reach (ResetExpBackoff now v)"

lemma env_reach_backoff: "env_reach v \<Longrightarrow> \<exists>n. backoff v = backoff_after n"
proof (induction rule: env_reach.induct)
  case (new now)
  show ?case by (rule exI [of _ 0]) (simp add: newVSphereEnvironmentChecker_def)
next
  case (check v now now' extra rs)
  then obtain n where n: "backoff v = backoff_after n" by blast
  have "backoff (snd (Check now now' extra rs v)) \<in> {backoff_after n, backoff_after (Suc n), backoff_after 0}"
    using n by (simp add: Check_def Step_after Let_def del: backoff_after.simps(2))
  then show ?case by blast
next
  case (reset v now)
  show ?case by (rule exI [of _ 0]) (simp add: ResetExpBackoff_def)
qed

text \<open>
  C21: whatever checks and resets came before, a check that runs asks for the next one no sooner
  than in a minute and no later than in an hour and its one percent of jitter; the cap is applied
  before the jitter, so it can be exceeded by that percent.
\<close>
theorem check_delay_bounds:
  assumes "env_reach v" and "fair_jitter extra"
    and "Check now now' extra rs v = ((d, result, True), v')"
  shows "minute \<le> d \<and> d \<le> hour + hour div 100 \<and> nextCheck v' = now' + d \<and> lastCheck v' = now'"
proof -
  obtain n where n: "backoff v = backoff_after n" using env_reach_backoff [OF assms(1)] by blast
  define m where "m = min (2 ^ n * minute) hour"
  have "(1 :: int) \<le> 2 ^ n" by simp
  then have "minute \<le> 2 ^ n * minute" by (simp add: minute_def)
  then have m: "minute \<le> m" "m \<le> hour" "0 \<le> m" by (auto simp: hour_def minute_def m_def)
  with assms(2) have j: "0 \<le> extra m" "extra m \<le> m div 100" by (auto simp: fair_jitter_def)
  have "m div 100 \<le> hour div 100" using m(2) by (rule zdiv_mono1) simp
  with m j have fine: "minute \<le> m + extra m" "m + extra m \<le> hour + hour div 100" by linarith+
  have cap: "minute \<le> hour" "0 \<le> hour div 100" by (simp_all add: hour_def minute_def)
  have step: "Step extra (backoff v) = (m + extra m, backoff_after (Suc n))"
    by (simp add: n Step_after m_def del: backoff_after.simps(2))
  show ?thesis
  proof (cases "CheckActionPass < Action (overall_result rs)")
    case True
    with assms(3) fine show ?thesis
      by (auto simp: Check_def step Let_def simp del: backoff_after.simps(2) split: if_splits)
  next
    case False
    then have "d = hour" "nextCheck v' = now' + hour" "lastCheck v' = now'"
      using assms(3)
      by (auto simp: Check_def step Let_def defaultBackoff_def simp del: backoff_after.simps(2)
          split: if_splits)
    with cap show ?thesis by simp
  qed
qed

subsection \<open>Witnesses\<close>

definition bad_result :: ClusterCheckResult where
  "bad_result = MakeClusterDegradedError CheckStatusNonVSphereNode (Failure ''b'')"

lemma bad_result_overall: "overall_result [bad_result] = bad_result" "Action bad_result \<noteq> CheckActionPass"
  by (simp_all add: overall_result_def bad_result_def zero_result_def check_simps)

definition fresh :: EnvChecker where
  "fresh = newVSphereEnvironmentChecker 0"

lemma fresh_backoff: "backoff fresh = backoff_after 0" "nextCheck fresh < 1"
  by (simp_all add: fresh_def newVSphereEnvironmentChecker_def)

theorem failed_check_backs_off_witness:
  "fst (Check 1 2 (\<lambda>d. 0) [bad_result] fresh) = (minute, bad_result, True)"
proof -
  obtain answer v' where c: "Check 1 2 (\<lambda>d. 0) [bad_result] fresh = (answer, v')" by fastforce
  from failed_check_backs_off [OF fresh_backoff _ c] bad_result_overall c show ?thesis
    by (simp add: base_delay_def minute_def hour_def)
qed

theorem passed_check_resets_witness:
  "fst (Check 1 2 (\<lambda>d. 0) [MakeClusterCheckResultPass] fresh) = (hour, MakeClusterCheckResultPass, True)"
  using passed_check_resets [of fresh 1 "[MakeClusterCheckResultPass]" 2 "\<lambda>d. 0"]
  by (simp add: fresh_def newVSphereEnvironmentChecker_def overall_result_def zero_result_def check_simps)

theorem check_delay_bounds_witness:
  "minute \<le> fst (fst (Check 1 2 (\<lambda>d. d div 100) [bad_result] fresh))"
proof -
  have "env_reach fresh" by (simp add: fresh_def env_reach.new)
  moreover have "fair_jitter (\<lambda>d. d div 100)" by (simp add: fair_jitter_def pos_imp_zdiv_nonneg_iff)
  moreover obtain d v' where c: "Check 1 2 (\<lambda>d. d div 100) [bad_result] fresh = ((d, bad_result, True), v')"
    using Check_failed [OF fresh_backoff, of "[bad_result]"] bad_result_overall by metis
  ultimately show ?thesis using check_delay_bounds [of fresh "\<lambda>d. d div 100" 1 2] by (metis fst_conv)
qed

end
