(* ===== verification/Sc_Controller.thy ===== *)
theory Sc_Controller
  imports Storage_Policy Conditions Env_Checker
begin

text \<open>
  \<open>storageclasscontroller/storageclasscontroller.go\<close> and the storage class helpers of library-go it
  calls (\<open>csi_storageclass_controller.go\<close>): the storage policies of all vCenters are synced first,
  then the StorageClass is applied, left alone or deleted, then the controller's two conditions are
  written. The manifest reader and the API server are parameters.
\<close>

subsection \<open>Storage classes\<close>

record StorageClass =
  sc_Name :: string
  sc_Provisioner :: string
  sc_Annotations :: "(string \<rightharpoonup> string) option" \<comment> \<open>the map may be nil\<close>
  sc_ResourceVersion :: string
  sc_StoragePolicyName :: string

definition defaultScAnnotationKey :: string where
  "defaultScAnnotationKey = ''storageclass.kubernetes.io/is-default-class''"

text \<open>Reading an annotation; a missing key and a nil map read as the empty string.\<close>

definition annotation :: "StorageClass \<Rightarrow> string option" where
  "annotation sc = (case sc_Annotations sc of None \<Rightarrow> None | Some a \<Rightarrow> a defaultScAnnotationKey)"

definition annotation_text :: "StorageClass \<Rightarrow> string" where
  "annotation_text sc = (case annotation sc of None \<Rightarrow> [] | Some v \<Rightarrow> v)"

definition set_annotation :: "string \<Rightarrow> StorageClass \<Rightarrow> StorageClass" where
  "set_annotation v sc =
     sc\<lparr>sc_Annotations := map_option (\<lambda>a. a(defaultScAnnotationKey \<mapsto> v)) (sc_Annotations sc)\<rparr>"

text \<open>The loop of \<open>SetDefaultStorageClass\<close>: other defaults seen, own key present, the class.\<close>

fun default_loop ::
  "StorageClass list \<Rightarrow> nat \<Rightarrow> bool \<Rightarrow> StorageClass \<Rightarrow> nat \<times> bool \<times> StorageClass" where
  "default_loop [] defaultSCCount annotationKeyPresent storageClass =
     (defaultSCCount, annotationKeyPresent, storageClass)"
| "default_loop (sc # rest) defaultSCCount annotationKeyPresent storageClass =
     (let count' = (if annotation_text sc = ''true'' \<and> sc_Name sc \<noteq> sc_Name storageClass
                    then defaultSCCount + 1 else defaultSCCount)
      in if sc_Name sc = sc_Name storageClass \<and> sc_Annotations sc \<noteq> None then
           (case annotation sc of
              Some val \<Rightarrow> default_loop rest count' True
                ((set_annotation val storageClass)\<lparr>sc_ResourceVersion := sc_ResourceVersion sc\<rparr>)
            | None \<Rightarrow> default_loop rest count' False
                (storageClass\<lparr>sc_ResourceVersion := sc_ResourceVersion sc\<rparr>))
         else default_loop rest count' annotationKeyPresent storageClass)"

definition SetDefaultStorageClass ::
  "StorageClass list result \<Rightarrow> StorageClass \<Rightarrow> StorageClass result" where
  "SetDefaultStorageClass lister storageClass =
     (case lister of
        Inl err \<Rightarrow> Inl err
      | Inr existingSCs \<Rightarrow>
          if annotation_text storageClass \<noteq> [] then
            (case default_loop existingSCs 0 False storageClass of
               (defaultSCCount, annotationKeyPresent, sc) \<Rightarrow>
                 if 0 < defaultSCCount \<and> \<not> annotationKeyPresent
                 then Inr (set_annotation ''false'' sc) else Inr sc)
          else Inr storageClass)"

text \<open>What the evaluator does to the StorageClass in the cluster.\<close>

datatype sc_call = ApplySC StorageClass | DeleteSC StorageClass

definition GetStorageClassState :: "ClusterCSIDriver result \<Rightarrow> StorageClassState" where
  "GetStorageClassState clusterCSIDriver =
     (case clusterCSIDriver of Inl err \<Rightarrow> ManagedStorageClass | Inr d \<Rightarrow> Spec_StorageClassState d)"

definition IsManaged :: "StorageClassState \<Rightarrow> bool" where
  "IsManaged scState \<longleftrightarrow> scState = ManagedStorageClass \<or> scState = EmptyState"

definition ApplyStorageClass ::
  "(sc_call \<Rightarrow> go_error option) \<Rightarrow> StorageClass \<Rightarrow> StorageClassState
     \<Rightarrow> go_error option \<times> sc_call list" where
  "ApplyStorageClass api expectedSC scState =
     (case scState of
        ManagedStorageClass \<Rightarrow> (api (ApplySC expectedSC), [ApplySC expectedSC])
      | EmptyState \<Rightarrow> (api (ApplySC expectedSC), [ApplySC expectedSC])
      | UnmanagedStorageClass \<Rightarrow> (None, [])
      | RemovedStorageClass \<Rightarrow> (api (DeleteSC expectedSC), [DeleteSC expectedSC])
      | OtherState s \<Rightarrow> (Some (Failure (''invalid StorageClassState '' @ s)), []))"

subsection \<open>The controller\<close>

record ScController =
  sharedPolicyName :: string
  vCenterStoragePolicy :: "string \<rightharpoonup> string"
  sc_backoff :: Backoff
  sc_nextCheck :: int
  sc_lastCheck :: int

definition sc_defaultBackoff :: Backoff where
  "sc_defaultBackoff = defaultBackoff\<lparr>Cap := 30 * minute\<rparr>"

definition NewStorageClassController :: "int \<Rightarrow> ScController" where
  "NewStorageClassController now =
     \<lparr>sharedPolicyName = [], vCenterStoragePolicy = Map.empty, sc_backoff = sc_defaultBackoff,
      sc_nextCheck = now, sc_lastCheck = 0\<rparr>"

text \<open>The part of the environment one sync sees.\<close>

record 's ScEnv =
  env_server :: "VSphereConnection \<Rightarrow> 's PolicyServer"
  env_infra :: Infrastructure
  env_clock :: "string \<Rightarrow> int \<times> int" \<comment> \<open>the two clock reads of a connection, by host name\<close>
  env_jitter :: "int \<Rightarrow> int"
  env_read_sc :: "string \<Rightarrow> StorageClass"
  env_manifest :: string
  env_driver :: "string \<Rightarrow> ClusterCSIDriver result"
  env_storage_classes :: "StorageClass list result"
  env_sc_api :: "sc_call \<Rightarrow> go_error option"

definition run_policy ::
  "'s ScEnv \<Rightarrow> VSphereConnection \<Rightarrow> 's \<Rightarrow> ((string \<times> go_error option) \<times> 's) outcome" where
  "run_policy env connection s =
     obind (NewStoragePolicyAPI connection (env_infra env)) (\<lambda>apiClient.
     obind (createStoragePolicy (env_server env connection) apiClient s) (\<lambda>(r, _, s').
       Returned (r, s')))"

definition syncStoragePolicy ::
  "'s ScEnv \<Rightarrow> StorageClassState \<Rightarrow> VSphereConnection \<Rightarrow> ScController \<Rightarrow> 's
     \<Rightarrow> ((string \<times> ClusterCheckResult) \<times> ScController \<times> 's) outcome" where
  "syncStoragePolicy env scState connection c s =
     (let host = Hostname connection; (now, now') = env_clock env host;
          known = (case vCenterStoragePolicy c host of None \<Rightarrow> [] | Some p \<Rightarrow> p)
      in if \<not> IsManaged scState then Returned (([], MakeClusterCheckResultPass), c, s)
         else if \<not> sc_nextCheck c < now \<and> 0 < length known
         then Returned ((known, MakeClusterCheckResultPass), c, s)
         else obind (run_policy env connection s) (\<lambda>((policy, err), s').
           let (nextRunDelay, b) = Step (env_jitter env) (sc_backoff c);
               c' = c\<lparr>sc_backoff := b, sc_lastCheck := now', sc_nextCheck := now' + nextRunDelay\<rparr>
           in Returned (case err of
                Some e \<Rightarrow> (([], MakeGenericVCenterAPIError e), c', s')
              | None \<Rightarrow> ((policy, MakeClusterCheckResultPass), c', s'))))"

text \<open>The loop of \<open>Sync\<close> over the connections; the first error ends it.\<close>

fun sync_policies ::
  "'s ScEnv \<Rightarrow> StorageClassState \<Rightarrow> VSphereConnection list \<Rightarrow> ScController \<Rightarrow> 's
     \<Rightarrow> (ClusterCheckResult option \<times> ScController \<times> 's) outcome" where
  "sync_policies env scState [] c s = Returned (None, c, s)"
| "sync_policies env scState (connection # rest) c s =
     obind (syncStoragePolicy env scState connection c s) (\<lambda>((policy, syncResult), c1, s1).
       if CheckError syncResult \<noteq> None then Returned (Some syncResult, c1, s1)
       else sync_policies env scState rest
              (c1\<lparr>vCenterStoragePolicy := (vCenterStoragePolicy c1)(Hostname connection \<mapsto> policy),
                 sharedPolicyName := policy\<rparr>) s1)"

definition syncStorageClass ::
  "'s ScEnv \<Rightarrow> StorageClassState \<Rightarrow> ScController \<Rightarrow> go_error option \<times> sc_call list" where
  "syncStorageClass env scState c =
     (let scString = replace_all (env_manifest env) ''${STORAGE_POLICY_NAME}'' (sharedPolicyName c);
          sc = env_read_sc env scString
      in case SetDefaultStorageClass (env_storage_classes env) sc of
           Inl err \<Rightarrow> (Some err, [])
         | Inr sc' \<Rightarrow> ApplyStorageClass (env_sc_api env) sc' scState)"

text \<open>\<open>checkResultFunc\<close>: the result, the cluster status, the calls, the metric it sets.\<close>

record sc_sync =
  sync_result :: ClusterCheckResult
  sync_status :: ClusterCheckStatus
  sync_calls :: "sc_call list"
  sync_metric :: "(string \<times> string) option"

definition checkResultFunc ::
  "'s ScEnv \<Rightarrow> VSphereConnection list \<Rightarrow> ScController \<Rightarrow> 's \<Rightarrow> (sc_sync \<times> ScController \<times> 's) outcome"
  where
  "checkResultFunc env connections c s =
     (let scState = GetStorageClassState
            (env_driver env (sc_Provisioner (env_read_sc env (env_manifest env))))
      in obind (sync_policies env scState connections c s) (\<lambda>(failed, c1, s1).
         case failed of
           Some syncResult \<Rightarrow> Returned
             (\<lparr>sync_result = syncResult, sync_status = ClusterCheckDegrade, sync_calls = [],
               sync_metric = Some (status_string (CheckStatus syncResult), ''storage_class_sync_failed'')\<rparr>,
              c1, s1)
         | None \<Rightarrow>
             (case syncStorageClass env scState c1 of
                (Some err, calls) \<Rightarrow> Returned
                  (\<lparr>sync_result = MakeClusterDegradedError CheckStatusOpenshiftAPIError err,
                    sync_status = ClusterCheckDegrade, sync_calls = calls, sync_metric = None\<rparr>, c1, s1)
              | (None, calls) \<Rightarrow> Returned
                  (\<lparr>sync_result = MakeClusterCheckResultPass, sync_status = ClusterCheckAllGood,
                    sync_calls = calls, sync_metric = None\<rparr>, c1, s1))))"

text \<open>\<open>updateConditions\<close> of this controller.\<close>

definition sc_conditions ::
  "string \<Rightarrow> ClusterCheckResult \<Rightarrow> ClusterCheckStatus \<Rightarrow> OperatorCondition \<times> OperatorCondition" where
  "sc_conditions name lastCheckResult clusterStatus =
     (if clusterStatus = ClusterCheckDegrade
      then (new_condition (name @ OperatorStatusTypeAvailable) ConditionFalse (Reason lastCheckResult)
              (''Marking cluster degraded because '' @ Reason lastCheckResult),
            new_condition (name @ OperatorStatusTypeDegraded) ConditionTrue
              (status_string (CheckStatus lastCheckResult)) (Reason lastCheckResult))
      else (new_condition (name @ OperatorStatusTypeAvailable) ConditionTrue [] [],
            new_condition (name @ OperatorStatusTypeDegraded) ConditionFalse [] []))"

definition sc_update_funcs ::
  "int \<Rightarrow> string \<Rightarrow> ClusterCheckResult \<Rightarrow> ClusterCheckStatus \<Rightarrow> (conditions \<Rightarrow> conditions) list" where
  "sc_update_funcs now name lastCheckResult clusterStatus =
     (let (availableCnd, degradedCondition) = sc_conditions name lastCheckResult clusterStatus
      in [\<lambda>cs. SetOperatorCondition now cs availableCnd,
          \<lambda>cs. SetOperatorCondition now cs degradedCondition])"

definition sc_updateConditions ::
  "int \<Rightarrow> string \<Rightarrow> ClusterCheckResult \<Rightarrow> ClusterCheckStatus \<Rightarrow> (nat \<Rightarrow> attempt) \<Rightarrow> conditions_update" where
  "sc_updateConditions now name lastCheckResult clusterStatus att =
     (let (err, written) = UpdateStatus (sc_update_funcs now name lastCheckResult clusterStatus) att
      in \<lparr>upd_error = err, upd_written = written,
          upd_events = (if clusterStatus = ClusterCheckDegrade
            then [(status_string (CheckStatus lastCheckResult),
                   ''Marking cluster degraded because '' @ Reason lastCheckResult)] else [])\<rparr>)"

definition Sync ::
  "'s ScEnv \<Rightarrow> int \<Rightarrow> string \<Rightarrow> (nat \<Rightarrow> attempt) \<Rightarrow> VSphereConnection list \<Rightarrow> ScController \<Rightarrow> 's
     \<Rightarrow> (conditions_update \<times> sc_sync \<times> ScController \<times> 's) outcome" where
  "Sync env now name att connections c s =
     obind (checkResultFunc env connections c s) (\<lambda>(r, c1, s1).
       Returned (sc_updateConditions now name (sync_result r) (sync_status r) att, r, c1, s1))"

definition SyncRemove :: "'s ScEnv \<Rightarrow> go_error option \<times> sc_call list" where
  "SyncRemove env =
     (let sc = env_read_sc env (env_manifest env) in (env_sc_api env (DeleteSC sc), [DeleteSC sc]))"

subsection \<open>The default annotation\<close>

definition other_default :: "string \<Rightarrow> StorageClass \<Rightarrow> bool" where
  "other_default n sc \<longleftrightarrow> annotation_text sc = ''true'' \<and> sc_Name sc \<noteq> n"

lemma set_annotation_name [simp]: "sc_Name (set_annotation v sc) = sc_Name sc"
  by (simp add: set_annotation_def)

lemma default_loop_others:
  "\<forall>e \<in> set xs. sc_Name e \<noteq> sc_Name sc \<Longrightarrow>
     default_loop xs n p sc = (n + length (filter (other_default (sc_Name sc)) xs), p, sc)"
  by (induction xs arbitrary: n) (auto simp: other_default_def)

lemma default_loop_append:
  "default_loop (xs @ ys) n p sc =
     (case default_loop xs n p sc of (n', p', sc') \<Rightarrow> default_loop ys n' p' sc')"
  by (induction xs arbitrary: n p sc) (auto simp: Let_def split: option.split)

lemma find_middle: "\<forall>x \<in> set xs. \<not> P x \<Longrightarrow> P y \<Longrightarrow> find P (xs @ y # ys) = Some y"
  by (induction xs) auto

lemma others_differ:
  assumes "distinct (map f (xs @ x # ys))" and "e \<in> set xs \<or> e \<in> set ys"
  shows "f e \<noteq> f x"
proof -
  have "f x \<notin> f ` (set xs \<union> set ys)" using assms(1) by auto
  then show ?thesis using assms(2) by (metis UnCI imageI)
qed

lemma default_loop_own:
  assumes "distinct (map sc_Name (xs @ own # ys))" and "sc_Name own = sc_Name sc"
  shows "default_loop (xs @ own # ys) 0 False sc =
     (length (filter (other_default (sc_Name sc)) (xs @ ys)),
      annotation own \<noteq> None,
      (case sc_Annotations own of
         None \<Rightarrow> sc
       | Some a \<Rightarrow> (case annotation own of
             Some val \<Rightarrow> (set_annotation val sc)\<lparr>sc_ResourceVersion := sc_ResourceVersion own\<rparr>
           | None \<Rightarrow> sc\<lparr>sc_ResourceVersion := sc_ResourceVersion own\<rparr>)))"
proof -
  have no_own: "\<forall>e \<in> set xs. sc_Name e \<noteq> sc_Name sc" "\<forall>e \<in> set ys. sc_Name e \<noteq> sc_Name sc"
    using others_differ [OF assms(1)] assms(2) by auto
  show ?thesis
    using no_own assms(2)
    by (cases "sc_Annotations own"; cases "annotation own")
      (simp_all add: default_loop_append default_loop_others annotation_def)
qed

lemma annotation_set: "annotation_text sc \<noteq> [] \<Longrightarrow> annotation (set_annotation v sc) = Some v"
  by (auto simp: annotation_def annotation_text_def set_annotation_def split: option.splits)

lemma annotation_version [simp]: "annotation (sc\<lparr>sc_ResourceVersion := v\<rparr>) = annotation sc"
  "annotation_text (sc\<lparr>sc_ResourceVersion := v\<rparr>) = annotation_text sc"
  by (simp_all add: annotation_def annotation_text_def)

text \<open>
  The operator never takes the default away from somebody else and never overrides the user:
  when our class exists with the annotation, its value is kept whatever it is; otherwise, when
  another class is the default, ours is applied as not default; otherwise the manifest decides.
\<close>
theorem SetDefaultStorageClass_respects_default:
  assumes "distinct (map sc_Name scs)" and "annotation_text sc \<noteq> []"
  shows "\<exists>sc'. SetDefaultStorageClass (Inr scs) sc = Inr sc' \<and> sc_Name sc' = sc_Name sc
     \<and> annotation sc' =
        (if \<exists>own \<in> set scs. sc_Name own = sc_Name sc \<and> annotation own \<noteq> None
         then annotation (the (find (\<lambda>own. sc_Name own = sc_Name sc) scs))
         else if \<exists>e \<in> set scs. other_default (sc_Name sc) e then Some ''false''
         else annotation sc)"
proof (cases "\<exists>own \<in> set scs. sc_Name own = sc_Name sc")
  case False
  then have "default_loop scs 0 False sc = (length (filter (other_default (sc_Name sc)) scs), False, sc)"
    by (subst default_loop_others) auto
  then show ?thesis
    using assms(2) False
    by (auto simp: SetDefaultStorageClass_def annotation_set filter_empty_conv)
next
  case True
  then obtain own xs ys where scs: "scs = xs @ own # ys" and own: "sc_Name own = sc_Name sc"
    by (metis split_list)
  have others: "\<forall>e \<in> set (xs @ ys). sc_Name e \<noteq> sc_Name sc"
    using others_differ [OF assms(1) [unfolded scs]] own by auto
  then have f: "find (\<lambda>c. sc_Name c = sc_Name sc) scs = Some own"
    using own unfolding scs by (intro find_middle) auto
  have not_own: "\<not> other_default (sc_Name sc) own" using own by (simp add: other_default_def)
  have someone: "(\<exists>e \<in> set scs. other_default (sc_Name sc) e)
      \<longleftrightarrow> 0 < length (filter (other_default (sc_Name sc)) (xs @ ys))"
    using not_own by (auto simp: scs filter_empty_conv)
  have present: "(\<exists>c \<in> set scs. sc_Name c = sc_Name sc \<and> annotation c \<noteq> None) \<longleftrightarrow> annotation own \<noteq> None"
    using others own by (auto simp: scs)
  note loop = default_loop_own [OF assms(1) [unfolded scs] own]
  have ann: "sc_Annotations own = None \<Longrightarrow> annotation own = None" by (simp add: annotation_def)
  show ?thesis
    unfolding present someone f option.sel
    using assms(2) loop ann
    by (cases "sc_Annotations own"; cases "annotation own")
      (simp_all add: scs SetDefaultStorageClass_def annotation_set)
qed


definition thin_csi :: StorageClass where
  "thin_csi = \<lparr>sc_Name = ''thin-csi'', sc_Provisioner = ''csi.vsphere.vmware.com'',
     sc_Annotations = Some [defaultScAnnotationKey \<mapsto> ''true''], sc_ResourceVersion = [],
     sc_StoragePolicyName = []\<rparr>"

theorem SetDefaultStorageClass_respects_default_witness:
  "\<exists>sc'. SetDefaultStorageClass (Inr [thin_csi\<lparr>sc_Name := ''other''\<rparr>]) thin_csi = Inr sc'
     \<and> annotation sc' = Some ''false''"
  using SetDefaultStorageClass_respects_default [of "[thin_csi\<lparr>sc_Name := ''other''\<rparr>]" thin_csi]
  by (auto simp: thin_csi_def annotation_text_def annotation_def other_default_def)

subsection \<open>Managed, unmanaged, removed\<close>

lemma sync_policies_unmanaged:
  "\<not> IsManaged scState \<Longrightarrow>
     \<exists>c'. sync_policies env scState conns c s = Returned (None, c', s)
        \<and> sc_nextCheck c' = sc_nextCheck c \<and> sc_backoff c' = sc_backoff c"
proof (induction conns arbitrary: c)
  case (Cons conn conns)
  let ?c = "c\<lparr>vCenterStoragePolicy := (vCenterStoragePolicy c)(Hostname conn \<mapsto> []), sharedPolicyName := []\<rparr>"
  from Cons.IH [OF Cons.prems, of ?c] obtain c' where "sync_policies env scState conns ?c s = Returned (None, c', s)
        \<and> sc_nextCheck c' = sc_nextCheck ?c \<and> sc_backoff c' = sc_backoff ?c" by blast
  moreover have "syncStoragePolicy env scState conn c s = Returned (([], MakeClusterCheckResultPass), c, s)"
    using Cons.prems by (simp add: syncStoragePolicy_def Let_def split: prod.split)
  ultimately show ?case by (simp add: MakeClusterCheckResultPass_def)
qed simp

lemma syncStorageClass_calls:
  "syncStorageClass env scState c = (err, calls) \<Longrightarrow>
     (calls = [] \<or> (\<exists>sc. IsManaged scState \<and> calls = [ApplySC sc])
      \<or> (\<exists>sc. scState = RemovedStorageClass \<and> calls = [DeleteSC sc]))
     \<and> (scState = UnmanagedStorageClass \<longrightarrow> calls = [])"
  by (auto simp: syncStorageClass_def ApplyStorageClass_def IsManaged_def Let_def
      split: sum.splits StorageClassState.splits)

definition sc_state :: "'s ScEnv \<Rightarrow> StorageClassState" where
  "sc_state env =
     GetStorageClassState (env_driver env (sc_Provisioner (env_read_sc env (env_manifest env))))"

text \<open>
  C37: the state asked for in the ClusterCSIDriver is respected: unless the class is managed no
  vCenter is touched, an unmanaged class is left alone, the class is deleted only in the removed
  state, and it is applied only in the managed state and only after the policies of all vCenters
  were synced without error.
\<close>
theorem Sync_respects_state:
  assumes "checkResultFunc env conns c s = Returned (r, c', s')"
  shows "(\<not> IsManaged (sc_state env) \<longrightarrow> s' = s)
     \<and> (sc_state env = UnmanagedStorageClass \<longrightarrow> sync_calls r = [])
     \<and> (\<forall>sc. DeleteSC sc \<in> set (sync_calls r) \<longrightarrow> sc_state env = RemovedStorageClass)
     \<and> (\<forall>sc. ApplySC sc \<in> set (sync_calls r) \<longrightarrow> IsManaged (sc_state env)
          \<and> (\<exists>c1 s1. sync_policies env (sc_state env) conns c s = Returned (None, c1, s1)))
     \<and> (sync_status r = ClusterCheckAllGood \<longleftrightarrow> CheckError (sync_result r) = None)"
proof -
  obtain failed c1 s1 where p: "sync_policies env (sc_state env) conns c s = Returned (failed, c1, s1)"
    using assms by (auto simp: checkResultFunc_def sc_state_def Let_def elim!: obind_ReturnedE)
  have same: "\<not> IsManaged (sc_state env) \<longrightarrow> s1 = s"
    using sync_policies_unmanaged [of "sc_state env" env conns c s] p by auto
  have err: "failed = Some e \<Longrightarrow> CheckError e \<noteq> None" for e
    using p
  proof (induction conns arbitrary: c s)
    case (Cons conn conns)
    then show ?case by (auto elim!: obind_ReturnedE split: if_splits prod.splits)
  qed simp
  show ?thesis
  proof (cases failed)
    case (Some e)
    with assms p err [OF Some] same show ?thesis
      by (auto simp: checkResultFunc_def sc_state_def Let_def)
  next
    case None
    obtain e calls where a: "syncStorageClass env (sc_state env) c1 = (e, calls)" by fastforce
    note calls = syncStorageClass_calls [OF a]
    from None assms p a have "sync_calls r = calls" "s' = s1"
      "sync_status r = ClusterCheckAllGood \<longleftrightarrow> CheckError (sync_result r) = None"
      by (auto simp: checkResultFunc_def sc_state_def Let_def check_simps split: option.splits)
    with same calls None p show ?thesis by auto
  qed
qed

subsection \<open>Conditions\<close>

text \<open>
  After \<open>updateConditions\<close> has written, the controller's available and degraded conditions are
  opposite: degraded with the status and reason of the result when the sync degraded, available and
  not degraded with no reason and no message otherwise; every other condition is as it was read.
\<close>
theorem sc_updateConditions_effect:
  assumes "sc_updateConditions now name r st att = u" and "upd_written u = Some cs"
  shows "\<exists>i < 4. \<exists>old. fst (att i) = Inr old \<and> (\<forall>t. map_option said (lookup_condition cs t) =
     (if t = name @ ''Degraded''
      then Some (if st = ClusterCheckDegrade
                 then (ConditionTrue, status_string (CheckStatus r), Reason r) else (ConditionFalse, [], []))
      else if t = name @ ''Available''
      then Some (if st = ClusterCheckDegrade
                 then (ConditionFalse, Reason r, ''Marking cluster degraded because '' @ Reason r)
                 else (ConditionTrue, [], []))
      else map_option said (lookup_condition old t)))"
proof -
  let ?fs = "sc_update_funcs now name r st"
  obtain err where "UpdateStatus ?fs att = (err, Some cs)"
    using assms by (auto simp: sc_updateConditions_def split: prod.splits)
  then obtain i old where i: "i < 4" "fst (att i) = Inr old" "cs = apply_all ?fs old"
    using UpdateStatus_loop_written [of 4 0 ?fs att None]
    by (auto simp: UpdateStatus_def DefaultBackoff_Steps_def)
  have "map_option said (lookup_condition (apply_all ?fs old) t) =
     (if t = name @ ''Degraded''
      then Some (if st = ClusterCheckDegrade
                 then (ConditionTrue, status_string (CheckStatus r), Reason r) else (ConditionFalse, [], []))
      else if t = name @ ''Available''
      then Some (if st = ClusterCheckDegrade
                 then (ConditionFalse, Reason r, ''Marking cluster degraded because '' @ Reason r)
                 else (ConditionTrue, [], []))
      else map_option said (lookup_condition old t))" for t
    by (cases "st = ClusterCheckDegrade")
      (simp_all add: sc_update_funcs_def sc_conditions_def apply_all_def conds.said_put
        OperatorStatusTypeAvailable_def OperatorStatusTypeDegraded_def del: map_option_eq_Some)
  with i show ?thesis by blast
qed

theorem sc_updateConditions_effect_witness:
  "\<exists>cs. upd_written (sc_updateConditions 5 ''S'' MakeClusterCheckResultPass ClusterCheckAllGood (quiet [])) = Some cs
     \<and> map_option said (lookup_condition cs ''SAvailable'') = Some (ConditionTrue, [], [])"
proof -
  let ?fs = "sc_update_funcs 5 ''S'' MakeClusterCheckResultPass ClusterCheckAllGood"
  have "apply_all ?fs [] \<noteq> []"
    by (simp add: sc_update_funcs_def sc_conditions_def apply_all_def cond_simps)
  then have w: "upd_written (sc_updateConditions 5 ''S'' MakeClusterCheckResultPass ClusterCheckAllGood (quiet []))
      = Some (apply_all ?fs [])"
    by (simp add: sc_updateConditions_def written_when_changed)
  from sc_updateConditions_effect [OF refl w]
  have "map_option said (lookup_condition (apply_all ?fs []) ''SAvailable'') = Some (ConditionTrue, [], [])"
    by (elim exE conjE) (drule spec [where x = "''SAvailable''"], simp del: map_option_eq_Some)
  with w show ?thesis by blast
qed

subsection \<open>The schedule of the storage policy sync\<close>

lemma cached_policy:
  assumes "IsManaged st" and "vCenterStoragePolicy c (Hostname conn) = Some q" and "q \<noteq> []"
    and "fst (env_clock env (Hostname conn)) \<le> sc_nextCheck c"
  shows "syncStoragePolicy env st conn c s = Returned ((q, MakeClusterCheckResultPass), c, s)"
  using assms by (cases "env_clock env (Hostname conn)") (simp add: syncStoragePolicy_def Let_def not_less)

text \<open>
  A failed policy sync is forgotten at once when the policy was synced before: the failure
  schedules the next run in the future but keeps the cached policy, so every sync before that time
  reports success from the cache, without asking the vCenter, and clears the degraded condition
  the failure has set.
\<close>
theorem failed_policy_is_masked:
  assumes "IsManaged st"
    and "syncStoragePolicy env st conn c s = Returned ((p, r), c1, s1)" and "CheckError r \<noteq> None"
    and "vCenterStoragePolicy c (Hostname conn) = Some q" and "q \<noteq> []"
    and "fst (env_clock env' (Hostname conn)) \<le> sc_nextCheck c1"
  shows "syncStoragePolicy env' st conn c1 s' = Returned ((q, MakeClusterCheckResultPass), c1, s')
     \<and> CheckError MakeClusterCheckResultPass = None"
proof -
  have "vCenterStoragePolicy c1 (Hostname conn) = Some q"
    using assms(2,4)
    by (auto simp: syncStoragePolicy_def Let_def elim!: obind_ReturnedE split: prod.splits
        option.splits if_splits)
  from cached_policy [OF assms(1) this assms(5,6)] show ?thesis
    by (simp add: MakeClusterCheckResultPass_def)
qed

text \<open>
  The schedule is one for all vCenters, so only the first one is ever synced again: when the
  check is due, the first connection runs and moves the schedule on, and every other connection
  whose policy is cached and whose turn comes before the new time is skipped.
\<close>
theorem later_vcenters_starve:
  assumes "IsManaged st"
    and "syncStoragePolicy env st a c s = Returned ((p, r), c1, s1)" and "CheckError r = None"
    and "\<forall>b \<in> set bs. Hostname b \<noteq> Hostname a \<and> (\<exists>q. vCenterStoragePolicy c (Hostname b) = Some q \<and> q \<noteq> [])
           \<and> fst (env_clock env (Hostname b)) \<le> sc_nextCheck c1"
  shows "\<exists>c2. sync_policies env st (a # bs) c s = Returned (None, c2, s1)
     \<and> sc_nextCheck c2 = sc_nextCheck c1
     \<and> (\<forall>b \<in> set bs. vCenterStoragePolicy c2 (Hostname b) = vCenterStoragePolicy c (Hostname b))"
proof -
  have store: "vCenterStoragePolicy c1 = vCenterStoragePolicy c"
    using assms(2)
    by (auto simp: syncStoragePolicy_def Let_def elim!: obind_ReturnedE split: prod.splits
        option.splits if_splits)
  have rest: "\<exists>c2. sync_policies env st bs d s1 = Returned (None, c2, s1)
      \<and> sc_nextCheck c2 = sc_nextCheck d \<and> vCenterStoragePolicy c2 = vCenterStoragePolicy d"
    if "\<forall>b \<in> set bs. (\<exists>q. vCenterStoragePolicy d (Hostname b) = Some q \<and> q \<noteq> [])
          \<and> fst (env_clock env (Hostname b)) \<le> sc_nextCheck d" for d
    using that
  proof (induction bs arbitrary: d)
    case (Cons b bs)
    then obtain q where q: "vCenterStoragePolicy d (Hostname b) = Some q" "q \<noteq> []" by auto
    have run: "syncStoragePolicy env st b d s1 = Returned ((q, MakeClusterCheckResultPass), d, s1)"
      using Cons.prems by (intro cached_policy [OF assms(1) q]) simp
    let ?d = "d\<lparr>vCenterStoragePolicy := (vCenterStoragePolicy d)(Hostname b \<mapsto> q), sharedPolicyName := q\<rparr>"
    have same: "vCenterStoragePolicy ?d = vCenterStoragePolicy d" using q by auto
    from Cons.IH [of ?d] Cons.prems obtain c2 where "sync_policies env st bs ?d s1 = Returned (None, c2, s1)"
      "sc_nextCheck c2 = sc_nextCheck d" "vCenterStoragePolicy c2 = vCenterStoragePolicy ?d"
      unfolding same by auto
    then show ?case using run same by (simp add: MakeClusterCheckResultPass_def)
  qed simp
  let ?d = "c1\<lparr>vCenterStoragePolicy := (vCenterStoragePolicy c1)(Hostname a \<mapsto> p), sharedPolicyName := p\<rparr>"
  have "\<forall>b \<in> set bs. (\<exists>q. vCenterStoragePolicy ?d (Hostname b) = Some q \<and> q \<noteq> [])
          \<and> fst (env_clock env (Hostname b)) \<le> sc_nextCheck ?d"
    using assms(4) store by simp
  from rest [OF this] obtain c2 where c2: "sync_policies env st bs ?d s1 = Returned (None, c2, s1)"
    "sc_nextCheck c2 = sc_nextCheck c1" "vCenterStoragePolicy c2 = vCenterStoragePolicy ?d" by auto
  then show ?thesis using assms(2-4) store by (intro exI [of _ c2]) simp
qed

subsection \<open>Witnesses\<close>

text \<open>A second vCenter; every query for a policy fails when \<open>down\<close>.\<close>

definition example_env :: "bool \<Rightarrow> int \<Rightarrow> list_server ScEnv" where
  "example_env down now =
     \<lparr>env_server = (\<lambda>conn. if down then list_services\<lparr>srv_QueryProfile := (\<lambda>s. Inl (Failure ''down''))\<rparr>
                             else list_services),
      env_infra = example_infra\<lparr>Platform_VSphere := Some one_domain\<rparr>,
      env_clock = (\<lambda>h. (now, now)), env_jitter = (\<lambda>d. 0), env_read_sc = (\<lambda>t. thin_csi), env_manifest = [],
      env_driver = (\<lambda>n. Inl (NotFound n)), env_storage_classes = Inr [], env_sc_api = (\<lambda>call. None)\<rparr>"

definition second_connection :: VSphereConnection where
  "second_connection = example_connection\<lparr>Hostname := ''vc2''\<rparr>"

definition synced_once :: ScController where
  "synced_once = (NewStorageClassController 0)\<lparr>
     vCenterStoragePolicy := [''vc1'' \<mapsto> ''policy'', ''vc2'' \<mapsto> ''policy'']\<rparr>"

lemma example_sync_down:
  "\<exists>c1. syncStoragePolicy (example_env True 5) ManagedStorageClass example_connection synced_once ([], []) =
     Returned (([], MakeGenericVCenterAPIError
        (Failure ''error finding existing policy: error querying profiles: down'')), c1, ([], []))
     \<and> sc_nextCheck c1 = 5 + minute"
  by (simp add: syncStoragePolicy_def example_env_def synced_once_def NewStorageClassController_def
      IsManaged_def run_policy_def NewStoragePolicyAPI_def one_domain_def createStoragePolicy_def
      checkForExistingPolicy_def with_pbm_def list_services_def example_connection_def
      sc_defaultBackoff_def defaultBackoff_def Step_def delay_def Jitter_def Let_def)

theorem failed_policy_is_masked_witness:
  "\<exists>c1. syncStoragePolicy (example_env True 6) ManagedStorageClass example_connection c1 ([], []) =
     Returned ((''policy'', MakeClusterCheckResultPass), c1, ([], []))"
proof -
  obtain c1 where run: "syncStoragePolicy (example_env True 5) ManagedStorageClass example_connection synced_once ([], []) =
     Returned (([], MakeGenericVCenterAPIError
        (Failure ''error finding existing policy: error querying profiles: down'')), c1, ([], []))"
    and later: "sc_nextCheck c1 = 5 + minute" using example_sync_down by blast
  have "IsManaged ManagedStorageClass" by (simp add: IsManaged_def)
  from failed_policy_is_masked [OF this run, of "''policy''" "example_env True 6"] later show ?thesis
    by (auto simp: MakeGenericVCenterAPIError_def synced_once_def example_connection_def example_env_def
        minute_def)
qed

lemma example_sync_up:
  "\<exists>c1. syncStoragePolicy (example_env False 5) ManagedStorageClass example_connection synced_once
        ([(''ref-ds'', ''cluster1'')], [''openshift-storage-policy-cluster1'']) =
     Returned ((''openshift-storage-policy-cluster1'', MakeClusterCheckResultPass), c1,
        ([(''ref-ds'', ''cluster1'')], [''openshift-storage-policy-cluster1'']))
     \<and> sc_nextCheck c1 = 5 + minute"
  by (simp add: syncStoragePolicy_def example_env_def synced_once_def NewStorageClassController_def
      IsManaged_def run_policy_def NewStoragePolicyAPI_def one_domain_def createStoragePolicy_def
      checkForExistingPolicy_def with_pbm_def list_services_def example_connection_def
      createZonalStoragePolicy_def example_infra_def attachTags_def getDatastore_def example_client_def
      lookup_datastore_def checkForTagOnDatastore_def tag_of_def NewAggregate_def create_if_missing_def
      sc_defaultBackoff_def defaultBackoff_def Step_def delay_def Jitter_def Let_def)

theorem later_vcenters_starve_witness:
  "\<exists>c2. sync_policies (example_env False 5) ManagedStorageClass [example_connection, second_connection] synced_once
        ([(''ref-ds'', ''cluster1'')], [''openshift-storage-policy-cluster1'']) =
     Returned (None, c2, ([(''ref-ds'', ''cluster1'')], [''openshift-storage-policy-cluster1'']))
     \<and> vCenterStoragePolicy c2 ''vc2'' = Some ''policy''"
proof -
  obtain c1 where run: "syncStoragePolicy (example_env False 5) ManagedStorageClass example_connection synced_once
        ([(''ref-ds'', ''cluster1'')], [''openshift-storage-policy-cluster1'']) =
     Returned ((''openshift-storage-policy-cluster1'', MakeClusterCheckResultPass), c1,
        ([(''ref-ds'', ''cluster1'')], [''openshift-storage-policy-cluster1'']))"
    and later: "sc_nextCheck c1 = 5 + minute" using example_sync_up by blast
  have "IsManaged ManagedStorageClass" by (simp add: IsManaged_def)
  from later_vcenters_starve [OF this run, of "[second_connection]"] later show ?thesis
    by (auto simp: MakeClusterCheckResultPass_def synced_once_def second_connection_def
        example_connection_def example_env_def minute_def)
qed

theorem Sync_respects_state_witness:
  "\<exists>r c' s'. checkResultFunc (example_env False 5) [] synced_once ([], []) = Returned (r, c', s')
      \<and> sync_status r = ClusterCheckAllGood \<and> CheckError (sync_result r) = None"
proof -
  obtain r c' s' where run: "checkResultFunc (example_env False 5) [] synced_once ([], []) = Returned (r, c', s')"
    and good: "sync_status r = ClusterCheckAllGood"
    by (simp add: checkResultFunc_def syncStorageClass_def example_env_def GetStorageClassState_def
        SetDefaultStorageClass_def ApplyStorageClass_def Let_def annotation_text_def annotation_def
        thin_csi_def)
  from Sync_respects_state [OF run] run good show ?thesis by blast
qed

end
