(* ===== verification/Platform_Spec.thy ===== *)
theory Platform_Spec
  imports Example_Cluster
begin

text \<open>
  \<open>vspherecontroller.go\<close>, the cloud configuration and what it says about the platform:
  \<open>loadCloudConfig\<close>, \<open>getvCenterName\<close>, and \<open>ConvertToPlatformSpec\<close>, which fills in the vCenters and
  failure domains of an old \<open>Infrastructure\<close> object from a legacy (INI) configuration. The two
  configuration parsers are the parameters of \<open>LoadConfig\<close>.
\<close>

subsection \<open>The cloud configuration\<close>

definition cloudConfigNamespace :: string where
  "cloudConfigNamespace = ''openshift-config''"

type_synonym ConfigMapLister = "string \<Rightarrow> string \<Rightarrow> (string \<rightharpoonup> string) result"

definition cloud_config_data :: "ConfigMapLister \<Rightarrow> Infrastructure \<Rightarrow> string result" where
  "cloud_config_data configMaps infra =
     (case configMaps cloudConfigNamespace (CloudConfig_Name infra) of
        Inl err \<Rightarrow> Inl (Failure (''failed to get cloud config: '' @ err_msg err))
      | Inr data \<Rightarrow>
          (case data (CloudConfig_Key infra) of
             None \<Rightarrow> Inl (Failure (''cloud config '' @ cloudConfigNamespace @ ''/''
                       @ CloudConfig_Name infra @ '' does not contain key ''
                       @ quote (CloudConfig_Key infra)))
           | Some cfgString \<Rightarrow> Inr cfgString))"

definition loadCloudConfig ::
  "(string \<Rightarrow> CloudConfig result) \<Rightarrow> (string \<Rightarrow> LegacyVSphereConfig result)
     \<Rightarrow> ConfigMapLister \<Rightarrow> Infrastructure \<Rightarrow> VSphereConfig result" where
  "loadCloudConfig readConfig readLegacy configMaps infra =
     rbind (cloud_config_data configMaps infra) (LoadConfig readConfig readLegacy)"

text \<open>The last resort of \<open>getvCenterName\<close> is the first key of a map iteration.\<close>

definition getvCenterName ::
  "(string \<Rightarrow> CloudConfig result) \<Rightarrow> (string \<Rightarrow> LegacyVSphereConfig result)
     \<Rightarrow> ConfigMapLister \<Rightarrow> Infrastructure \<Rightarrow> string result" where
  "getvCenterName readConfig readLegacy configMaps infra =
     (let from_cloud_config =
        rbind (cloud_config_data configMaps infra) (\<lambda>cfgString.
        rbind (LoadConfig readConfig readLegacy cfgString) (\<lambda>cfg.
        case LegacyConfig cfg of
          Some lg \<Rightarrow> Inr (ws_VCenterIP (lg_Workspace lg))
        | None \<Rightarrow>
            (case VirtualCenter (Config cfg) of
               (k, vc) # rest \<Rightarrow> Inr (VCenterIP vc)
             | [] \<Rightarrow> Inl (Failure (''unable to determine vCenter from config ''
                       @ cloudConfigNamespace @ ''/'' @ CloudConfig_Name infra)))))
      in case Platform_VSphere infra of
           Some vSphereInfraConfig \<Rightarrow>
             (case VCenters vSphereInfraConfig of
                vc # rest \<Rightarrow> Inr (vc_Server vc)
              | [] \<Rightarrow> from_cloud_config)
         | None \<Rightarrow> from_cloud_config)"

subsection \<open>ConvertToPlatformSpec\<close>

definition vCentersToMap :: "VCenterSpec list \<Rightarrow> string \<rightharpoonup> VCenterSpec" where
  "vCentersToMap vcenters = foldl (\<lambda>m v. m(vc_Server v \<mapsto> v)) Map.empty vcenters"

definition addVCenter :: "VSphereConfig \<Rightarrow> string \<Rightarrow> VSpherePlatformSpec \<Rightarrow> VSpherePlatformSpec" where
  "addVCenter config vCenterName platformSpec =
     (case vcenter_entry config vCenterName of
        Some ccmVcenter \<Rightarrow>
          platformSpec\<lparr>VCenters := VCenters platformSpec @
            [\<lparr>vc_Server = VCenterIP ccmVcenter,
              vc_Datacenters = split_on CHR '','' (cfg_Datacenters ccmVcenter)\<rparr>]\<rparr>
      | None \<Rightarrow> platformSpec)"

definition addFailureDomainsToPlatformSpec ::
  "LegacyVSphereConfig \<Rightarrow> string \<Rightarrow> VSpherePlatformSpec \<Rightarrow> VSpherePlatformSpec" where
  "addFailureDomainsToPlatformSpec legacyCfg vcenter platformSpec =
     platformSpec\<lparr>FailureDomains := FailureDomains platformSpec @
       [\<lparr>fd_Name = [], fd_Region = [], fd_Zone = [], fd_Server = vcenter,
         fd_Datacenter = ws_Datacenter (lg_Workspace legacyCfg),
         fd_Folder = ws_Folder (lg_Workspace legacyCfg),
         fd_ResourcePool = ws_ResourcePoolPath (lg_Workspace legacyCfg),
         fd_Datastore = ws_DefaultDatastore (lg_Workspace legacyCfg)\<rparr>]\<rparr>"

definition convertIntreeToPlatformSpec ::
  "LegacyVSphereConfig \<Rightarrow> VSpherePlatformSpec \<Rightarrow> VSpherePlatformSpec" where
  "convertIntreeToPlatformSpec legacyCfg platformSpec =
     (let server = ws_VCenterIP (lg_Workspace legacyCfg)
      in case map_of (lg_VirtualCenter legacyCfg) server of
           Some datacenters \<Rightarrow>
             addFailureDomainsToPlatformSpec legacyCfg server
               (platformSpec\<lparr>VCenters := VCenters platformSpec @
                 [\<lparr>vc_Server = server, vc_Datacenters = split_on CHR '','' datacenters\<rparr>]\<rparr>)
         | None \<Rightarrow> platformSpec)"

text \<open>The loop over the vCenters of the configuration, in iteration order.\<close>

fun add_missing ::
  "VSphereConfig \<Rightarrow> (string \<rightharpoonup> VCenterSpec) \<Rightarrow> (string \<times> VirtualCenterConfig) list
     \<Rightarrow> VSpherePlatformSpec \<Rightarrow> VSpherePlatformSpec" where
  "add_missing config configuredVCenters [] spec = spec"
| "add_missing config configuredVCenters ((k, vCenter) # rest) spec =
     add_missing config configuredVCenters rest
       (if configuredVCenters (VCenterIP vCenter) = None
        then addVCenter config (VCenterIP vCenter) spec else spec)"

definition convert_spec :: "VSphereConfig \<Rightarrow> VSpherePlatformSpec \<Rightarrow> VSpherePlatformSpec" where
  "convert_spec config spec =
     (case LegacyConfig config of
        None \<Rightarrow> spec
      | Some lg \<Rightarrow>
          if VCenters spec \<noteq> [] then
            (let spec1 = add_missing config (vCentersToMap (VCenters spec))
                           (VirtualCenter (Config config)) spec
             in if FailureDomains spec1 = []
                then addFailureDomainsToPlatformSpec lg (ws_VCenterIP (lg_Workspace lg)) spec1
                else spec1)
          else if length (VirtualCenter (Config config)) = 1
          then convertIntreeToPlatformSpec lg spec
          else spec)"

text \<open>Works on a copy of the infrastructure object; a nil configuration only adds the empty spec.\<close>

definition ConvertToPlatformSpec :: "VSphereConfig option \<Rightarrow> Infrastructure \<Rightarrow> Infrastructure" where
  "ConvertToPlatformSpec config infra =
     (let spec = (case Platform_VSphere infra of
                    None \<Rightarrow> \<lparr>VCenters = [], FailureDomains = []\<rparr>
                  | Some s \<Rightarrow> s)
      in infra\<lparr>Platform_VSphere :=
           Some (case config of None \<Rightarrow> spec | Some c \<Rightarrow> convert_spec c spec)\<rparr>)"

subsection \<open>What it adds\<close>

definition servers :: "VSpherePlatformSpec \<Rightarrow> string set" where
  "servers spec = vc_Server ` set (VCenters spec)"

lemma vCentersToMap_None: "vCentersToMap vs s = None \<longleftrightarrow> s \<notin> vc_Server ` set vs"
  by (induction vs rule: rev_induct) (auto simp: vCentersToMap_def)

text \<open>The vCenters the loop appends, as a list of their own.\<close>

definition missing_vcenters ::
  "VSphereConfig \<Rightarrow> (string \<rightharpoonup> VCenterSpec) \<Rightarrow> (string \<times> VirtualCenterConfig) list \<Rightarrow> VCenterSpec list" where
  "missing_vcenters config configured entries =
     List.map_filter (\<lambda>(k, v). if configured (VCenterIP v) = None
       then map_option (\<lambda>e. \<lparr>vc_Server = VCenterIP e,
              vc_Datacenters = split_on CHR '','' (cfg_Datacenters e)\<rparr>)
            (vcenter_entry config (VCenterIP v))
       else None) entries"

lemma add_missing_appends:
  "add_missing config configured entries spec =
     spec\<lparr>VCenters := VCenters spec @ missing_vcenters config configured entries\<rparr>"
proof (induction entries arbitrary: spec)
  case Nil
  show ?case by (simp add: missing_vcenters_def map_filter_simps)
next
  case (Cons e entries)
  obtain k v where e: "e = (k, v)" by fastforce
  show ?case
    using Cons by (auto simp: e missing_vcenters_def map_filter_simps addVCenter_def split: option.split)
qed

lemma convert_spec_legacy:
  assumes "LegacyConfig config = Some lg" and "VCenters spec \<noteq> []"
  shows "convert_spec config spec =
     spec\<lparr>VCenters := VCenters spec @ missing_vcenters config (vCentersToMap (VCenters spec))
            (VirtualCenter (Config config)),
          FailureDomains := (if FailureDomains spec = []
             then FailureDomains (addFailureDomainsToPlatformSpec lg (ws_VCenterIP (lg_Workspace lg)) spec)
             else FailureDomains spec)\<rparr>"
  using assms
  by (simp add: convert_spec_def add_missing_appends addFailureDomainsToPlatformSpec_def Let_def)

text \<open>A configuration keyed by the addresses of its vCenters, as both parsers produce it.\<close>

definition keyed_by_address :: "VSphereConfig \<Rightarrow> bool" where
  "keyed_by_address config \<longleftrightarrow>
     distinct (keys (VirtualCenter (Config config)))
     \<and> (\<forall>(k, v) \<in> set (VirtualCenter (Config config)). VCenterIP v = k)"

lemma missing_servers:
  assumes "keyed_by_address config"
  shows "vc_Server ` set (missing_vcenters config configured (VirtualCenter (Config config))) =
    {s \<in> set (keys (VirtualCenter (Config config))). configured s = None}"
proof -
  have part: "vc_Server ` set (missing_vcenters config configured es) =
      {s \<in> set (keys es). configured s = None}"
    if "set es \<subseteq> set (VirtualCenter (Config config))" for es
    using that
  proof (induction es)
    case (Cons e es)
    obtain k v where e: "e = (k, v)" by fastforce
    have mem: "(k, v) \<in> set (VirtualCenter (Config config))" using Cons.prems e by simp
    then have ip: "VCenterIP v = k" using assms by (auto simp: keyed_by_address_def)
    have entry: "vcenter_entry config k = Some v"
      using mem assms by (simp add: keyed_by_address_def)
    have "missing_vcenters config configured (e # es) =
        (if configured k = None
         then [\<lparr>vc_Server = k, vc_Datacenters = split_on CHR '','' (cfg_Datacenters v)\<rparr>] else [])
        @ missing_vcenters config configured es"
      unfolding missing_vcenters_def e by (simp add: map_filter_simps ip entry)
    moreover have "vc_Server ` set (missing_vcenters config configured es) =
        {s \<in> set (keys es). configured s = None}"
      using Cons by simp
    ultimately show ?case by (cases "configured k = None") (auto simp: e)
  qed (simp add: missing_vcenters_def map_filter_simps)
  show ?thesis by (rule part) simp
qed

text \<open>
  C40: with a legacy configuration and some vCenter in the platform spec, the conversion keeps every
  vCenter and failure domain that is there, in place, and adds exactly the vCenters of the
  configuration that are missing; one failure domain, made from the workspace, is added when there
  is none.
\<close>
theorem ConvertToPlatformSpec_completes:
  assumes "Platform_VSphere infra = Some spec" and "VCenters spec \<noteq> []"
    and "LegacyConfig config = Some lg" and "keyed_by_address config"
  shows "\<exists>spec' added. Platform_VSphere (ConvertToPlatformSpec (Some config) infra) = Some spec'
     \<and> VCenters spec' = VCenters spec @ added
     \<and> servers spec' = servers spec \<union> set (keys (VirtualCenter (Config config)))
     \<and> vc_Server ` set added \<inter> servers spec = {}
     \<and> (FailureDomains spec \<noteq> [] \<longrightarrow> FailureDomains spec' = FailureDomains spec)
     \<and> (FailureDomains spec = [] \<longrightarrow>
          map fd_Server (FailureDomains spec') = [ws_VCenterIP (lg_Workspace lg)]
          \<and> map fd_Datastore (FailureDomains spec') = [ws_DefaultDatastore (lg_Workspace lg)])"
proof -
  let ?added = "missing_vcenters config (vCentersToMap (VCenters spec)) (VirtualCenter (Config config))"
  let ?spec' = "convert_spec config spec"
  note eq = convert_spec_legacy [OF assms(3,2)]
  have added: "vc_Server ` set ?added =
      {s \<in> set (keys (VirtualCenter (Config config))). s \<notin> servers spec}"
    using missing_servers [OF assms(4)] by (simp add: vCentersToMap_None servers_def)
  have "Platform_VSphere (ConvertToPlatformSpec (Some config) infra) = Some ?spec'"
    using assms(1) by (simp add: ConvertToPlatformSpec_def)
  moreover have "servers ?spec' = servers spec \<union> set (keys (VirtualCenter (Config config)))"
    using added by (auto simp: eq servers_def image_Un)
  moreover have "vc_Server ` set ?added \<inter> servers spec = {}"
    using added by auto
  ultimately show ?thesis
    by (intro exI [of _ ?spec'] exI [of _ ?added])
      (simp add: eq addFailureDomainsToPlatformSpec_def)
qed

lemma missing_none:
  assumes "keyed_by_address config" and "set (keys (VirtualCenter (Config config))) \<subseteq> servers spec"
  shows "missing_vcenters config (vCentersToMap (VCenters spec)) (VirtualCenter (Config config)) = []"
proof -
  have "vc_Server ` set (missing_vcenters config (vCentersToMap (VCenters spec))
      (VirtualCenter (Config config))) = {}"
    using assms(2) unfolding missing_servers [OF assms(1)] vCentersToMap_None servers_def by auto
  then show ?thesis by simp
qed

lemma convert_spec_fixed:
  assumes "keyed_by_address config" and "VCenters spec \<noteq> []" and "FailureDomains spec \<noteq> []"
    and "set (keys (VirtualCenter (Config config))) \<subseteq> servers spec"
  shows "convert_spec config spec = spec"
proof (cases "LegacyConfig config")
  case (Some lg)
  from convert_spec_legacy [OF this assms(2)] missing_none [OF assms(1,4)] assms(3)
  show ?thesis by simp
qed (simp add: convert_spec_def)

text \<open>The workspace of a legacy configuration with one vCenter names that vCenter.\<close>

definition workspace_names_vcenter :: "VSphereConfig \<Rightarrow> bool" where
  "workspace_names_vcenter config \<longleftrightarrow>
     (\<forall>lg k v. LegacyConfig config = Some lg \<longrightarrow> VirtualCenter (Config config) = [(k, v)] \<longrightarrow>
        ws_VCenterIP (lg_Workspace lg) = k)"

lemma convert_spec_idem:
  assumes "keyed_by_address config" and "workspace_names_vcenter config"
  shows "convert_spec config (convert_spec config spec) = convert_spec config spec"
proof (cases "LegacyConfig config")
  case None
  then show ?thesis by (simp add: convert_spec_def)
next
  case (Some lg)
  show ?thesis
  proof (cases "VCenters spec = []")
    case False
    have "set (keys (VirtualCenter (Config config))) \<subseteq> servers (convert_spec config spec)"
      using missing_servers [OF assms(1), of "vCentersToMap (VCenters spec)"]
      by (auto simp: convert_spec_legacy [OF Some False] servers_def image_Un vCentersToMap_None)
    moreover have "VCenters (convert_spec config spec) \<noteq> []"
      "FailureDomains (convert_spec config spec) \<noteq> []"
      using False by (simp_all add: convert_spec_legacy [OF Some False] addFailureDomainsToPlatformSpec_def)
    ultimately show ?thesis using convert_spec_fixed [OF assms(1)] by blast
  next
    case True
    show ?thesis
    proof (cases "length (VirtualCenter (Config config)) = 1
        \<and> map_of (lg_VirtualCenter lg) (ws_VCenterIP (lg_Workspace lg)) \<noteq> None")
      case False
      then have "convert_spec config spec = spec"
        using True Some by (auto simp: convert_spec_def convertIntreeToPlatformSpec_def Let_def)
      then show ?thesis by simp
    next
      case one: True
      then obtain kv where kv: "VirtualCenter (Config config) = [kv]" by (auto simp: length_Suc_conv)
      obtain k v where "kv = (k, v)" by fastforce
      with kv have k: "VirtualCenter (Config config) = [(k, v)]" by simp
      have ws: "ws_VCenterIP (lg_Workspace lg) = k"
        using assms(2) Some k unfolding workspace_names_vcenter_def by blast
      have c: "convert_spec config spec = convertIntreeToPlatformSpec lg spec"
        using True Some k by (simp add: convert_spec_def)
      obtain dcs where "map_of (lg_VirtualCenter lg) k = Some dcs" using one ws by auto
      then have "VCenters (convert_spec config spec) \<noteq> []"
        "FailureDomains (convert_spec config spec) \<noteq> []" "k \<in> servers (convert_spec config spec)"
        by (simp_all add: c convertIntreeToPlatformSpec_def addFailureDomainsToPlatformSpec_def ws
            servers_def Let_def)
      then show ?thesis using convert_spec_fixed [OF assms(1)] by (simp add: k)
    qed
  qed
qed

text \<open>
  The conversion is idempotent: it runs on every sync, and a platform spec it has completed is
  left as it is (for a configuration keyed by address whose workspace names its vCenter).
\<close>
theorem ConvertToPlatformSpec_idempotent:
  assumes "keyed_by_address config" and "workspace_names_vcenter config"
  shows "ConvertToPlatformSpec (Some config) (ConvertToPlatformSpec (Some config) infra)
           = ConvertToPlatformSpec (Some config) infra"
  using convert_spec_idem [OF assms] by (simp add: ConvertToPlatformSpec_def)

subsection \<open>Witnesses\<close>

lemma example_keyed: "keyed_by_address example_config" "workspace_names_vcenter example_config"
  by (simp_all add: keyed_by_address_def workspace_names_vcenter_def example_config_def)

theorem ConvertToPlatformSpec_idempotent_witness:
  "ConvertToPlatformSpec (Some example_config) (ConvertToPlatformSpec (Some example_config) example_infra)
     = ConvertToPlatformSpec (Some example_config) example_infra"
  using ConvertToPlatformSpec_idempotent [OF example_keyed] by simp

definition spec_vc0 :: VSpherePlatformSpec where
  "spec_vc0 = \<lparr>VCenters = [\<lparr>vc_Server = ''vc0'', vc_Datacenters = [''dc0'']\<rparr>], FailureDomains = []\<rparr>"

theorem ConvertToPlatformSpec_completes_witness:
  "\<exists>spec'. Platform_VSphere (ConvertToPlatformSpec (Some example_config)
       (example_infra\<lparr>Platform_VSphere := Some spec_vc0\<rparr>)) = Some spec' \<and> servers spec' = {''vc0'', ''vc1''}"
proof -
  obtain lg where lg: "LegacyConfig example_config = Some lg" by (simp add: example_config_def)
  have "Platform_VSphere (example_infra\<lparr>Platform_VSphere := Some spec_vc0\<rparr>) = Some spec_vc0"
    "VCenters spec_vc0 \<noteq> []" by (simp_all add: spec_vc0_def)
  from ConvertToPlatformSpec_completes [OF this lg example_keyed(1)] obtain spec' where
    "Platform_VSphere (ConvertToPlatformSpec (Some example_config)
       (example_infra\<lparr>Platform_VSphere := Some spec_vc0\<rparr>)) = Some spec'"
    "servers spec' = servers spec_vc0 \<union> set (keys (VirtualCenter (Config example_config)))" by blast
  then show ?thesis by (auto simp: servers_def spec_vc0_def example_config_def)
qed

end
