(* ===== verification/Driver_Config.thy ===== *)
theory Driver_Config
  imports Storage_Policy Platform_Spec "HOL-Library.Multiset"
begin

text \<open>
  \<open>vspherecontroller.go\<close>, the credentials and the configuration of the CSI driver: logging in to
  the vCenters of the infrastructure object, the \<open>cloud.conf\<close> file made from the two templates in
  \<open>assets/\<close>, and the deletion of the old ConfigMap. A lister is a function from namespace and name;
  the data of a Secret or ConfigMap is a map.
\<close>

subsection \<open>Logging in\<close>

type_synonym SecretLister = "string \<Rightarrow> string \<Rightarrow> (string \<rightharpoonup> string) result"

definition cloudCredSecretName :: string where
  "cloudCredSecretName = ''vmware-vsphere-cloud-credentials''"

definition missing_key :: "string \<Rightarrow> go_error" where
  "missing_key k = Failure (''error parsing secret '' @ quote cloudCredSecretName @ '': key ''
     @ quote k @ '' not found'')"

text \<open>The loop of \<open>createVCenterConnection\<close>; the connections made before an error stay.\<close>

fun create_connections ::
  "SecretLister \<Rightarrow> string \<Rightarrow> VSphereConfig \<Rightarrow> VCenterSpec list \<Rightarrow> VSphereConnection list
     \<Rightarrow> go_error option \<times> VSphereConnection list" where
  "create_connections secrets ns cfg [] conns = (None, conns)"
| "create_connections secrets ns cfg (vcenter # rest) conns =
     (case secrets ns cloudCredSecretName of
        Inl err \<Rightarrow> (Some err, conns)
      | Inr data \<Rightarrow>
          (let userKey = vc_Server vcenter @ ''.'' @ ''username'';
               passwordKey = vc_Server vcenter @ ''.'' @ ''password''
           in case data userKey of
                None \<Rightarrow> (Some (missing_key userKey), conns)
              | Some username \<Rightarrow>
                  (case data passwordKey of
                     None \<Rightarrow> (Some (missing_key passwordKey), conns)
                   | Some password \<Rightarrow>
                       (case NewVSphereConnection username password (vc_Server vcenter) cfg of
                          Inl err \<Rightarrow>
                            (Some (Failure (''error creating new vsphere connection: '' @ err_msg err)), conns)
                        | Inr vs \<Rightarrow> create_connections secrets ns cfg rest (conns @ [vs])))))"

definition createVCenterConnection ::
  "SecretLister \<Rightarrow> string \<Rightarrow> VSphereConfig \<Rightarrow> Infrastructure \<Rightarrow> VSphereConnection list
     \<Rightarrow> (go_error option \<times> VSphereConnection list) outcome" where
  "createVCenterConnection secrets ns cfg infra conns =
     (case Platform_VSphere infra of
        None \<Rightarrow> Panicked nil_deref
      | Some spec \<Rightarrow> Returned (create_connections secrets ns cfg (VCenters spec) conns))"

text \<open>The loop over \<open>vConn.Connect\<close>; it stops at the first error, the rest stay closed.\<close>

fun connect_all ::
  "VCService \<Rightarrow> VSphereConnection list \<Rightarrow> session_log
     \<Rightarrow> go_error option \<times> VSphereConnection list \<times> session_log" where
  "connect_all svc [] log = (None, [], log)"
| "connect_all svc (c # cs) log =
     (case Connect svc c log of
        (Some err, c', log') \<Rightarrow> (Some err, c' # cs, log')
      | (None, c', log') \<Rightarrow>
          (case connect_all svc cs log' of (err, cs', log'') \<Rightarrow> (err, c' # cs', log'')))"

definition loginToVCenter ::
  "VCService \<Rightarrow> SecretLister \<Rightarrow> string \<Rightarrow> VSphereConfig \<Rightarrow> Infrastructure \<Rightarrow> VSphereConnection list
     \<Rightarrow> session_log \<Rightarrow> (ClusterCheckResult \<times> VSphereConnection list \<times> session_log) outcome" where
  "loginToVCenter svc secrets ns cfg infra conns log =
     obind (createVCenterConnection secrets ns cfg infra conns) (\<lambda>(immediateError, conns1).
       Returned (case immediateError of
         Some err \<Rightarrow> (MakeClusterDegradedError CheckStatusOpenshiftAPIError err, conns1, log)
       | None \<Rightarrow>
           (case connect_all svc conns1 log of
              (Some err, conns2, log2) \<Rightarrow>
                (\<lparr>CheckError = Some err, CheckStatus = CheckStatusVSphereConnectionFailed,
                  Action = CheckActionBlockUpgradeOrDegrade,
                  Reason = ''Failed to connect to vSphere: '' @ err_msg err\<rparr>, conns2, log2)
            | (None, conns2, log2) \<Rightarrow> (MakeClusterCheckResultPass, conns2, log2))))"

definition closed_conn :: "VSphereConnection \<Rightarrow> bool" where
  "closed_conn c \<longleftrightarrow> Client c = None \<and> \<not> RestClient c"

lemma held_closed [simp]: "closed_conn c \<Longrightarrow> held c = []"
  by (simp add: closed_conn_def held_def)

lemma NewVSphereConnection_closed: "NewVSphereConnection u p v cfg = Inr c \<Longrightarrow> closed_conn c"
  using NewVSphereConnection_ok by (simp add: closed_conn_def)

lemma create_connections_cases:
  assumes "create_connections secrets ns cfg (v # vcs) conns = (err, conns')"
  shows "conns' = conns
    \<or> (\<exists>u p vs. NewVSphereConnection u p (vc_Server v) cfg = Inr vs
         \<and> create_connections secrets ns cfg vcs (conns @ [vs]) = (err, conns'))"
  using assms by (auto simp: Let_def split: sum.splits option.splits)

lemma create_connections_closed:
  "create_connections secrets ns cfg vcs conns = (err, conns') \<Longrightarrow> \<forall>c \<in> set conns. closed_conn c \<Longrightarrow>
     \<forall>c \<in> set conns'. closed_conn c"
proof (induction vcs arbitrary: conns)
  case (Cons v vcs)
  from create_connections_cases [OF Cons.prems(1)] show ?case
  proof (elim disjE exE conjE)
    fix u p vs
    assume "NewVSphereConnection u p (vc_Server v) cfg = Inr vs"
      and "create_connections secrets ns cfg vcs (conns @ [vs]) = (err, conns')"
    with Cons.IH [of "conns @ [vs]"] Cons.prems(2) NewVSphereConnection_closed show ?thesis by auto
  qed (use Cons.prems in simp)
qed simp

lemma connect_all_held:
  "connect_all svc conns log = (err, conns', log') \<Longrightarrow> \<forall>c \<in> set conns. closed_conn c \<Longrightarrow>
     log' = log @ concat (map held conns')
     \<and> (err = None \<longrightarrow> (\<forall>c \<in> set conns'. Client c \<noteq> None \<and> RestClient c))"
proof (induction conns arbitrary: log conns' log' err)
  case (Cons c cs)
  obtain e c' l where c: "Connect svc c log = (e, c', l)" by (metis surj_pair)
  have l: "l = log @ held c'" "e = None \<longrightarrow> Client c' \<noteq> None \<and> RestClient c'"
    using Connect_held [OF c] Cons.prems(2) by (auto simp: closed_conn_def)
  show ?case
  proof (cases e)
    case None
    obtain e1 cs' l1 where r: "connect_all svc cs l = (e1, cs', l1)" by (metis surj_pair)
    with None Cons.prems c have "conns' = c' # cs'" "log' = l1" "err = e1" by simp_all
    with Cons.IH [OF r] Cons.prems(2) l None show ?thesis by simp
  next
    case (Some err1)
    with Cons.prems c l have "conns' = c' # cs" "log' = l" "err = Some err1"
      "concat (map held cs) = []" by (auto simp: concat_eq_Nil_conv)
    with l show ?thesis by simp
  qed
qed simp

text \<open>
  After a login: the log grew by the sessions the connections hold, and the result is the pass
  result, a degrading one, or a failed connection.
\<close>

lemma loginToVCenter_held:
  assumes "loginToVCenter svc secrets ns cfg infra [] log = Returned (result, conns, log')"
  shows "log' = log @ concat (map held conns) \<and> wf_result result
     \<and> (CheckError result = None \<longrightarrow> (\<forall>c \<in> set conns. Client c \<noteq> None \<and> RestClient c))
     \<and> (CheckError result \<noteq> None \<longrightarrow> Action result = CheckActionDegrade
          \<or> Action result = CheckActionBlockUpgradeOrDegrade
            \<and> CheckStatus result = CheckStatusVSphereConnectionFailed)"
proof -
  obtain spec where spec: "Platform_VSphere infra = Some spec"
    using assms by (cases "Platform_VSphere infra")
      (auto simp: loginToVCenter_def createVCenterConnection_def)
  obtain err conns1 where made: "create_connections secrets ns cfg (VCenters spec) [] = (err, conns1)"
    by fastforce
  have closed: "\<forall>c \<in> set conns1. closed_conn c"
    using create_connections_closed [OF made] by simp
  show ?thesis
  proof (cases err)
    case (Some e)
    with assms spec made have res: "result = MakeClusterDegradedError CheckStatusOpenshiftAPIError e"
      "conns = conns1" "log' = log"
      by (simp_all add: loginToVCenter_def createVCenterConnection_def)
    have nil: "concat (map held conns1) = []" using closed by (simp add: concat_eq_Nil_conv)
    have "CheckError result \<noteq> None" "wf_result result"
      by (simp_all add: res(1)) (simp add: MakeClusterDegradedError_def)
    then show ?thesis using res nil by auto
  next
    case None
    obtain e conns2 log2 where c: "connect_all svc conns1 log = (e, conns2, log2)" by (metis surj_pair)
    with None assms spec made have res: "conns = conns2" "log' = log2"
      by (auto simp: loginToVCenter_def createVCenterConnection_def split: option.splits)
    note held = connect_all_held [OF c closed]
    have "wf_result result \<and> (CheckError result = None \<longleftrightarrow> e = None)
        \<and> (CheckError result \<noteq> None \<longrightarrow> Action result = CheckActionBlockUpgradeOrDegrade
            \<and> CheckStatus result = CheckStatusVSphereConnectionFailed)"
      using None assms spec made c
      by (auto simp: loginToVCenter_def createVCenterConnection_def wf_result_def check_simps
          has_suffix_iff split: option.splits)
    with held res show ?thesis by auto
  qed
qed

text \<open>
  After a login that reports success there is one connection per vCenter of the Infrastructure
  object, in its order, to the host the configuration names for it, and both its clients are there.
\<close>

definition logged_in_everywhere :: "VSphereConfig \<Rightarrow> Infrastructure \<Rightarrow> VSphereConnection list \<Rightarrow> bool" where
  "logged_in_everywhere cfg infra conns \<longleftrightarrow>
     (\<exists>spec. Platform_VSphere infra = Some spec
       \<and> list_all2 (\<lambda>v c. (\<exists>e. vcenter_entry cfg (vc_Server v) = Some e \<and> Hostname c = VCenterIP e)
           \<and> Client c \<noteq> None \<and> RestClient c) (VCenters spec) conns)"

lemma create_connections_all:
  "create_connections secrets ns cfg vcs conns = (None, conns') \<Longrightarrow>
     \<exists>new. conns' = conns @ new
       \<and> list_all2 (\<lambda>v c. \<exists>e. vcenter_entry cfg (vc_Server v) = Some e \<and> Hostname c = VCenterIP e) vcs new"
proof (induction vcs arbitrary: conns)
  case (Cons v vcs)
  then obtain u q vs where n: "NewVSphereConnection u q (vc_Server v) cfg = Inr vs"
    and r: "create_connections secrets ns cfg vcs (conns @ [vs]) = (None, conns')"
    by (auto simp: Let_def split: sum.splits option.splits)
  from Cons.IH [OF r] NewVSphereConnection_ok [OF n] show ?case by force
qed simp

lemma connect_all_hosts:
  "connect_all svc conns log = (None, conns', log') \<Longrightarrow> \<forall>c \<in> set conns. closed_conn c \<Longrightarrow>
     list_all2 (\<lambda>c c'. Hostname c' = Hostname c \<and> Client c' \<noteq> None \<and> RestClient c') conns conns'"
proof (induction conns arbitrary: log conns')
  case (Cons c cs)
  obtain e c' l where c: "Connect svc c log = (e, c', l)" by (metis surj_pair)
  obtain e1 cs' l1 where r: "connect_all svc cs l = (e1, cs', l1)" by (metis surj_pair)
  from c r Cons.prems(1) have "e = None" "conns' = c' # cs'" "e1 = None" "l1 = log'"
    by (auto split: option.splits)
  with Cons.IH [of l cs'] r Connect_held [OF c] Cons.prems(2) show ?case by (simp add: closed_conn_def)
qed simp

lemma loginToVCenter_connects:
  assumes "loginToVCenter svc secrets ns cfg infra [] log = Returned (result, conns, log')"
    and "CheckError result = None"
  shows "logged_in_everywhere cfg infra conns"
proof -
  obtain spec where spec: "Platform_VSphere infra = Some spec"
    using assms(1) by (cases "Platform_VSphere infra")
      (auto simp: loginToVCenter_def createVCenterConnection_def)
  obtain err conns1 where made: "create_connections secrets ns cfg (VCenters spec) [] = (err, conns1)"
    by fastforce
  obtain e conns2 log2 where c: "connect_all svc conns1 log = (e, conns2, log2)" by (metis surj_pair)
  have ok: "err = None" "e = None" "conns2 = conns"
    using assms spec made c
    by (auto simp: loginToVCenter_def createVCenterConnection_def check_simps split: option.splits)
  have "\<forall>c \<in> set conns1. closed_conn c" using create_connections_closed [OF made] by simp
  from connect_all_hosts [OF _ this] c ok have
    "list_all2 (\<lambda>c c'. Hostname c' = Hostname c \<and> Client c' \<noteq> None \<and> RestClient c') conns1 conns" by simp
  moreover have "list_all2 (\<lambda>v c. \<exists>e. vcenter_entry cfg (vc_Server v) = Some e \<and> Hostname c = VCenterIP e)
      (VCenters spec) conns1"
    using create_connections_all [of secrets ns cfg "VCenters spec" "[]" conns1] made ok by simp
  ultimately show ?thesis
    using spec by (auto simp: logged_in_everywhere_def list_all2_conv_all_nth)
qed

lemma logout_all_balances:
  "mset (logout_all svc conns log) = mset log + mset (map undo (concat (map held conns)))"
proof -
  have "mset (concat (map (\<lambda>c. map undo (rev (held c))) cs)) = mset (map undo (concat (map held cs)))"
    for cs by (induction cs) simp_all
  then show ?thesis by (simp add: logout_all_undoes)
qed

text \<open>
  C22: no vCenter session leaks. Whatever fails while the sync logs in, the deferred logout of its
  connections closes exactly the sessions that were opened, each once, and after a login that
  reports success every connection has both its clients.
\<close>
theorem loginToVCenter_sessions_closed:
  assumes "loginToVCenter svc secrets ns cfg infra [] log = Returned (result, conns, log')"
  shows "\<exists>opened. log' = log @ opened
      \<and> mset (logout_all svc conns log') = mset log' + mset (map undo opened)
      \<and> wf_result result
      \<and> (CheckError result = None \<longrightarrow> (\<forall>c \<in> set conns. Client c \<noteq> None \<and> RestClient c))"
  using loginToVCenter_held [OF assms] logout_all_balances
  by (intro exI [of _ "concat (map held conns)"]) blast

subsection \<open>Credentials\<close>

definition defaultNamespace :: string where
  "defaultNamespace = ''openshift-cluster-csi-drivers''"

text \<open>
  A key that is not in the Secret reads as the empty string. The test for empty key names in the
  code can never hold.
\<close>

definition getUserAndPassword :: "SecretLister \<Rightarrow> string \<Rightarrow> (string \<times> string) result" where
  "getUserAndPassword secrets vcenter =
     (case secrets defaultNamespace cloudCredSecretName of
        Inl err \<Rightarrow> Inl err
      | Inr data \<Rightarrow>
          (let usernameKey = vcenter @ ''.username''; passwordKey = vcenter @ ''.password''
           in Inr (case data usernameKey of None \<Rightarrow> [] | Some u \<Rightarrow> u,
                   case data passwordKey of None \<Rightarrow> [] | Some p \<Rightarrow> p)))"

abbreviation quote_char :: char where
  "quote_char \<equiv> CHR 0x22"

abbreviation backslash :: char where
  "backslash \<equiv> CHR 0x5C"

definition escapeQuotesAndBackslashes :: "string \<Rightarrow> string" where
  "escapeQuotesAndBackslashes input =
     concat (map (\<lambda>c. if c = quote_char \<or> c = backslash then [backslash, c] else [c]) input)"

definition is_alnum :: "char \<Rightarrow> bool" where
  "is_alnum c \<longleftrightarrow> (let n = (of_char c :: nat)
     in 48 \<le> n \<and> n \<le> 57 \<or> 65 \<le> n \<and> n \<le> 90 \<or> 97 \<le> n \<and> n \<le> 122)"

text \<open>The regular expression \<open>^[a-zA-Z0-9.-]+\\[a-zA-Z0-9._-]+$\<close>.\<close>

definition domain_user :: "string \<Rightarrow> bool" where
  "domain_user s =
     (let domain = takeWhile (\<lambda>c. c \<noteq> backslash) s; rest = dropWhile (\<lambda>c. c \<noteq> backslash) s
      in domain \<noteq> [] \<and> list_all (\<lambda>c. is_alnum c \<or> c = CHR ''.'' \<or> c = CHR ''-'') domain
         \<and> (case rest of
              [] \<Rightarrow> False
            | _ # user \<Rightarrow> user \<noteq> []
                \<and> list_all (\<lambda>c. is_alnum c \<or> c = CHR ''.'' \<or> c = CHR ''_'' \<or> c = CHR ''-'') user))"

definition escapeBackslashInUsername :: "string \<Rightarrow> string" where
  "escapeBackslashInUsername input =
     (if domain_user input then escapeQuotesAndBackslashes input else input)"

definition escapeUserAndPassword :: "string \<Rightarrow> string \<Rightarrow> string \<times> string" where
  "escapeUserAndPassword username password =
     (escapeBackslashInUsername username, escapeQuotesAndBackslashes password)"

text \<open>
  How a quoted value is read: a backslash makes the next character literal, an unescaped quote
  ends the value. The result is the value and the text after the closing quote.
\<close>

fun read_quoted :: "string \<Rightarrow> (string \<times> string) option" where
  "read_quoted [] = None"
| "read_quoted (c # s) =
     (if c = quote_char then Some ([], s)
      else if c = backslash then
        (case s of [] \<Rightarrow> None | d # s' \<Rightarrow> map_option (\<lambda>(v, r). (d # v, r)) (read_quoted s'))
      else map_option (\<lambda>(v, r). (c # v, r)) (read_quoted s))"

text \<open>
  C23: an escaped password cannot break out of its quotes: whatever characters it has and whatever
  text follows, reading the quoted value gives back exactly the password, and the rest of the file
  is left as it was. The same holds for a user of the form domain, backslash, name.
\<close>
theorem escaped_value_reads_back:
  "read_quoted (escapeQuotesAndBackslashes p @ quote_char # rest) = Some (p, rest)
   \<and> (domain_user u \<longrightarrow>
        read_quoted (fst (escapeUserAndPassword u p) @ quote_char # rest) = Some (u, rest))"
proof -
  have "read_quoted (escapeQuotesAndBackslashes q @ quote_char # rest) = Some (q, rest)" for q
    by (induction q) (auto simp: escapeQuotesAndBackslashes_def)
  then show ?thesis by (simp add: escapeUserAndPassword_def escapeBackslashInUsername_def)
qed

definition domain_login :: string where
  "domain_login = [CHR ''d'', backslash, CHR ''u'']"

theorem escaped_value_reads_back_witness:
  "read_quoted (fst (escapeUserAndPassword domain_login ''p'') @ quote_char # ''x'') = Some (domain_login, ''x'')"
proof -
  have "domain_user domain_login" by code_simp
  with escaped_value_reads_back [of "''p''" "''x''" domain_login] show ?thesis by blast
qed

subsection \<open>Templates\<close>

text \<open>\<open>assets/csi_cloud_config.ini\<close> and \<open>assets/csi_cloud_config_vcenters.ini\<close>.\<close>

definition csi_cloud_config :: string where
  "csi_cloud_config =
     ''# Labels with topology values are added dynamically via operator'' @ nl @ nl
     @ ''[Global]'' @ nl @ ''cluster-id = '' @ [quote_char] @ ''${CLUSTER_ID}'' @ [quote_char] @ nl @ nl
     @ ''# Populate VCenters (multi) after here'' @ nl @ ''${VCENTERS}'' @ nl @ nl"

definition csi_cloud_config_vcenters :: string where
  "csi_cloud_config_vcenters =
     ''[VirtualCenter '' @ [quote_char] @ ''${VCENTER}'' @ [quote_char] @ '']'' @ nl
     @ ''insecure-flag = true'' @ nl @ ''datacenters = '' @ ''${DATACENTERS}'' @ nl
     @ ''password = '' @ [quote_char] @ ''${PASSWORD}'' @ [quote_char] @ nl
     @ ''user = '' @ [quote_char] @ ''${USER}'' @ [quote_char]"

text \<open>A loop over a Go map of patterns; the list is the order of this iteration.\<close>

definition replace_each :: "(string \<times> string) list \<Rightarrow> string \<Rightarrow> string" where
  "replace_each pairs s = foldl (\<lambda>s (pattern, val). replace_all s pattern val) s pairs"

text \<open>
  The four replacements of a vCenter section. \<open>order\<close> is how Go happens to iterate over the map
  literal: it returns its argument in some order.
\<close>

type_synonym map_order = "(string \<times> string) list \<Rightarrow> (string \<times> string) list"

definition lawful_order :: "map_order \<Rightarrow> bool" where
  "lawful_order order \<longleftrightarrow> (\<forall>m. mset (order m) = mset m)"

definition vcenter_pairs :: "VirtualCenterConfig \<Rightarrow> string \<Rightarrow> string \<Rightarrow> (string \<times> string) list" where
  "vcenter_pairs vcenter escapedUser escapedPassword =
     [(''${VCENTER}'', VCenterIP vcenter), (''${DATACENTERS}'', cfg_Datacenters vcenter),
      (''${PASSWORD}'', escapedPassword), (''${USER}'', escapedUser)]"

definition vcenter_section ::
  "map_order \<Rightarrow> SecretLister \<Rightarrow> bool \<Rightarrow> string \<Rightarrow> VirtualCenterConfig \<Rightarrow> string result" where
  "vcenter_section order secrets single datastoreURL vcenter =
     (case getUserAndPassword secrets (VCenterIP vcenter) of
        Inl err \<Rightarrow> Inl (Failure (''error getting user and password: '' @ err_msg err))
      | Inr (user, password) \<Rightarrow>
          (let (escapedUser, escapedPassword) = escapeUserAndPassword user password;
               vcenterStr = replace_each (order (vcenter_pairs vcenter escapedUser escapedPassword))
                              csi_cloud_config_vcenters
           in Inr (if single
                   then vcenterStr @ nl @ ''migration-datastore-url = '' @ [quote_char] @ datastoreURL
                          @ [quote_char]
                   else vcenterStr)))"

text \<open>The loop over the sorted keys; the sections are joined, each after a newline.\<close>

fun vcenter_sections ::
  "map_order \<Rightarrow> SecretLister \<Rightarrow> bool \<Rightarrow> string \<Rightarrow> VirtualCenterConfig list \<Rightarrow> string result" where
  "vcenter_sections order secrets single url [] = Inr []"
| "vcenter_sections order secrets single url (v # vs) =
     rbind (vcenter_section order secrets single url v) (\<lambda>s.
     rbind (vcenter_sections order secrets single url vs) (\<lambda>rest. Inr (nl @ s @ rest)))"

definition sorted_vcenters :: "VSphereConfig \<Rightarrow> VirtualCenterConfig list" where
  "sorted_vcenters cfg =
     map (\<lambda>k. the (vcenter_entry cfg k)) (sort (keys (VirtualCenter (Config cfg))))"

definition cloud_conf_tail :: "ClusterCSIDriver \<Rightarrow> Infrastructure \<Rightarrow> string" where
  "cloud_conf_tail clusterCSIDriver infra =
     (let topologyCategories = GetTopologyCategories clusterCSIDriver infra;
          snapshotOptions = GetSnapshotOptions (Some clusterCSIDriver)
      in (if 0 < length topologyCategories
          then nl @ ''[Labels]'' @ nl @ ''topology-categories = '' @ [quote_char]
                 @ join '','' topologyCategories @ [quote_char] else [])
         @ (if 0 < length snapshotOptions
            then nl @ ''[Snapshot]''
                 @ concat (map (\<lambda>(k, v). nl @ k @ '' = '' @ v) snapshotOptions) else [])
         @ nl)"

text \<open>The text stored under \<open>cloud.conf\<close>.\<close>

definition cloud_conf ::
  "map_order \<Rightarrow> string \<Rightarrow> SecretLister \<Rightarrow> Infrastructure \<Rightarrow> VSphereConfig \<Rightarrow> ClusterCSIDriver \<Rightarrow> string
     \<Rightarrow> string result" where
  "cloud_conf order csiConfigManifest secrets infra sourceCFG clusterCSIDriver datastoreURL =
     (let vCenters = sorted_vcenters sourceCFG
      in rbind (vcenter_sections order secrets (length vCenters < 2) datastoreURL vCenters) (\<lambda>vcenters.
         Inr (replace_each (order [(''${CLUSTER_ID}'', InfrastructureName infra), (''${VCENTERS}'', vcenters)])
                csiConfigManifest
              @ cloud_conf_tail clusterCSIDriver infra)))"

text \<open>The required Secret: the manifest's name and namespace and its data with \<open>cloud.conf\<close> set.\<close>

record Secret =
  sec_Name :: string
  sec_Namespace :: string
  sec_Data :: "string \<rightharpoonup> string"

definition applyClusterCSIDriverChange ::
  "map_order \<Rightarrow> string \<Rightarrow> Secret \<Rightarrow> SecretLister \<Rightarrow> Infrastructure \<Rightarrow> VSphereConfig
     \<Rightarrow> ClusterCSIDriver \<Rightarrow> string \<Rightarrow> Secret result" where
  "applyClusterCSIDriverChange order csiConfigManifest secretManifest secrets infra sourceCFG
     clusterCSIDriver datastoreURL =
     rbind (cloud_conf order csiConfigManifest secrets infra sourceCFG clusterCSIDriver datastoreURL)
       (\<lambda>csiConfigString.
         Inr (secretManifest\<lparr>sec_Data := (sec_Data secretManifest)(''cloud.conf'' \<mapsto> csiConfigString)\<rparr>))"

subsection \<open>Filling a template\<close>

text \<open>A template as the pieces it is made of: literal text and holes \<open>${NAME}\<close>.\<close>

datatype piece = Lit string | Hole string

fun piece_text :: "piece \<Rightarrow> string" where
  "piece_text (Lit s) = s"
| "piece_text (Hole n) = CHR ''$'' # CHR ''{'' # n @ ''}''"

definition render :: "piece list \<Rightarrow> string" where
  "render ps = concat (map piece_text ps)"

abbreviation no_dollar :: "string \<Rightarrow> bool" where
  "no_dollar s \<equiv> CHR ''$'' \<notin> set s"

fun ok_piece :: "piece \<Rightarrow> bool" where
  "ok_piece (Lit s) = no_dollar s"
| "ok_piece (Hole n) = (no_dollar n \<and> CHR ''}'' \<notin> set n)"

definition fill :: "string \<Rightarrow> string \<Rightarrow> piece list \<Rightarrow> piece list" where
  "fill n v ps = map (\<lambda>p. if p = Hole n then Lit v else p) ps"

lemma replace_all_lit:
  "no_dollar s \<Longrightarrow> replace_all (s @ t) (CHR ''$'' # old) new = s @ replace_all t (CHR ''$'' # old) new"
  by (induction s) (auto simp: has_prefix_def)

lemma braces_inj:
  assumes "CHR ''}'' \<notin> set m" and "CHR ''}'' \<notin> set n" and "m @ CHR ''}'' # t = n @ CHR ''}'' # u"
  shows "m = n"
proof -
  have "takeWhile (\<lambda>c. c \<noteq> CHR ''}'') (m @ CHR ''}'' # t) = m"
    using assms(1) by (intro takeWhile_append_stop) auto
  moreover have "takeWhile (\<lambda>c. c \<noteq> CHR ''}'') (n @ CHR ''}'' # u) = n"
    using assms(2) by (intro takeWhile_append_stop) auto
  ultimately show ?thesis using assms(3) by metis
qed

lemma replace_all_hole:
  "replace_all (piece_text (Hole n) @ t) (piece_text (Hole n)) v = v @ replace_all t (piece_text (Hole n)) v"
proof -
  have "has_prefix (piece_text (Hole n) @ t) (piece_text (Hole n))" by (rule has_prefix_append)
  moreover have "drop (length (piece_text (Hole n))) (piece_text (Hole n) @ t) = t"
    by (simp only: drop_append drop_all order_refl diff_self_eq_0 drop_0 append_Nil)
  ultimately show ?thesis by (simp del: has_prefix_append)
qed

lemma replace_all_other_hole:
  assumes "ok_piece (Hole m)" and "ok_piece (Hole n)" and "m \<noteq> n"
  shows "replace_all (piece_text (Hole m) @ t) (piece_text (Hole n)) v =
     piece_text (Hole m) @ replace_all t (piece_text (Hole n)) v"
proof -
  have "\<not> has_prefix (piece_text (Hole m) @ t) (piece_text (Hole n))"
    using assms braces_inj [of m n t] by (auto simp: has_prefix_iff)
  then have "replace_all (piece_text (Hole m) @ t) (piece_text (Hole n)) v =
      CHR ''$'' # replace_all ((CHR ''{'' # m @ ''}'') @ t) (piece_text (Hole n)) v"
    by simp
  moreover have "no_dollar (CHR ''{'' # m @ ''}'')" using assms(1) by simp
  ultimately show ?thesis
    using replace_all_lit [of "CHR ''{'' # m @ ''}''" t "CHR ''{'' # n @ ''}''" v] by simp
qed

lemma replace_all_render:
  assumes "ok_piece (Hole n)"
  shows "\<forall>p \<in> set ps. ok_piece p \<Longrightarrow>
     replace_all (render ps) (piece_text (Hole n)) v = render (fill n v ps)"
proof (induction ps)
  case Nil
  show ?case by (simp add: render_def fill_def)
next
  case (Cons p ps)
  then have IH: "replace_all (render ps) (piece_text (Hole n)) v = render (fill n v ps)" by simp
  have step: "render (p # ps) = piece_text p @ render ps" for p ps by (simp add: render_def)
  show ?case
  proof (cases p)
    case (Lit s)
    with Cons.prems have "no_dollar s" by simp
    then show ?thesis
      using IH replace_all_lit [of s "render ps" "CHR ''{'' # n @ ''}''" v]
      by (simp add: step Lit fill_def)
  next
    case (Hole m)
    show ?thesis
    proof (cases "m = n")
      case True
      then show ?thesis using IH replace_all_hole [of n "render ps" v]
        by (simp add: step Hole fill_def del: piece_text.simps(2))
    next
      case False
      have "ok_piece (Hole m)" using Cons.prems Hole by simp
      then show ?thesis using IH replace_all_other_hole [OF _ assms False, of "render ps" v] False
        by (simp add: step Hole fill_def del: piece_text.simps(2) ok_piece.simps(2))
    qed
  qed
qed

definition hole_pairs :: "(string \<times> string) list \<Rightarrow> (string \<times> string) list" where
  "hole_pairs nvs = map (\<lambda>(n, v). (piece_text (Hole n), v)) nvs"

definition fill_all :: "(string \<rightharpoonup> string) \<Rightarrow> piece list \<Rightarrow> piece list" where
  "fill_all m ps = map (\<lambda>p. case p of Lit s \<Rightarrow> Lit s
     | Hole n \<Rightarrow> (case m n of None \<Rightarrow> Hole n | Some v \<Rightarrow> Lit v)) ps"

lemma fill_then_all: "m n = None \<Longrightarrow> fill_all m (fill n v ps) = fill_all (m(n \<mapsto> v)) ps"
  by (auto simp: fill_all_def fill_def split: piece.split)

lemma replace_each_render:
  "\<forall>p \<in> set ps. ok_piece p \<Longrightarrow> \<forall>(n, v) \<in> set nvs. ok_piece (Hole n) \<and> no_dollar v \<Longrightarrow>
   distinct (keys nvs) \<Longrightarrow> replace_each (hole_pairs nvs) (render ps) = render (fill_all (map_of nvs) ps)"
proof (induction nvs arbitrary: ps)
  case Nil
  have "fill_all (map_of []) ps = ps"
    by (auto simp: fill_all_def intro!: map_idI split: piece.split)
  then show ?case by (simp add: replace_each_def hole_pairs_def)
next
  case (Cons nv nvs)
  obtain n v where nv: "nv = (n, v)" by fastforce
  have ok: "ok_piece (Hole n)" "no_dollar v" using Cons.prems(2) by (simp_all add: nv)
  have "\<forall>p \<in> set (fill n v ps). ok_piece p"
    using Cons.prems(1) ok(2) by (auto simp: fill_def)
  then have "replace_each (hole_pairs nvs) (render (fill n v ps)) = render (fill_all (map_of nvs) (fill n v ps))"
    using Cons.prems(2,3) by (intro Cons.IH) auto
  moreover have "map_of nvs n = None"
    using Cons.prems(3) by (simp add: nv map_of_eq_None_iff)
  moreover have "replace_each (hole_pairs ((n, v) # nvs)) (render ps) =
      replace_each (hole_pairs nvs) (replace_all (render ps) (piece_text (Hole n)) v)"
    by (simp add: replace_each_def hole_pairs_def)
  ultimately show ?case
    using replace_all_render [OF ok(1) Cons.prems(1)] fill_then_all [of "map_of nvs" n v ps]
    by (simp add: nv fun_upd_def)
qed

lemma replace_each_any_order:
  assumes "\<forall>p \<in> set ps. ok_piece p" and "\<forall>(n, v) \<in> set nvs. ok_piece (Hole n) \<and> no_dollar v"
    and "distinct (keys nvs)" and "lawful_order order"
  shows "replace_each (order (hole_pairs nvs)) (render ps) = render (fill_all (map_of nvs) ps)"
proof -
  let ?xs = "order (hole_pairs nvs)" and ?un = "\<lambda>(p, v). (butlast (drop 2 p), v)"
  let ?us = "map ?un ?xs"
  have perm: "mset ?xs = mset (hole_pairs nvs)"
    using assms(4) by (simp add: lawful_order_def)
  have "map ?un (hole_pairs nvs) = nvs" by (simp add: hole_pairs_def comp_def case_prod_beta)
  then have us: "mset ?us = mset nvs" using perm by (metis mset_map)
  have "set ?xs = set (hole_pairs nvs)" using perm by (metis set_mset_mset)
  then have "\<forall>x \<in> set ?xs. (\<lambda>(n, v). (piece_text (Hole n), v)) (?un x) = x"
    by (auto simp: hole_pairs_def)
  then have xs: "hole_pairs ?us = ?xs" by (simp add: hole_pairs_def map_idI)
  have "mset (keys ?us) = mset (keys nvs)" using us by (metis mset_map)
  then have dist: "distinct (keys ?us)" using assms(3) by (metis mset_eq_imp_distinct_iff)
  have same: "set ?us = set nvs" using us by (metis set_mset_mset)
  then have "map_of ?us = map_of nvs"
    using dist assms(3) by (intro map_of_distinct_perm) simp_all
  moreover have "\<forall>(n, v) \<in> set ?us. ok_piece (Hole n) \<and> no_dollar v"
    unfolding same by (rule assms(2))
  ultimately show ?thesis
    using replace_each_render [OF assms(1), of ?us] dist by (simp add: xs)
qed

subsection \<open>The configuration file\<close>

definition vcenter_pieces :: "piece list" where
  "vcenter_pieces =
     [Lit (''[VirtualCenter '' @ [quote_char]), Hole ''VCENTER'',
      Lit ([quote_char] @ '']'' @ nl @ ''insecure-flag = true'' @ nl @ ''datacenters = ''),
      Hole ''DATACENTERS'', Lit (nl @ ''password = '' @ [quote_char]), Hole ''PASSWORD'',
      Lit ([quote_char] @ nl @ ''user = '' @ [quote_char]), Hole ''USER'', Lit [quote_char]]"

definition config_pieces :: "piece list" where
  "config_pieces =
     [Lit (''# Labels with topology values are added dynamically via operator'' @ nl @ nl
        @ ''[Global]'' @ nl @ ''cluster-id = '' @ [quote_char]), Hole ''CLUSTER_ID'',
      Lit ([quote_char] @ nl @ nl @ ''# Populate VCenters (multi) after here'' @ nl),
      Hole ''VCENTERS'', Lit (nl @ nl)]"

lemma render_vcenter: "render vcenter_pieces = csi_cloud_config_vcenters"
  by (simp add: render_def vcenter_pieces_def csi_cloud_config_vcenters_def)

lemma render_config: "render config_pieces = csi_cloud_config"
  by (simp add: render_def config_pieces_def csi_cloud_config_def)

lemma pieces_ok: "\<forall>p \<in> set vcenter_pieces. ok_piece p" "\<forall>p \<in> set config_pieces. ok_piece p"
  by (simp_all add: vcenter_pieces_def config_pieces_def nl_def)

lemma no_dollar_escape [simp]:
  "no_dollar (escapeQuotesAndBackslashes p) = no_dollar p"
  "no_dollar (escapeBackslashInUsername u) = no_dollar u"
proof -
  show e: "no_dollar (escapeQuotesAndBackslashes q) = no_dollar q" for q
    by (induction q) (auto simp: escapeQuotesAndBackslashes_def)
  show "no_dollar (escapeBackslashInUsername u) = no_dollar u"
    using e [of u] by (simp add: escapeBackslashInUsername_def)
qed

text \<open>The text of a section, given the data of the credentials secret.\<close>

definition credential :: "(string \<rightharpoonup> string) \<Rightarrow> string \<Rightarrow> string \<Rightarrow> string" where
  "credential data vcenter key = (case data (vcenter @ key) of None \<Rightarrow> [] | Some v \<Rightarrow> v)"

definition vcenter_text :: "(string \<rightharpoonup> string) \<Rightarrow> bool \<Rightarrow> string \<Rightarrow> VirtualCenterConfig \<Rightarrow> string" where
  "vcenter_text data single url v =
     ''[VirtualCenter '' @ [quote_char] @ VCenterIP v @ [quote_char] @ '']'' @ nl
     @ ''insecure-flag = true'' @ nl @ ''datacenters = '' @ cfg_Datacenters v @ nl
     @ ''password = '' @ [quote_char]
     @ escapeQuotesAndBackslashes (credential data (VCenterIP v) ''.password'') @ [quote_char] @ nl
     @ ''user = '' @ [quote_char]
     @ escapeBackslashInUsername (credential data (VCenterIP v) ''.username'') @ [quote_char]
     @ (if single then nl @ ''migration-datastore-url = '' @ [quote_char] @ url @ [quote_char] else [])"

definition plain_vcenter :: "(string \<rightharpoonup> string) \<Rightarrow> VirtualCenterConfig \<Rightarrow> bool" where
  "plain_vcenter data v \<longleftrightarrow> no_dollar (VCenterIP v) \<and> no_dollar (cfg_Datacenters v)
     \<and> no_dollar (credential data (VCenterIP v) ''.username'')
     \<and> no_dollar (credential data (VCenterIP v) ''.password'')"

lemma vcenter_section_text:
  assumes "lawful_order order" and "secrets defaultNamespace cloudCredSecretName = Inr data"
    and "plain_vcenter data v"
  shows "vcenter_section order secrets single url v = Inr (vcenter_text data single url v)"
proof -
  let ?u = "escapeBackslashInUsername (credential data (VCenterIP v) ''.username'')"
  let ?p = "escapeQuotesAndBackslashes (credential data (VCenterIP v) ''.password'')"
  let ?nvs = "[(''VCENTER'', VCenterIP v), (''DATACENTERS'', cfg_Datacenters v), (''PASSWORD'', ?p), (''USER'', ?u)]"
  have "vcenter_pairs v ?u ?p = hole_pairs ?nvs"
    by (simp add: vcenter_pairs_def hole_pairs_def)
  moreover have "\<forall>(n, w) \<in> set ?nvs. ok_piece (Hole n) \<and> no_dollar w"
    using assms(3) by (simp add: plain_vcenter_def)
  ultimately have "replace_each (order (vcenter_pairs v ?u ?p)) csi_cloud_config_vcenters =
      render (fill_all (map_of ?nvs) vcenter_pieces)"
    using replace_each_any_order [OF pieces_ok(1) _ _ assms(1), of ?nvs] by (simp add: render_vcenter)
  moreover have "render (fill_all (map_of ?nvs) vcenter_pieces) @ (if single
      then nl @ ''migration-datastore-url = '' @ [quote_char] @ url @ [quote_char] else [])
      = vcenter_text data single url v"
    by (simp add: vcenter_text_def fill_all_def vcenter_pieces_def render_def)
  ultimately show ?thesis
    using assms(2)
    by (cases single) (simp_all add: vcenter_section_def getUserAndPassword_def escapeUserAndPassword_def
        credential_def Let_def)
qed

lemma vcenter_sections_text:
  assumes "lawful_order order" and "secrets defaultNamespace cloudCredSecretName = Inr data"
  shows "\<forall>v \<in> set vs. plain_vcenter data v \<Longrightarrow>
     vcenter_sections order secrets single url vs = Inr (concat (map (\<lambda>v. nl @ vcenter_text data single url v) vs))"
  using vcenter_section_text [where order = order and secrets = secrets and data = data] assms
  by (induction vs) simp_all

lemma no_dollar_text: "plain_vcenter data v \<Longrightarrow> no_dollar url \<Longrightarrow> no_dollar (vcenter_text data single url v)"
  by (simp add: vcenter_text_def plain_vcenter_def nl_def)

text \<open>
  C24: the configuration file of the CSI driver, for values without a dollar sign. Go iterates over
  the replacement maps in any order, but the file is the same for every order: the cluster id, one
  section per vCenter sorted by key with its own address, datacenters and escaped credentials, the
  datastore URL only when there is a single vCenter, then the topology and snapshot options.
\<close>
theorem cloud_conf_any_order:
  assumes "lawful_order order" and "secrets defaultNamespace cloudCredSecretName = Inr data"
    and "\<forall>v \<in> set (sorted_vcenters cfg). plain_vcenter data v"
    and "no_dollar (InfrastructureName infra)" and "no_dollar url"
  shows "cloud_conf order csi_cloud_config secrets infra cfg d url = Inr
     (''# Labels with topology values are added dynamically via operator'' @ nl @ nl
      @ ''[Global]'' @ nl @ ''cluster-id = '' @ [quote_char] @ InfrastructureName infra @ [quote_char] @ nl @ nl
      @ ''# Populate VCenters (multi) after here'' @ nl
      @ concat (map (\<lambda>v. nl @ vcenter_text data (length (sorted_vcenters cfg) < 2) url v) (sorted_vcenters cfg))
      @ nl @ nl @ cloud_conf_tail d infra)"
proof -
  let ?vs = "sorted_vcenters cfg"
  let ?sections = "concat (map (\<lambda>v. nl @ vcenter_text data (length ?vs < 2) url v) ?vs)"
  let ?nvs = "[(''CLUSTER_ID'', InfrastructureName infra), (''VCENTERS'', ?sections)]"
  have plain: "no_dollar ?sections"
    using assms(3,5) no_dollar_text by (auto simp: nl_def)
  have "hole_pairs ?nvs = [(''${CLUSTER_ID}'', InfrastructureName infra), (''${VCENTERS}'', ?sections)]"
    by (simp add: hole_pairs_def)
  moreover have "\<forall>(n, w) \<in> set ?nvs. ok_piece (Hole n) \<and> no_dollar w"
    using assms(4) plain by (simp del: set_concat)
  ultimately have "replace_each (order [(''${CLUSTER_ID}'', InfrastructureName infra), (''${VCENTERS}'', ?sections)])
      csi_cloud_config = render (fill_all (map_of ?nvs) config_pieces)"
    using replace_each_any_order [OF pieces_ok(2) _ _ assms(1), of ?nvs] by (simp add: render_config)
  then show ?thesis
    using vcenter_sections_text [where order = order and secrets = secrets and data = data
        and vs = ?vs and single = "length ?vs < 2" and url = url] assms(1-3)
    by (simp add: cloud_conf_def Let_def fill_all_def config_pieces_def render_def)
qed

text \<open>
  With a dollar sign in a value the file does depend on the iteration order of the map: for the
  user bob and the password \<open>${USER}\<close> one order writes that password and another one writes bob.
\<close>
theorem cloud_conf_order_matters:
  "\<exists>order order'. lawful_order order \<and> lawful_order order'
     \<and> replace_each (order (vcenter_pairs \<lparr>VCenterIP = ''v'', InsecureFlag = True, cfg_Datacenters = ''d''\<rparr>
           ''bob'' ''${USER}'')) csi_cloud_config_vcenters
       \<noteq> replace_each (order' (vcenter_pairs \<lparr>VCenterIP = ''v'', InsecureFlag = True, cfg_Datacenters = ''d''\<rparr>
           ''bob'' ''${USER}'')) csi_cloud_config_vcenters"
proof (intro exI conjI)
  show "lawful_order id" "lawful_order rev" by (simp_all add: lawful_order_def)
  show "replace_each (id (vcenter_pairs \<lparr>VCenterIP = ''v'', InsecureFlag = True, cfg_Datacenters = ''d''\<rparr>
           ''bob'' ''${USER}'')) csi_cloud_config_vcenters
       \<noteq> replace_each (rev (vcenter_pairs \<lparr>VCenterIP = ''v'', InsecureFlag = True, cfg_Datacenters = ''d''\<rparr>
           ''bob'' ''${USER}'')) csi_cloud_config_vcenters"
    by (simp add: vcenter_pairs_def replace_each_def csi_cloud_config_vcenters_def has_prefix_def nl_def)
qed

subsection \<open>The Secret and the old ConfigMap\<close>

text \<open>The loop over the connections: the URL of the last one is kept.\<close>

fun default_datastore_url ::
  "Infrastructure \<Rightarrow> VSphereConnection list \<Rightarrow> string \<Rightarrow> string result outcome" where
  "default_datastore_url infra [] url = Returned (Inr url)"
| "default_datastore_url infra (c # cs) url =
     obind (NewStoragePolicyAPI c infra) (\<lambda>api.
     obind (policy_GetDefaultDatastore api) (\<lambda>ds. case ds of
       Inl err \<Rightarrow> Returned (Inl (Failure (''unable to fetch default datastore url: '' @ err_msg err)))
     | Inr d \<Rightarrow> default_datastore_url infra cs (ds_Summary_Url d)))"

text \<open>The result is the error and the Secret handed to \<open>ApplySecret\<close>, when it gets that far.\<close>

definition createCSISecret ::
  "map_order \<Rightarrow> string \<Rightarrow> Secret \<Rightarrow> SecretLister \<Rightarrow> (Secret \<Rightarrow> go_error option)
     \<Rightarrow> VSphereConnection list \<Rightarrow> VSphereConfig \<Rightarrow> Infrastructure \<Rightarrow> ClusterCSIDriver
     \<Rightarrow> (go_error option \<times> Secret option) outcome" where
  "createCSISecret order csiConfigManifest secretManifest secrets applySecret vSphereConnections
     cloudConfig infra clusterCSIDriver =
     (case Platform_VSphere infra of
        None \<Rightarrow> Panicked nil_deref
      | Some spec \<Rightarrow>
          obind (if length (VCenters spec) = 1 then default_datastore_url infra vSphereConnections []
                 else Returned (Inr [])) (\<lambda>url. Returned (case url of
            Inl err \<Rightarrow> (Some err, None)
          | Inr datastoreURL \<Rightarrow>
              (case applyClusterCSIDriverChange order csiConfigManifest secretManifest secrets infra
                      cloudConfig clusterCSIDriver datastoreURL of
                 Inl err \<Rightarrow> (Some err, None)
               | Inr requiredSecret \<Rightarrow>
                   (case applySecret requiredSecret of
                      Some err \<Rightarrow> (Some (Failure (''error applying vsphere csi driver config: ''
                                     @ err_msg err)), Some requiredSecret)
                    | None \<Rightarrow> (None, Some requiredSecret))))))"

definition legacyConfigMapName :: string where
  "legacyConfigMapName = ''vsphere-csi-config''"

text \<open>The delete calls, namespace and name; their errors are only logged.\<close>

definition deleteConfigMapIfExists ::
  "ConfigMapLister \<Rightarrow> string \<Rightarrow> string \<Rightarrow> string \<Rightarrow> (string \<times> string) list" where
  "deleteConfigMapIfExists configMaps targetNamespace name namespace =
     (case configMaps targetNamespace cloudCredSecretName of
        Inl err \<Rightarrow> []
      | Inr data \<Rightarrow> [(namespace, name)])"

text \<open>
  The old ConfigMap is not deleted on account of its own existence: the code looks up the name
  of the credentials Secret instead. Where no ConfigMap has that name, nothing is ever deleted,
  however many syncs run while the old ConfigMap is there.
\<close>
theorem legacy_ConfigMap_stays:
  assumes "configMaps ns cloudCredSecretName = Inl (NotFound e)"
    and "configMaps ns legacyConfigMapName = Inr data"
  shows "deleteConfigMapIfExists configMaps ns legacyConfigMapName ns = []"
  using assms by (simp add: deleteConfigMapIfExists_def)

theorem legacy_ConfigMap_stays_witness:
  "deleteConfigMapIfExists (\<lambda>ns n. if n = legacyConfigMapName then Inr Map.empty else Inl (NotFound n))
      ''ns'' legacyConfigMapName ''ns'' = []"
  by (rule legacy_ConfigMap_stays) (simp_all add: cloudCredSecretName_def legacyConfigMapName_def)

subsection \<open>Witnesses\<close>

definition example_secrets :: SecretLister where
  "example_secrets ns n = Inr [''vc1.username'' \<mapsto> ''bob'', ''vc1.password'' \<mapsto> ''pw'']"

theorem cloud_conf_any_order_witness:
  "\<exists>text. cloud_conf rev csi_cloud_config example_secrets example_infra example_config
       \<lparr>DriverType = [], DriverConfig_VSphere = None, Spec_StorageClassState = EmptyState\<rparr> ''url'' = Inr text"
proof -
  have "lawful_order rev" by (simp add: lawful_order_def)
  moreover have "sorted_vcenters example_config =
      [\<lparr>VCenterIP = ''vc1'', InsecureFlag = True, cfg_Datacenters = ''dc1''\<rparr>]"
    by (simp add: sorted_vcenters_def example_config_def)
  ultimately show ?thesis
    using cloud_conf_any_order [of rev example_secrets "[''vc1.username'' \<mapsto> ''bob'', ''vc1.password'' \<mapsto> ''pw'']"
        example_config example_infra "''url''"]
    by (simp add: example_secrets_def plain_vcenter_def credential_def example_infra_def)
qed

definition example_service :: VCService where
  "example_service =
     \<lparr>svc_ParseURL = (\<lambda>h. Inr ()), svc_NewClient = (\<lambda>h i. Inr example_client),
      svc_Login = (\<lambda>h u p. Inr ()), svc_RestLogin = (\<lambda>h u p. Inl (Failure ''rest'')),
      svc_RestLogout = (\<lambda>h. Inr ()), svc_Logout = (\<lambda>h. Inr ())\<rparr>"

theorem loginToVCenter_sessions_closed_witness:
  "\<exists>result conns. loginToVCenter example_service example_secrets ''ns'' example_config
       (example_infra\<lparr>Platform_VSphere := Some one_domain\<rparr>) [] [] =
       Returned (result, conns, [SoapLogin ''vc1''])
     \<and> mset (logout_all example_service conns [SoapLogin ''vc1'']) = {#SoapLogin ''vc1'', SoapLogout ''vc1''#}"
proof -
  obtain result conns where l: "loginToVCenter example_service example_secrets ''ns'' example_config
       (example_infra\<lparr>Platform_VSphere := Some one_domain\<rparr>) [] [] =
       Returned (result, conns, [SoapLogin ''vc1''])"
    by (simp add: loginToVCenter_def createVCenterConnection_def one_domain_def example_secrets_def
        NewVSphereConnection_def GetVCenterHostname_def IsInsecure_def example_config_def Connect_def
        NewClient_def example_service_def Let_def)
  from loginToVCenter_sessions_closed [OF l] l show ?thesis by auto
qed

end
