(* ===== verification/Driver_Starter.thy ===== *)
theory Driver_Starter
  imports Conditions Driver_Config
begin

text \<open>
  \<open>vspherecontroller/driver_starter.go\<close> and \<open>driverfeaturescontroller.go\<close>: the hooks that adjust the
  Deployment and the DaemonSet of the CSI driver before they are applied, the predicates that decide
  whether conditional resources are created or deleted, the feature ConfigMap of the driver, and the
  controller that removes the conditions of the old webhook (library-go \<open>staleconditions\<close>). SHA-256
  in hexadecimal, the hash of a Secret and the process environment are parameters.
\<close>

subsection \<open>Workloads\<close>

record EnvVar =
  ev_Name :: string
  ev_Value :: string
  ev_SecretKeyRef :: "(string \<times> string) option" \<comment> \<open>name of the Secret and key\<close>

record Container =
  ct_Name :: string
  ct_Image :: string
  ct_Args :: "string list"
  ct_Env :: "EnvVar list"
  ct_VolumeMounts :: "(string \<times> string) list" \<comment> \<open>read-only mounts: volume and path\<close>

text \<open>A Deployment or DaemonSet, as far as the hooks look at it; a nil annotation map is \<open>None\<close>.\<close>

record Workload =
  wl_Annotations :: "(string \<rightharpoonup> string) option"
  tpl_Annotations :: "(string \<rightharpoonup> string) option"
  InitContainers :: "Container list"
  Containers :: "Container list"
  tpl_Volumes :: "(string \<times> string) list" \<comment> \<open>volume and ConfigMap\<close>
  NodeSelector :: "string \<rightharpoonup> string"
  wl_Replicas :: "int option"

definition plain_var :: "string \<Rightarrow> string \<Rightarrow> EnvVar" where
  "plain_var n v = \<lparr>ev_Name = n, ev_Value = v, ev_SecretKeyRef = None\<rparr>"

definition newSecretEnvVar :: "string \<Rightarrow> string \<Rightarrow> string \<Rightarrow> EnvVar" where
  "newSecretEnvVar secretName envVarName key =
     \<lparr>ev_Name = envVarName, ev_Value = [], ev_SecretKeyRef = Some (secretName, key)\<rparr>"

definition on_containers :: "(Container \<Rightarrow> Container) \<Rightarrow> Workload \<Rightarrow> Workload" where
  "on_containers f w = w\<lparr>Containers := map f (Containers w)\<rparr>"

subsection \<open>Hooks on the Deployment\<close>

definition add_args :: "string \<Rightarrow> string list \<Rightarrow> Container \<Rightarrow> Container" where
  "add_args containerName args c =
     (if ct_Name c \<noteq> containerName then c else c\<lparr>ct_Args := ct_Args c @ args\<rparr>)"

definition topologyHook ::
  "(string \<Rightarrow> ClusterCSIDriver result) \<Rightarrow> (string \<Rightarrow> Infrastructure result) \<Rightarrow> Workload
     \<Rightarrow> Workload result" where
  "topologyHook drivers infras deployment =
     rbind (drivers VSphereDriverName) (\<lambda>clusterCSIDriver.
     rbind (infras InfraGlobalName) (\<lambda>infra.
       Inr (if 0 < length (GetTopologyCategories clusterCSIDriver infra)
            then on_containers (add_args ''csi-provisioner''
                   [''--feature-gates=Topology=true'', ''--strict-topology'']) deployment
            else on_containers (add_args ''csi-provisioner''
                   [''--feature-gates=Topology=false'']) deployment)))"

definition envVMWareVsphereDriverSyncerImage :: string where
  "envVMWareVsphereDriverSyncerImage = ''VMWARE_VSPHERE_SYNCER_IMAGE''"

text \<open>\<open>os.Getenv\<close> reads a variable that is not set as the empty string.\<close>

definition WithSyncerImageHook :: "(string \<rightharpoonup> string) \<Rightarrow> string \<Rightarrow> Workload \<Rightarrow> Workload result" where
  "WithSyncerImageHook environ containerName deployment =
     Inr (on_containers (\<lambda>c. if ct_Name c = containerName
            then c\<lparr>ct_Image := (case environ envVMWareVsphereDriverSyncerImage of None \<Rightarrow> [] | Some i \<Rightarrow> i)\<rparr>
            else c) deployment)"

fun LogLevelToVerbosity :: "LogLevel \<Rightarrow> nat" where
  "LogLevelToVerbosity Normal = 2"
| "LogLevelToVerbosity Debug = 4"
| "LogLevelToVerbosity Trace = 6"
| "LogLevelToVerbosity TraceAll = 8"
| "LogLevelToVerbosity (OtherLevel s) = 2"

definition maybeAppendDebug :: "Container list \<Rightarrow> OperatorSpec \<Rightarrow> Container list" where
  "maybeAppendDebug cts opSpec =
     (if LogLevelToVerbosity (Spec_LogLevel opSpec) < LogLevelToVerbosity Debug then cts
      else map (\<lambda>c. if ct_Name c \<noteq> ''csi-driver'' \<and> ct_Name c \<noteq> ''vsphere-syncer'' then c
             else c\<lparr>ct_Env := ct_Env c @
               [plain_var ''X_CSI_DEBUG'' ''true'', plain_var ''LOGGER_LEVEL'' ''DEVELOPMENT'']\<rparr>) cts)"

definition WithLogLevelDeploymentHook :: "OperatorSpec \<Rightarrow> Workload \<Rightarrow> Workload result" where
  "WithLogLevelDeploymentHook opSpec w = Inr (w\<lparr>Containers := maybeAppendDebug (Containers w) opSpec\<rparr>)"

definition WithLogLevelDaemonSetHook :: "OperatorSpec \<Rightarrow> Workload \<Rightarrow> Workload result" where
  "WithLogLevelDaemonSetHook opSpec w = Inr (w\<lparr>Containers := maybeAppendDebug (Containers w) opSpec\<rparr>)"

subsection \<open>Hooks on the DaemonSet\<close>

definition annotation_prefix :: string where
  "annotation_prefix = ''operator.openshift.io/dep-''"

text \<open>A SHA-256 sum has 64 hexadecimal digits, so the slice of 63 characters is always there.\<close>

definition annotation_key :: "(string \<Rightarrow> string) \<Rightarrow> string \<Rightarrow> string" where
  "annotation_key sha256_hex k =
     (let annotationKey = annotation_prefix @ k
      in if 63 < length annotationKey then take 63 (annotation_prefix @ sha256_hex k)
         else annotationKey)"

text \<open>The loop over the hashes, in iteration order; both maps get the same entry.\<close>

fun add_hashes ::
  "(string \<Rightarrow> string) \<Rightarrow> (string \<times> string) list \<Rightarrow> (string \<rightharpoonup> string) \<times> (string \<rightharpoonup> string)
     \<Rightarrow> (string \<rightharpoonup> string) \<times> (string \<rightharpoonup> string)" where
  "add_hashes sha256_hex [] (own, tpl) = (own, tpl)"
| "add_hashes sha256_hex ((k, v) # rest) (own, tpl) =
     (let annotationKey = annotation_key sha256_hex k
      in add_hashes sha256_hex rest (own(annotationKey \<mapsto> v), tpl(annotationKey \<mapsto> v)))"

definition made_map :: "(string \<rightharpoonup> string) option \<Rightarrow> string \<rightharpoonup> string" where
  "made_map m = (case m of None \<Rightarrow> Map.empty | Some a \<Rightarrow> a)"

definition addObjectHash ::
  "(string \<Rightarrow> string) \<Rightarrow> Workload option \<Rightarrow> (string \<times> string) list \<Rightarrow> Workload result" where
  "addObjectHash sha256_hex daemonSet inputHashes =
     (case daemonSet of
        None \<Rightarrow> Inl (Failure ''invalid daemonSet: nil'')
      | Some ds \<Rightarrow>
          (case add_hashes sha256_hex inputHashes (made_map (wl_Annotations ds), made_map (tpl_Annotations ds))
           of (own, tpl) \<Rightarrow> Inr (ds\<lparr>wl_Annotations := Some own, tpl_Annotations := Some tpl\<rparr>)))"

text \<open>\<open>resourcehash\<close> for one Secret: a missing Secret is no entry.\<close>

definition secret_hashes ::
  "((string \<rightharpoonup> string) \<Rightarrow> string) \<Rightarrow> SecretLister \<Rightarrow> string \<Rightarrow> string \<Rightarrow> (string \<times> string) list result"
  where
  "secret_hashes secret_hash secrets namespace secretName =
     (case secrets namespace secretName of
        Inl err \<Rightarrow> if is_not_found err then Inr [] else Inl err
      | Inr data \<Rightarrow>
          Inr [(namespace @ ''.'' @ secretName @ ''.'' @ ''secret'', secret_hash data)])"

definition WithSecretDaemonSetAnnotationHook ::
  "(string \<Rightarrow> string) \<Rightarrow> ((string \<rightharpoonup> string) \<Rightarrow> string) \<Rightarrow> string \<Rightarrow> string \<Rightarrow> SecretLister \<Rightarrow> Workload
     \<Rightarrow> Workload result" where
  "WithSecretDaemonSetAnnotationHook sha256_hex secret_hash secretName namespace secrets ds =
     (case secret_hashes secret_hash secrets namespace secretName of
        Inl err \<Rightarrow> Inl (Failure (''invalid dependency reference: '' @ err_msg err))
      | Inr inputHashes \<Rightarrow> addObjectHash sha256_hex (Some ds) inputHashes)"

text \<open>The inner loop stops at the first variable of the name; the flag is \<open>envVarFound\<close>.\<close>

fun update_first :: "string \<Rightarrow> string \<Rightarrow> EnvVar list \<Rightarrow> EnvVar list \<times> bool" where
  "update_first n v [] = ([], False)"
| "update_first n v (e # es) =
     (if ev_Name e = n then (e\<lparr>ev_Value := v\<rparr> # es, True)
      else (case update_first n v es of (es', envVarFound) \<Rightarrow> (e # es', envVarFound)))"

definition set_or_append :: "string \<Rightarrow> string \<Rightarrow> EnvVar list \<Rightarrow> EnvVar list" where
  "set_or_append n v env =
     (case update_first n v env of
        (env', envVarFound) \<Rightarrow> if envVarFound then env' else env' @ [plain_var n v])"

definition MaxVolumesVar :: string where
  "MaxVolumesVar = ''MAX_VOLUMES_PER_NODE''"

definition WithMaxVolumesPerNodeDaemonSetHook ::
  "(string \<Rightarrow> ClusterCSIDriver result) \<Rightarrow> FeatureGate \<Rightarrow> Workload \<Rightarrow> Workload result" where
  "WithMaxVolumesPerNodeDaemonSetHook drivers fg ds =
     (if \<not> gate_enabled fg FeatureGateVSphereConfigurableMaxAllowedBlockVolumesPerNode then Inr ds
      else case drivers VSphereDriverName of
             Inl err \<Rightarrow> Inl (Failure (''failed to get ClusterCSIDriver: '' @ err_msg err))
           | Inr clusterCSIDriver \<Rightarrow>
               (let maxVolumesPerNode = GetMaxVolumesPerNode (Some clusterCSIDriver)
                in Inr (on_containers (\<lambda>c. c\<lparr>ct_Env :=
                     set_or_append MaxVolumesVar (format_int maxVolumesPerNode) (ct_Env c)\<rparr>) ds)))"

subsection \<open>Conditional resources\<close>

definition getOperatorSyncState :: "OperatorSpec result \<Rightarrow> ManagementState" where
  "getOperatorSyncState state =
     (case state of Inl err \<Rightarrow> Unmanaged | Inr opSpec \<Rightarrow> Spec_ManagementState opSpec)"

datatype resource_group = StaticResources | SnapshotClass | WebhookResources

text \<open>
  What the conditional static resources controllers ask: create, then delete. \<open>crd\<close> is the answer
  of the lookup of the VolumeSnapshotClass definition.
\<close>

fun should_create :: "resource_group \<Rightarrow> OperatorSpec result \<Rightarrow> go_error option \<Rightarrow> bool" where
  "should_create StaticResources state crd = (getOperatorSyncState state = Managed)"
| "should_create SnapshotClass state crd = (crd = None)"
| "should_create WebhookResources state crd = False"

fun should_delete :: "resource_group \<Rightarrow> OperatorSpec result \<Rightarrow> bool" where
  "should_delete StaticResources state = (getOperatorSyncState state = Removed)"
| "should_delete SnapshotClass state = False"
| "should_delete WebhookResources state = True"

text \<open>The files each group creates or deletes its objects from.\<close>

fun group_assets :: "resource_group \<Rightarrow> string list" where
  "group_assets StaticResources =
    [''rbac/privileged_role.yaml'', ''rbac/controller_privileged_binding.yaml'',
     ''rbac/node_privileged_binding.yaml'', ''rbac/csi_driver_controller_role.yaml'',
     ''rbac/csi_driver_controller_binding.yaml'', ''rbac/csi_driver_node_cluster_role.yaml'',
     ''rbac/csi_driver_node_cluster_binding.yaml'', ''rbac/csi_driver_node_role.yaml'',
     ''rbac/csi_driver_node_binding.yaml'', ''rbac/main_attacher_binding.yaml'',
     ''rbac/main_provisioner_binding.yaml'',
     ''rbac/volumesnapshot_reader_provisioner_binding.yaml'', ''rbac/main_resizer_binding.yaml'',
     ''rbac/storageclass_reader_resizer_binding.yaml'', ''rbac/kube_rbac_proxy_role.yaml'',
     ''rbac/kube_rbac_proxy_binding.yaml'', ''rbac/prometheus_role.yaml'',
     ''rbac/prometheus_rolebinding.yaml'', ''rbac/main_snapshotter_binding.yaml'',
     ''rbac/lease_leader_election_role.yaml'', ''rbac/lease_leader_election_rolebinding.yaml'',
     ''controller_sa.yaml'', ''controller_pdb.yaml'', ''node_sa.yaml'', ''csidriver.yaml'',
     ''service.yaml'', ''ca_configmap.yaml'']"
| "group_assets SnapshotClass = [''volumesnapshotclass.yaml'']"
| "group_assets WebhookResources =
    [''webhook/config.yaml'', ''webhook/sa.yaml'', ''webhook/service.yaml'',
     ''webhook/configuration.yaml'', ''webhook/rbac/role.yaml'',
     ''webhook/rbac/rolebinding.yaml'', ''webhook/pdb.yaml'', ''webhook/deployment.yaml'']"

text \<open>The files of the Deployment, the DaemonSet and the ServiceMonitor.\<close>

definition operand_assets :: "string list" where
  "operand_assets = [''controller.yaml'', ''node.yaml'', ''servicemonitor.yaml'']"

text \<open>The files \<open>RunOperator\<close> hands to the main controller and to the feature controller.\<close>

definition config_assets :: "string list" where
  "config_assets = [''vsphere_cloud_config_secret.yaml'', ''vsphere_features_config.yaml'']"

subsection \<open>The feature ConfigMap\<close>

definition isCSIMigrationSupported :: "Infrastructure \<Rightarrow> bool" where
  "isCSIMigrationSupported infra =
     (case Platform_VSphere infra of
        None \<Rightarrow> True
      | Some spec \<Rightarrow> if 1 < length (VCenters spec) then False else True)"

definition feature_data :: "(string \<rightharpoonup> string) \<Rightarrow> ClusterCSIDriver \<Rightarrow> Infrastructure \<Rightarrow> string \<rightharpoonup> string" where
  "feature_data manifest clusterCSIDriver infra =
     (let d1 = (if 0 < length (GetTopologyCategories clusterCSIDriver infra)
                then manifest(''improved-volume-topology'' \<mapsto> ''true'') else manifest)
      in if \<not> isCSIMigrationSupported infra then d1(''csi-migration'' \<mapsto> ''false'') else d1)"

text \<open>\<open>DriverFeaturesController.Sync\<close>: the error and the data of the applied ConfigMap.\<close>

definition Features_Sync ::
  "OperatorSpec result \<Rightarrow> (string \<Rightarrow> ClusterCSIDriver result) \<Rightarrow> (string \<Rightarrow> Infrastructure result)
     \<Rightarrow> (string \<rightharpoonup> string) \<Rightarrow> ((string \<rightharpoonup> string) \<Rightarrow> go_error option)
     \<Rightarrow> go_error option \<times> (string \<rightharpoonup> string) option" where
  "Features_Sync state drivers infras manifest applyConfigMap =
     (case state of
        Inl err \<Rightarrow> if is_not_found err then (None, None) else (Some err, None)
      | Inr opSpec \<Rightarrow>
          if Spec_ManagementState opSpec \<noteq> Managed then (None, None)
          else
            (case drivers VSphereDriverName of
               Inl err \<Rightarrow> (Some err, None)
             | Inr clusterCSIDriver \<Rightarrow>
                 (case infras InfraGlobalName of
                    Inl err \<Rightarrow> (Some err, None)
                  | Inr infra \<Rightarrow>
                      (let d = feature_data manifest clusterCSIDriver infra
                       in (applyConfigMap d, Some d)))))"

subsection \<open>Stale conditions\<close>

text \<open>
  The JSON patch (RFC 6902) on \<open>/status/conditions\<close>: test the type at an index, remove an index.
  The API server applies all of it or nothing.
\<close>

datatype patch_op = TestType int string | RemoveAt int

definition in_range :: "int \<Rightarrow> 'a list \<Rightarrow> bool" where
  "in_range i xs \<longleftrightarrow> 0 \<le> i \<and> nat i < length xs"

fun apply_patch :: "patch_op list \<Rightarrow> conditions \<Rightarrow> conditions option" where
  "apply_patch [] cs = Some cs"
| "apply_patch (TestType i t # ops) cs =
     (if in_range i cs \<and> cnd_Type (cs ! nat i) = t then apply_patch ops cs else None)"
| "apply_patch (RemoveAt i # ops) cs =
     (if in_range i cs then apply_patch ops (take (nat i) cs @ drop (Suc (nat i)) cs) else None)"

text \<open>The two loops of \<open>sync\<close>: over the conditions and over the types to remove.\<close>

fun stale_inner :: "string list \<Rightarrow> int \<Rightarrow> string \<Rightarrow> int \<times> patch_op list \<Rightarrow> int \<times> patch_op list" where
  "stale_inner [] i t (removedCount, patch) = (removedCount, patch)"
| "stale_inner (r # rs) i t (removedCount, patch) =
     (if t \<noteq> r then stale_inner rs i t (removedCount, patch)
      else
        (let removeAtIndex = (if patch \<noteq> [] then i - removedCount else i)
         in stale_inner rs i t
              (removedCount + 1, patch @ [TestType removeAtIndex r, RemoveAt removeAtIndex])))"

fun stale_outer :: "string list \<Rightarrow> int \<Rightarrow> conditions \<Rightarrow> int \<times> patch_op list \<Rightarrow> int \<times> patch_op list" where
  "stale_outer types i [] acc = acc"
| "stale_outer types i (c # cs) acc =
     stale_outer types (i + 1) cs (stale_inner types i (cnd_Type c) acc)"

definition stale_patch :: "string list \<Rightarrow> conditions \<Rightarrow> patch_op list" where
  "stale_patch types cs = snd (stale_outer types 0 cs (0, []))"

text \<open>\<open>sync\<close>: the patch that is sent, if any; \<open>None\<close> with no error when there is nothing to do.\<close>

definition stale_sync :: "string list \<Rightarrow> conditions result \<Rightarrow> patch_op list option result" where
  "stale_sync types state =
     (case state of
        Inl err \<Rightarrow> Inl err
      | Inr cs \<Rightarrow> (let p = stale_patch types cs in Inr (if p = [] then None else Some p)))"

definition webhook_conditions :: "string list" where
  "webhook_conditions =
     [''VMwareVSphereDriverWebhookControllerAvailable'',
      ''VMwareVSphereDriverWebhookControllerProgressing'',
      ''VMwareVSphereDriverWebhookControllerDegraded'']"

lemma apply_patch_append:
  "apply_patch (p @ q) cs = Option.bind (apply_patch p cs) (apply_patch q)"
  by (induction p cs rule: apply_patch.induct) auto

text \<open>With distinct types at most one of them matches a condition.\<close>

lemma stale_inner_none: "t \<notin> set rs \<Longrightarrow> stale_inner rs i t acc = acc"
  by (induction rs) (cases acc, auto)+

lemma stale_inner_one:
  "distinct rs \<Longrightarrow> stale_inner rs i t (n, p) =
     (if t \<in> set rs
      then let at = (if p \<noteq> [] then i - n else i) in (n + 1, p @ [TestType at t, RemoveAt at])
      else (n, p))"
  by (induction rs) (auto simp: stale_inner_none Let_def)

definition kept :: "string list \<Rightarrow> conditions \<Rightarrow> conditions" where
  "kept types cs = filter (\<lambda>c. cnd_Type c \<notin> set types) cs"

lemma kept_simps [simp]:
  "kept types [] = []"
  "kept types (c # cs) = (if cnd_Type c \<in> set types then kept types cs else c # kept types cs)"
  "kept types (xs @ ys) = kept types xs @ kept types ys"
  by (simp_all add: kept_def)

text \<open>The patch so far turns the conditions seen so far into the kept ones, whatever follows.\<close>

definition patch_ok :: "string list \<Rightarrow> conditions \<Rightarrow> int \<times> patch_op list \<Rightarrow> bool" where
  "patch_ok types seen acc \<longleftrightarrow>
     fst acc = int (length seen) - int (length (kept types seen))
     \<and> (snd acc = [] \<longrightarrow> kept types seen = seen)
     \<and> (\<forall>rest. apply_patch (snd acc) (seen @ rest) = Some (kept types seen @ rest))"

lemma patch_ok_step:
  assumes "distinct types" and "patch_ok types seen acc"
  shows "patch_ok types (seen @ [c]) (stale_inner types (int (length seen)) (cnd_Type c) acc)"
proof (cases "cnd_Type c \<in> set types")
  case True
  obtain n p where acc: "acc = (n, p)" by fastforce
  let ?k = "kept types seen"
  have at: "(if p \<noteq> [] then int (length seen) - n else int (length seen)) = int (length ?k)"
    using assms(2) by (auto simp: patch_ok_def acc)
  have "apply_patch (p @ [TestType (int (length ?k)) (cnd_Type c), RemoveAt (int (length ?k))])
      ((seen @ [c]) @ rest) = Some (?k @ rest)" for rest
    using assms(2) by (simp add: patch_ok_def acc apply_patch_append in_range_def)
  with True assms(2) show ?thesis
    by (simp add: acc stale_inner_one [OF assms(1)] at Let_def) (simp add: patch_ok_def)
next
  case False
  with assms(2) show ?thesis by (cases acc) (simp add: stale_inner_none patch_ok_def)
qed

lemma stale_outer_ok:
  assumes "distinct types"
  shows "patch_ok types seen acc \<Longrightarrow>
     patch_ok types (seen @ cs) (stale_outer types (int (length seen)) cs acc)"
proof (induction cs arbitrary: seen acc)
  case (Cons c cs)
  from Cons.IH [OF patch_ok_step [OF assms Cons.prems]] show ?case by (simp add: add.commute)
qed simp

text \<open>Every removal comes right after a test that the index holds a type to remove.\<close>

fun guarded :: "string list \<Rightarrow> patch_op list \<Rightarrow> bool" where
  "guarded types [] = True"
| "guarded types (TestType i t # RemoveAt j # p) = (i = j \<and> t \<in> set types \<and> guarded types p)"
| "guarded types p = False"

lemma guarded_append: "guarded types p \<Longrightarrow> guarded types q \<Longrightarrow> guarded types (p @ q)"
  by (induction types p rule: guarded.induct) auto

lemma guarded_snoc:
  "guarded types p \<Longrightarrow> t \<in> set types \<Longrightarrow> guarded types (p @ [TestType i t, RemoveAt i])"
  by (rule guarded_append) simp_all

lemma stale_inner_guarded:
  "guarded types (snd acc) \<Longrightarrow> set rs \<subseteq> set types \<Longrightarrow> guarded types (snd (stale_inner rs i t acc))"
  by (induction rs i t acc rule: stale_inner.induct) (auto simp: Let_def guarded_snoc)

lemma stale_outer_guarded:
  "guarded types (snd acc) \<Longrightarrow> guarded types (snd (stale_outer types i cs acc))"
  by (induction types i cs acc rule: stale_outer.induct) (auto intro: stale_inner_guarded)

lemma guarded_keeps:
  "guarded types p \<Longrightarrow> apply_patch p cs = Some cs' \<Longrightarrow> kept types cs' = kept types cs"
proof (induction types p arbitrary: cs rule: guarded.induct)
  case (2 types i t j p)
  let ?n = "nat i"
  from "2.prems" have r: "in_range i cs" "cnd_Type (cs ! ?n) \<in> set types"
    "apply_patch p (take ?n cs @ drop (Suc ?n) cs) = Some cs'" "guarded types p"
    by (auto split: if_splits)
  have "cs = take ?n cs @ cs ! ?n # drop (Suc ?n) cs"
    using r(1) by (intro id_take_nth_drop) (simp add: in_range_def)
  then have "kept types cs = kept types (take ?n cs @ drop (Suc ?n) cs)"
    using r(2) by (metis kept_simps(2,3))
  with "2.IH" [OF r(4,3)] show ?case by simp
qed auto

text \<open>
  The patch of the stale condition remover. Although each removal shifts the indices behind it,
  applying the patch to the conditions it was made from removes exactly the conditions of the given
  types; and applied to any other conditions, changed in the meantime, it is refused as a whole or
  still removes nothing but conditions of those types.
\<close>
theorem stale_patch_removes:
  assumes "distinct types"
  shows "apply_patch (stale_patch types cs) cs = Some (filter (\<lambda>c. cnd_Type c \<notin> set types) cs)
     \<and> (\<forall>now. case apply_patch (stale_patch types cs) now of
           None \<Rightarrow> True
         | Some left \<Rightarrow> filter (\<lambda>c. cnd_Type c \<notin> set types) left
                        = filter (\<lambda>c. cnd_Type c \<notin> set types) now)"
proof -
  have "patch_ok types [] (0, [])" by (simp add: patch_ok_def)
  from stale_outer_ok [OF assms this, of cs]
  have "apply_patch (stale_patch types cs) cs = Some (kept types cs)"
    by (simp add: patch_ok_def stale_patch_def) (metis append_Nil2)
  moreover have "guarded types (stale_patch types cs)"
    unfolding stale_patch_def by (rule stale_outer_guarded) simp
  ultimately show ?thesis
    using guarded_keeps [of types] by (auto simp: kept_def split: option.split)
qed

theorem stale_patch_removes_witness:
  "apply_patch (stale_patch webhook_conditions
       (map (\<lambda>t. new_condition t ConditionTrue [] []) (''A'' # webhook_conditions @ [''B''])))
     (map (\<lambda>t. new_condition t ConditionTrue [] []) (''A'' # webhook_conditions @ [''B''])) =
   Some [new_condition ''A'' ConditionTrue [] [], new_condition ''B'' ConditionTrue [] []]"
proof -
  have "distinct webhook_conditions" by (simp add: webhook_conditions_def)
  from stale_patch_removes [OF this, of "map (\<lambda>t. new_condition t ConditionTrue [] [])
      (''A'' # webhook_conditions @ [''B''])"]
  show ?thesis by (simp add: webhook_conditions_def)
qed

subsection \<open>What the hooks do\<close>

lemma update_first_found: "snd (update_first n v es) \<longleftrightarrow> n \<in> ev_Name ` set es"
  by (induction es) (auto split: prod.split)

text \<open>The value of a variable is the one listed first, the other variables are in their order.\<close>

definition env_value :: "string \<Rightarrow> EnvVar list \<Rightarrow> string option" where
  "env_value n es = map_option ev_Value (find (\<lambda>e. ev_Name e = n) es)"

abbreviation other_vars :: "string \<Rightarrow> EnvVar list \<Rightarrow> EnvVar list" where
  "other_vars n es \<equiv> filter (\<lambda>e. ev_Name e \<noteq> n) es"

lemma update_first_env:
  "other_vars n (fst (update_first n v es)) = other_vars n es"
  "map ev_Name (fst (update_first n v es)) = map ev_Name es"
  "env_value n (fst (update_first n v es)) = (if n \<in> ev_Name ` set es then Some v else None)"
  by (induction es) (auto simp: env_value_def split: prod.splits)

lemma update_first_again:
  "n \<in> ev_Name ` set es \<Longrightarrow> update_first n v (fst (update_first n v es)) = (fst (update_first n v es), True)"
  by (induction es) (auto split: prod.splits)

lemma update_first_absent: "n \<notin> ev_Name ` set es \<Longrightarrow> update_first n v es = (es, False)"
  by (induction es) auto

lemma set_or_append_present:
  "n \<in> ev_Name ` set es \<Longrightarrow> set_or_append n v es = fst (update_first n v es)"
  using update_first_found [of n v es] by (simp add: set_or_append_def case_prod_beta)

lemma set_or_append_absent: "n \<notin> ev_Name ` set es \<Longrightarrow> set_or_append n v es = es @ [plain_var n v]"
  by (simp add: set_or_append_def update_first_absent)

lemma set_or_append_env:
  "other_vars n (set_or_append n v es) = other_vars n es"
  "env_value n (set_or_append n v es) = Some v"
  "distinct (map ev_Name es) \<Longrightarrow> distinct (map ev_Name (set_or_append n v es))"
  "n \<in> ev_Name ` set (set_or_append n v es)"
proof -
  show "other_vars n (set_or_append n v es) = other_vars n es"
    by (cases "n \<in> ev_Name ` set es")
      (simp_all add: set_or_append_present set_or_append_absent update_first_env plain_var_def)
  show v: "env_value n (set_or_append n v es) = Some v"
  proof (cases "n \<in> ev_Name ` set es")
    case False
    then have "find (\<lambda>e. ev_Name e = n) (es @ [plain_var n v]) = Some (plain_var n v)"
      by (induction es) (auto simp: plain_var_def)
    with False show ?thesis by (simp add: set_or_append_absent env_value_def plain_var_def)
  qed (simp add: set_or_append_present update_first_env)
  show "distinct (map ev_Name (set_or_append n v es))" if "distinct (map ev_Name es)"
    using that
    by (cases "n \<in> ev_Name ` set es")
      (simp_all add: set_or_append_present set_or_append_absent update_first_env plain_var_def)
  show "n \<in> ev_Name ` set (set_or_append n v es)"
  proof -
    have "find (\<lambda>e. ev_Name e = n) (set_or_append n v es) \<noteq> None"
      using v by (auto simp: env_value_def)
    then show ?thesis by (auto simp: find_None_iff)
  qed
qed

lemma set_or_append_again: "set_or_append n v (set_or_append n v es) = set_or_append n v es"
proof (cases "n \<in> ev_Name ` set es")
  case True
  with set_or_append_env(4) [of n v es] show ?thesis
    by (simp add: set_or_append_present update_first_again)
next
  case False
  have "n \<in> ev_Name ` set (es @ [plain_var n v])" by (simp add: plain_var_def)
  moreover have "update_first n v (es @ [plain_var n v]) = (es @ [plain_var n v], True)"
    using False by (induction es) (auto simp: plain_var_def)
  ultimately show ?thesis using False by (simp add: set_or_append_absent set_or_append_present)
qed

lemma GetMaxVolumesPerNode_range: "0 < GetMaxVolumesPerNode d \<and> GetMaxVolumesPerNode d < 2 ^ 31"
proof -
  have "sint (w :: 32 word) < 2 ^ 31" for w using sint_lt [of w] by simp
  then show ?thesis
    by (auto simp: GetMaxVolumesPerNode_def MaxVolumesPerNodeVSphere7_def split: option.split)
qed

text \<open>
  With the feature gate on, the DaemonSet hook makes every container read the volume limit of
  the ClusterCSIDriver, a positive 32 bit number, from \<open>MAX_VOLUMES_PER_NODE\<close>: an entry that exists
  is overwritten in place, otherwise one is appended, all other variables stay as they are, no
  variable becomes listed twice, and running the hook again changes nothing.
\<close>
theorem MaxVolumes_hook_sets_limit:
  assumes "gate_enabled fg FeatureGateVSphereConfigurableMaxAllowedBlockVolumesPerNode"
    and "drivers VSphereDriverName = Inr d"
  shows "\<exists>ds'. WithMaxVolumesPerNodeDaemonSetHook drivers fg ds = Inr ds'
     \<and> WithMaxVolumesPerNodeDaemonSetHook drivers fg ds' = Inr ds'
     \<and> (\<exists>limit. 0 < limit \<and> limit < 2 ^ 31 \<and> limit = GetMaxVolumesPerNode (Some d)
          \<and> list_all2 (\<lambda>c c'. c' = c\<lparr>ct_Env := ct_Env c'\<rparr>
                \<and> env_value ''MAX_VOLUMES_PER_NODE'' (ct_Env c') = Some (format_int limit)
                \<and> other_vars ''MAX_VOLUMES_PER_NODE'' (ct_Env c') = other_vars ''MAX_VOLUMES_PER_NODE'' (ct_Env c)
                \<and> (distinct (map ev_Name (ct_Env c)) \<longrightarrow> distinct (map ev_Name (ct_Env c'))))
              (Containers ds) (Containers ds'))"
proof -
  let ?limit = "GetMaxVolumesPerNode (Some d)"
  let ?f = "\<lambda>c. c\<lparr>ct_Env := set_or_append MaxVolumesVar (format_int ?limit) (ct_Env c)\<rparr>"
  have hook: "WithMaxVolumesPerNodeDaemonSetHook drivers fg w = Inr (on_containers ?f w)" for w
    using assms by (simp add: WithMaxVolumesPerNodeDaemonSetHook_def Let_def)
  have "on_containers ?f (on_containers ?f ds) = on_containers ?f ds"
    by (simp add: on_containers_def set_or_append_again)
  moreover have "list_all2 (\<lambda>c c'. c' = c\<lparr>ct_Env := ct_Env c'\<rparr>
        \<and> env_value ''MAX_VOLUMES_PER_NODE'' (ct_Env c') = Some (format_int ?limit)
        \<and> other_vars ''MAX_VOLUMES_PER_NODE'' (ct_Env c') = other_vars ''MAX_VOLUMES_PER_NODE'' (ct_Env c)
        \<and> (distinct (map ev_Name (ct_Env c)) \<longrightarrow> distinct (map ev_Name (ct_Env c'))))
      (Containers ds) (Containers (on_containers ?f ds))"
    using set_or_append_env [where n = MaxVolumesVar]
    by (simp add: on_containers_def list_all2_conv_all_nth MaxVolumesVar_def)
  ultimately show ?thesis
    using GetMaxVolumesPerNode_range [of "Some d"] hook by auto
qed

definition vsphere_driver :: "VSphereDriverConfig option \<Rightarrow> ClusterCSIDriver" where
  "vsphere_driver cfg =
     \<lparr>DriverType = ''vSphere'', DriverConfig_VSphere = cfg, Spec_StorageClassState = EmptyState\<rparr>"

definition driver_config :: "string list \<Rightarrow> 32 word \<Rightarrow> VSphereDriverConfig" where
  "driver_config categories limit =
     \<lparr>TopologyCategories = categories, GlobalMaxSnapshotsPerBlockVolume = None,
      GranularMaxSnapshotsPerBlockVolumeInVSAN = None, GranularMaxSnapshotsPerBlockVolumeInVVOL = None,
      MaxAllowedBlockVolumesPerNode = limit\<rparr>"

definition example_workload :: Workload where
  "example_workload =
     \<lparr>wl_Annotations = None, tpl_Annotations = Some [''a'' \<mapsto> ''b''],
      InitContainers = [], Containers = [\<lparr>ct_Name = ''csi-driver'', ct_Image = ''i'', ct_Args = [],
        ct_Env = [plain_var ''MAX_VOLUMES_PER_NODE'' ''1'', newSecretEnvVar ''s'' ''X'' ''k''], ct_VolumeMounts = []\<rparr>],
      tpl_Volumes = [], NodeSelector = Map.empty, wl_Replicas = None\<rparr>"

theorem MaxVolumes_hook_sets_limit_witness:
  "\<exists>ds'. WithMaxVolumesPerNodeDaemonSetHook (\<lambda>n. Inr (vsphere_driver None))
        [FeatureGateVSphereConfigurableMaxAllowedBlockVolumesPerNode] example_workload = Inr ds'
     \<and> map (\<lambda>c. env_value ''MAX_VOLUMES_PER_NODE'' (ct_Env c)) (Containers ds') = [Some ''59'']"
proof -
  have "format_int 59 = ''59''"
    by (simp add: go_simps)
  with MaxVolumes_hook_sets_limit [of "[FeatureGateVSphereConfigurableMaxAllowedBlockVolumesPerNode]"
      "\<lambda>n. Inr (vsphere_driver None)" "vsphere_driver None" example_workload]
  show ?thesis
    by (auto simp: gate_enabled_def vsphere_driver_def GetMaxVolumesPerNode_def
        MaxVolumesPerNodeVSphere7_def example_workload_def list_all2_Cons1)
qed

subsection \<open>Rollout on a changed Secret\<close>

lemma annotation_key_length: "length (annotation_key sha256_hex k) \<le> 63"
  unfolding annotation_key_def Let_def by (cases "63 < length (annotation_prefix @ k)") simp_all

text \<open>
  A changed Secret rolls out the node driver. When the Secret can be read, the hook puts its hash
  under the same key, at most 63 characters long, into the annotations of the DaemonSet and of its
  pod template, and keeps every other annotation; so two Secrets with different hashes give
  different pod templates.
\<close>
theorem secret_change_rolls_out:
  assumes "secrets ns name = Inr data"
  shows "\<exists>key ds'. WithSecretDaemonSetAnnotationHook sha256_hex secret_hash name ns secrets ds = Inr ds'
     \<and> length key \<le> 63
     \<and> ds' = ds\<lparr>wl_Annotations := Some ((made_map (wl_Annotations ds))(key \<mapsto> secret_hash data)),
                tpl_Annotations := Some ((made_map (tpl_Annotations ds))(key \<mapsto> secret_hash data))\<rparr>
     \<and> (\<forall>secrets' data'. secrets' ns name = Inr data' \<longrightarrow> secret_hash data' \<noteq> secret_hash data \<longrightarrow>
          (\<forall>ds''. WithSecretDaemonSetAnnotationHook sha256_hex secret_hash name ns secrets' ds = Inr ds'' \<longrightarrow>
             tpl_Annotations ds'' \<noteq> tpl_Annotations ds'))"
proof -
  let ?key = "annotation_key sha256_hex (ns @ ''.'' @ name @ ''.'' @ ''secret'')"
  have hook: "WithSecretDaemonSetAnnotationHook sha256_hex secret_hash name ns s ds =
      Inr (ds\<lparr>wl_Annotations := Some ((made_map (wl_Annotations ds))(?key \<mapsto> secret_hash x)),
             tpl_Annotations := Some ((made_map (tpl_Annotations ds))(?key \<mapsto> secret_hash x))\<rparr>)"
    if "s ns name = Inr x" for s x
    using that
    by (simp add: WithSecretDaemonSetAnnotationHook_def secret_hashes_def addObjectHash_def Let_def)
  have "length ?key \<le> 63" by (rule annotation_key_length)
  moreover have "m(?key \<mapsto> a) \<noteq> m(?key \<mapsto> b)" if "a \<noteq> b" for m :: "string \<rightharpoonup> string" and a b
    using that by (metis fun_upd_same option.inject)
  ultimately show ?thesis
    using hook [of secrets, OF assms] hook by (intro exI [of _ ?key]) auto
qed

theorem secret_change_rolls_out_witness:
  "\<exists>ds'. WithSecretDaemonSetAnnotationHook (\<lambda>s. s) (\<lambda>m. case m ''k'' of None \<Rightarrow> [] | Some v \<Rightarrow> v)
        ''n'' ''ns'' (\<lambda>ns n. Inr [''k'' \<mapsto> ''h'']) example_workload = Inr ds'
     \<and> wl_Annotations ds' \<noteq> None"
  using secret_change_rolls_out [of "\<lambda>ns n. Inr [''k'' \<mapsto> ''h'']" "''ns''" "''n''"
      "[''k'' \<mapsto> ''h'']" "\<lambda>s. s" "\<lambda>m. case m ''k'' of None \<Rightarrow> [] | Some v \<Rightarrow> v" example_workload]
  by auto

end
