(* ===== verification/Controller.thy ===== *)
theory Controller
  imports Sc_Controller Driver_Starter
begin

text \<open>
  \<open>vspherecontroller.go\<close> and \<open>operator_removal.go\<close>: the main controller. The record \<open>VSphereController\<close>
  is the state the Go struct keeps from one sync to the next; its extension \<open>World\<close> adds what the
  outside has seen of it. \<open>Env\<close> is what one sync finds: the caches, the vCenters, the clock and the
  answers of the API server. One function per method, in the order the code calls them.
\<close>

subsection \<open>State and environment\<close>

record VSphereController =
  name :: string
  targetNamespace :: string
  operandControllerStarted :: bool
  vSphereConnections :: "VSphereConnection list"
  vSphereChecker :: EnvChecker
  vCenterConnectionStatus :: bool
  featureGates :: FeatureGate
  cloudConfig :: "VSphereConfig option"
  currentManagmentState :: "ManagementState option" \<comment> \<open>the empty string at first\<close>
  storageClassController :: ScController

record 's World = VSphereController +
  w_status :: conditions \<comment> \<open>the conditions the API server stores\<close>
  w_updates :: nat \<comment> \<open>how many times \<open>UpdateStatus\<close> was called\<close>
  w_sessions :: session_log
  w_events :: "event list"
  w_metrics :: Metrics
  w_secrets :: "Secret list" \<comment> \<open>the applied ones\<close>
  w_deleted :: "(string \<times> string) list" \<comment> \<open>ConfigMaps asked to be deleted\<close>
  w_removed :: "string list" \<comment> \<open>assets asked to be deleted\<close>
  w_starts :: nat \<comment> \<open>\<open>go c.runConditionalController(ctx)\<close>\<close>
  w_timers :: "int list" \<comment> \<open>delays after which the key is queued again\<close>
  w_sc_calls :: "sc_call list"
  w_vcenter :: 's \<comment> \<open>tags and profiles\<close>

text \<open>
  \<open>env_attempt k stored\<close> are the attempts of the \<open>k\<close>-th \<open>UpdateStatus\<close> when \<open>stored\<close> is what the API
  server holds. \<open>env_checks\<close> is what the three checkers return in this sync.
\<close>

record 's Env =
  env_state :: "(OperatorSpec \<times> conditions) result" \<comment> \<open>\<open>GetOperatorState\<close>\<close>
  env_infras :: "string \<Rightarrow> Infrastructure result"
  env_drivers :: "string \<Rightarrow> ClusterCSIDriver result"
  env_csiDrivers :: "string \<Rightarrow> CSIDriver result"
  env_nodes :: "Node list result"
  env_csiNodes :: "CSINode list result"
  env_configMaps :: ConfigMapLister
  env_secrets :: SecretLister
  env_readConfig :: "string \<Rightarrow> CloudConfig result"
  env_readLegacy :: "string \<Rightarrow> LegacyVSphereConfig result"
  env_svc :: VCService
  env_checks :: "CheckArgs \<Rightarrow> ClusterCheckResult list outcome"
  env_order :: map_order
  env_csiConfigManifest :: string
  env_secretManifest :: Secret
  env_applySecret :: "Secret \<Rightarrow> go_error option"
  env_attempt :: "nat \<Rightarrow> conditions \<Rightarrow> nat \<Rightarrow> attempt"
  env_deleteAsset :: "string \<Rightarrow> go_error option"
  env_now_reset :: int \<comment> \<open>the clock in \<open>ResetExpBackoff\<close>\<close>
  env_now_guard :: int \<comment> \<open>at the guard of \<open>Check\<close>\<close>
  env_now_check :: int \<comment> \<open>at \<open>lastCheck\<close>\<close>
  env_now_status :: int \<comment> \<open>in the condition updates\<close>
  env_extra :: "int \<Rightarrow> int" \<comment> \<open>jitter\<close>
  env_sc :: "'s ScEnv"

definition infraGlobalName :: string where
  "infraGlobalName = ''cluster''"

definition VSpherePlatformType :: string where
  "VSpherePlatformType = ''VSphere''"

definition storageClassControllerName :: string where
  "storageClassControllerName = ''VMwareVSphereDriverStorageClassController''"

text \<open>\<open>NewVSphereController\<close> for the name the operator gives it.\<close>

definition NewVSphereController :: "string \<Rightarrow> string \<Rightarrow> FeatureGate \<Rightarrow> int \<Rightarrow> VSphereController" where
  "NewVSphereController nm ns gates now =
     \<lparr>name = nm, targetNamespace = ns, operandControllerStarted = False, vSphereConnections = [],
      vSphereChecker = newVSphereEnvironmentChecker now, vCenterConnectionStatus = False,
      featureGates = gates, cloudConfig = None, currentManagmentState = None,
      storageClassController = NewStorageClassController now\<rparr>"

subsection \<open>Small steps\<close>

definition getCheckAPIDependency :: "'s Env \<Rightarrow> Infrastructure \<Rightarrow> KubeAPI" where
  "getCheckAPIDependency env infra =
     \<lparr>api_Infrastructure = infra, NodeLister = env_nodes env, CSINodeLister = env_csiNodes env,
      CSIDriverLister = env_csiDrivers env, ClusterCSIDriverLister = env_drivers env\<rparr>"

definition driverAlreadyStarted :: "(string \<Rightarrow> CSIDriver result) \<Rightarrow> bool result" where
  "driverAlreadyStarted csiDrivers =
     (case csiDrivers VSphereDriverName of
        Inl err \<Rightarrow>
          if is_not_found err then Inr False
          else Inl (Failure (''vsphere driver sync failed, unable to verify CSIDriver status: ''
                 @ err_msg err))
      | Inr csiDriver \<Rightarrow> if openshift_annotated csiDriver then Inr True else Inr False)"

text \<open>\<open>go c.runConditionalController(ctx)\<close> and the flag set after it.\<close>

definition start_operand :: "'s World \<Rightarrow> 's World" where
  "start_operand w = w\<lparr>operandControllerStarted := True, w_starts := w_starts w + 1\<rparr>"

text \<open>A status update: what is written is what the API server stores from then on.\<close>

definition write_status ::
  "'s Env \<Rightarrow> ((nat \<Rightarrow> attempt) \<Rightarrow> conditions_update) \<Rightarrow> 's World \<Rightarrow> go_error option \<times> 's World" where
  "write_status env f w =
     (let u = f (env_attempt env (w_updates w) (w_status w))
      in (upd_error u,
          w\<lparr>w_updates := w_updates w + 1,
            w_status := (case upd_written u of None \<Rightarrow> w_status w | Some cs \<Rightarrow> cs),
            w_events := w_events w @ upd_events u\<rparr>))"

definition controller_updateConditions ::
  "'s Env \<Rightarrow> ClusterCheckResult \<Rightarrow> conditions \<Rightarrow> ConditionStatus \<Rightarrow> bool \<Rightarrow> 's World
     \<Rightarrow> go_error option \<times> 's World" where
  "controller_updateConditions env lastCheckResult status upgradeStatus blockCSIDriverInstall w =
     write_status env (updateConditions (env_now_status env) (name w) lastCheckResult status
       upgradeStatus (operandControllerStarted w) blockCSIDriverInstall) w"

definition set_install_error :: "ClusterCheckResult \<Rightarrow> string \<Rightarrow> 's World \<Rightarrow> 's World" where
  "set_install_error r clusterCondition w =
     w\<lparr>w_metrics := (w_metrics w)\<lparr>InstallErrorMetric :=
        (InstallErrorMetric (w_metrics w))((status_string (CheckStatus r), clusterCondition) \<mapsto> 1)\<rparr>\<rparr>"

text \<open>The result is the error, \<open>blockInstall\<close> and \<open>blockUpgrade\<close>.\<close>

definition blockUpgradeOrDegradeCluster ::
  "'s Env \<Rightarrow> ClusterCheckResult \<Rightarrow> Infrastructure \<Rightarrow> conditions \<Rightarrow> 's World
     \<Rightarrow> ((go_error option \<times> bool \<times> bool) \<times> 's World) outcome" where
  "blockUpgradeOrDegradeCluster env res infra status w =
     obind (CheckClusterStatus res (getCheckAPIDependency env infra)) (\<lambda>(clusterStatus, r).
       Returned (case clusterStatus of
         ClusterCheckDegrade \<Rightarrow>
           (case controller_updateConditions env r status ConditionFalse True
                   (set_install_error r ''degraded'' w) of
              (updateError, w1) \<Rightarrow> ((updateError, True, False), w1))
       | ClusterCheckUpgradeStateUnknown \<Rightarrow>
           (case controller_updateConditions env r status ConditionUnknown True
                   (set_install_error r ''upgrade_unknown'' w) of
              (updateError, w1) \<Rightarrow> ((updateError, True, False), w1))
       | ClusterCheckBlockUpgrade \<Rightarrow>
           (case controller_updateConditions env r status ConditionFalse False
                   (set_install_error r ''upgrade_blocked'' w) of
              (updateError, w1) \<Rightarrow> ((updateError, False, True), w1))
       | ClusterCheckBlockUpgradeDriverInstall \<Rightarrow>
           (case controller_updateConditions env r status ConditionFalse True
                   (set_install_error r ''upgrade_blocked'' (set_install_error r ''install_blocked'' w)) of
              (updateError, w1) \<Rightarrow> ((updateError, True, True), w1))
       | ClusterCheckAllGood \<Rightarrow> ((None, False, False), w)))"

text \<open>The checkers only run when the guard of \<open>Check\<close> lets them.\<close>

definition runClusterCheck ::
  "'s Env \<Rightarrow> Infrastructure \<Rightarrow> 's World \<Rightarrow> ((int \<times> ClusterCheckResult \<times> bool) \<times> 's World) outcome" where
  "runClusterCheck env infra w =
     (let checkOpts = \<lparr>vmConnection = vSphereConnections w, apiClient = getCheckAPIDependency env infra,
            featureGate = featureGates w\<rparr>
      in obind (if nextCheck (vSphereChecker w) < env_now_guard env then env_checks env checkOpts
                else Returned []) (\<lambda>allChecks.
           case Check (env_now_guard env) (env_now_check env) (env_extra env) allChecks (vSphereChecker w) of
             (answer, v) \<Rightarrow> Returned (answer, w\<lparr>vSphereChecker := v\<rparr>)))"

definition write_secret ::
  "'s Env \<Rightarrow> Infrastructure \<Rightarrow> ClusterCSIDriver \<Rightarrow> 's World \<Rightarrow> (go_error option \<times> 's World) outcome" where
  "write_secret env infra clusterCSIDriver w =
     (case cloudConfig w of
        None \<Rightarrow> Panicked nil_deref
      | Some cfg \<Rightarrow>
          obind (createCSISecret (env_order env) (env_csiConfigManifest env) (env_secretManifest env)
                   (env_secrets env) (env_applySecret env) (vSphereConnections w) cfg infra clusterCSIDriver)
            (\<lambda>(err, applied). Returned (err,
               w\<lparr>w_secrets := w_secrets w @ (case applied of None \<Rightarrow> [] | Some s \<Rightarrow> [s])\<rparr>)))"

subsection \<open>installCSIDriver\<close>

text \<open>After the checks ran: \<open>blockCSIDriverInstall\<close> and the error.\<close>

definition after_checks ::
  "'s Env \<Rightarrow> Infrastructure \<Rightarrow> conditions \<Rightarrow> bool \<Rightarrow> int \<Rightarrow> ClusterCheckResult \<Rightarrow> 's World
     \<Rightarrow> ((bool \<times> go_error option) \<times> 's World) outcome" where
  "after_checks env infra opStatus connectionBlockUpgrade nextDelay r w =
     obind (blockUpgradeOrDegradeCluster env r infra opStatus (w\<lparr>w_timers := w_timers w @ [nextDelay]\<rparr>))
       (\<lambda>((err, blockCSIDriverInstall, clusterCheckBlockUpgrade), w1).
         if err \<noteq> None then Returned ((blockCSIDriverInstall, err), w1)
         else if blockCSIDriverInstall then Returned ((blockCSIDriverInstall, None), w1)
         else
           (let blockUpgrade = (connectionBlockUpgrade \<or> clusterCheckBlockUpgrade);
                w2 = (if \<not> blockUpgrade
                      then w1\<lparr>w_metrics := (w_metrics w1)\<lparr>InstallErrorMetric := Map.empty\<rparr>\<rparr> else w1);
                w3 = (if \<not> operandControllerStarted w2 \<and> \<not> blockCSIDriverInstall
                      then start_operand w2 else w2);
                upgradeableStatus = (if blockUpgrade then ConditionFalse else ConditionTrue)
            in case controller_updateConditions env r opStatus upgradeableStatus blockCSIDriverInstall w3 of
                 (updateErr, w4) \<Rightarrow> Returned ((blockCSIDriverInstall, updateErr), w4)))"

definition installCSIDriver ::
  "'s Env \<Rightarrow> Infrastructure \<Rightarrow> ClusterCSIDriver \<Rightarrow> ClusterCheckResult \<Rightarrow> conditions \<Rightarrow> 's World
     \<Rightarrow> ((bool \<times> go_error option) \<times> 's World) outcome" where
  "installCSIDriver env infra clusterCSIDriver connectionResult opStatus w =
     obind (blockUpgradeOrDegradeCluster env connectionResult infra opStatus w)
       (\<lambda>((err, blockCSIDriverInstall, connectionBlockUpgrade), w1).
         if err \<noteq> None then Returned ((blockCSIDriverInstall, err), w1)
         else if blockCSIDriverInstall then Returned ((blockCSIDriverInstall, None), w1)
         else obind (write_secret env infra clusterCSIDriver w1) (\<lambda>(secretErr, w2).
           if secretErr \<noteq> None then Returned ((blockCSIDriverInstall, secretErr), w2)
           else obind (runClusterCheck env infra w2) (\<lambda>((nextDelay, r, checkRan), w3).
             if \<not> checkRan then Returned ((blockCSIDriverInstall, None), w3)
             else after_checks env infra opStatus connectionBlockUpgrade nextDelay r w3)))"

subsection \<open>Removal of the operands\<close>

definition assetsToBeDeleted :: "string list" where
  "assetsToBeDeleted =
     [''rbac/privileged_role.yaml'', ''rbac/controller_privileged_binding.yaml'',
      ''rbac/node_privileged_binding.yaml'', ''rbac/csi_driver_controller_role.yaml'',
      ''rbac/csi_driver_controller_binding.yaml'', ''rbac/csi_driver_node_cluster_role.yaml'',
      ''rbac/csi_driver_node_cluster_binding.yaml'', ''rbac/csi_driver_node_role.yaml'',
      ''rbac/csi_driver_node_binding.yaml'', ''rbac/main_attacher_binding.yaml'',
      ''rbac/main_provisioner_binding.yaml'', ''rbac/volumesnapshot_reader_provisioner_binding.yaml'',
      ''rbac/main_resizer_binding.yaml'', ''rbac/storageclass_reader_resizer_binding.yaml'',
      ''rbac/kube_rbac_proxy_role.yaml'', ''rbac/kube_rbac_proxy_binding.yaml'',
      ''rbac/prometheus_role.yaml'', ''rbac/prometheus_rolebinding.yaml'',
      ''rbac/main_snapshotter_binding.yaml'', ''rbac/lease_leader_election_role.yaml'',
      ''rbac/lease_leader_election_rolebinding.yaml'', ''controller_sa.yaml'', ''controller_pdb.yaml'',
      ''node_sa.yaml'', ''csidriver.yaml'', ''service.yaml'', ''ca_configmap.yaml'',
      ''webhook/config.yaml'', ''webhook/sa.yaml'', ''webhook/service.yaml'',
      ''webhook/configuration.yaml'', ''webhook/rbac/role.yaml'', ''webhook/rbac/rolebinding.yaml'',
      ''webhook/pdb.yaml'', ''volumesnapshotclass.yaml'', ''controller.yaml'', ''node.yaml'',
      ''servicemonitor.yaml'', ''webhook/deployment.yaml'', ''vsphere_cloud_config_secret.yaml'',
      ''vsphere_features_config.yaml'']"

text \<open>\<open>DeleteAll\<close> tries every asset; the errors are collected in order.\<close>

definition removeOperands ::
  "'s Env \<Rightarrow> conditions \<Rightarrow> 's World \<Rightarrow> go_error option \<times> 's World" where
  "removeOperands env status w =
     (let allErrors = List.map_filter (env_deleteAsset env) assetsToBeDeleted;
          w1 = w\<lparr>w_removed := w_removed w @ assetsToBeDeleted\<rparr>
      in if 0 < length allErrors then (NewAggregate allErrors, w1)
         else
           (case SyncRemove (env_sc env) of
              (scErr, calls) \<Rightarrow>
                (let w2 = w1\<lparr>w_sc_calls := w_sc_calls w1 @ calls\<rparr>
                 in case scErr of
                      Some err \<Rightarrow> (Some (Failure (''error removing storageclass: '' @ err_msg err)), w2)
                    | None \<Rightarrow>
                        write_status env (\<lambda>att.
                          case removeConditions (env_now_status env) (name w) status att of
                            (err, written) \<Rightarrow>
                              \<lparr>upd_error = err, upd_written = written, upd_events = []\<rparr>) w2)))"

subsection \<open>sync\<close>

definition syncStorageClassController ::
  "'s Env \<Rightarrow> Infrastructure \<Rightarrow> 's World \<Rightarrow> (go_error option \<times> 's World) outcome" where
  "syncStorageClassController env infra w =
     obind (Sync ((env_sc env)\<lparr>env_infra := infra, env_driver := env_drivers env\<rparr>) (env_now_status env)
              storageClassControllerName (env_attempt env (w_updates w) (w_status w))
              (vSphereConnections w) (storageClassController w) (w_vcenter w))
       (\<lambda>(u, r, c1, s1).
         case write_status env (\<lambda>att. u) w of
           (err, w1) \<Rightarrow> Returned (err,
             w1\<lparr>storageClassController := c1, w_vcenter := s1, w_sc_calls := w_sc_calls w1 @ sync_calls r,
                w_metrics := (case sync_metric r of
                    None \<Rightarrow> w_metrics w1
                  | Some labels \<Rightarrow> (w_metrics w1)\<lparr>InstallErrorMetric :=
                      (InstallErrorMetric (w_metrics w1))(labels \<mapsto> 1)\<rparr>)\<rparr>))"

definition note_connection ::
  "'s Env \<Rightarrow> ClusterCheckResult \<Rightarrow> conditions \<Rightarrow> 's World \<Rightarrow> 's World" where
  "note_connection env connectionResult opStatus w =
     (let w1 = (if CheckError connectionResult = None \<and> hasErrorConditions opStatus
                   \<and> \<not> vCenterConnectionStatus w
                then w\<lparr>vSphereChecker := ResetExpBackoff (env_now_reset env) (vSphereChecker w)\<rparr> else w)
      in w1\<lparr>vCenterConnectionStatus := (CheckError connectionResult = None)\<rparr>)"

text \<open>From the login to the return, before the deferred logout.\<close>

definition sync_connected ::
  "'s Env \<Rightarrow> Infrastructure \<Rightarrow> ClusterCSIDriver \<Rightarrow> ClusterCheckResult \<Rightarrow> conditions \<Rightarrow> 's World
     \<Rightarrow> (go_error option \<times> 's World) outcome" where
  "sync_connected env infra clusterCSIDriver connectionResult opStatus w =
     obind (installCSIDriver env infra clusterCSIDriver connectionResult opStatus
              (note_connection env connectionResult opStatus w))
       (\<lambda>((blockCSIDriverInstall, err), w1).
         if err \<noteq> None then Returned (err, w1)
         else if \<not> blockCSIDriverInstall \<and> operandControllerStarted w1
         then syncStorageClassController env infra w1
         else Returned (None, w1))"

definition deferred_logout :: "'s Env \<Rightarrow> 's World \<Rightarrow> 's World" where
  "deferred_logout env w =
     w\<lparr>w_sessions := logout_all (env_svc env) (vSphereConnections w) (w_sessions w),
       vSphereConnections := []\<rparr>"

definition login ::
  "'s Env \<Rightarrow> VSphereConfig \<Rightarrow> Infrastructure \<Rightarrow> 's World \<Rightarrow> (ClusterCheckResult \<times> 's World) outcome" where
  "login env cfg infra w =
     obind (loginToVCenter (env_svc env) (env_secrets env) (targetNamespace w) cfg infra
              (vSphereConnections w) (w_sessions w))
       (\<lambda>(r, conns, log). Returned (r, w\<lparr>vSphereConnections := conns, w_sessions := log\<rparr>))"

text \<open>The sync of a managed operator, once the ClusterCSIDriver is there.\<close>

definition sync_managed ::
  "'s Env \<Rightarrow> Infrastructure \<Rightarrow> ClusterCSIDriver \<Rightarrow> conditions \<Rightarrow> 's World
     \<Rightarrow> (go_error option \<times> 's World) outcome" where
  "sync_managed env infra clusterCSIDriver opStatus w =
     (let w1 = w\<lparr>w_metrics := UpdateMetrics infra clusterCSIDriver (w_metrics w)\<rparr>
      in case driverAlreadyStarted (env_csiDrivers env) of
           Inl err \<Rightarrow> Returned (Some err, w1)
         | Inr driverCheckFlag \<Rightarrow>
             (let w2 = (if driverCheckFlag \<and> \<not> operandControllerStarted w1 then start_operand w1 else w1)
              in case loadCloudConfig (env_readConfig env) (env_readLegacy env) (env_configMaps env) infra of
                   Inl err \<Rightarrow> Returned (Some err, w2\<lparr>cloudConfig := None\<rparr>)
                 | Inr cfg \<Rightarrow>
                     (let infra' = ConvertToPlatformSpec (Some cfg) infra;
                          w3 = w2\<lparr>cloudConfig := Some cfg,
                            w_deleted := w_deleted w2 @ deleteConfigMapIfExists (env_configMaps env)
                              (targetNamespace w2) legacyConfigMapName (targetNamespace w2)\<rparr>
                      in obind (login env cfg infra' w3) (\<lambda>(connectionResult, w4).
                         obind (sync_connected env infra' clusterCSIDriver connectionResult opStatus w4)
                           (\<lambda>(err, w5). Returned (err, deferred_logout env w5))))))"

definition controller_sync :: "'s Env \<Rightarrow> 's World \<Rightarrow> (go_error option \<times> 's World) outcome" where
  "controller_sync env w =
     (case env_state env of
        Inl err \<Rightarrow> Returned (Some err, w)
      | Inr (opSpec, opStatus) \<Rightarrow>
          (case env_infras env infraGlobalName of
             Inl err \<Rightarrow> Returned (Some err, w)
           | Inr infra \<Rightarrow>
               if PlatformStatus_Type infra = None then Returned (None, w)
               else if PlatformStatus_Type infra \<noteq> Some VSpherePlatformType then Returned (None, w)
               else if Spec_ManagementState opSpec \<noteq> Managed then
                 if Spec_ManagementState opSpec = Removed then
                   if currentManagmentState w = Some Managed then Exited
                   else Returned (removeOperands env opStatus w)
                 else Returned (None, w)
               else
                 (let w1 = w\<lparr>currentManagmentState := Some (Spec_ManagementState opSpec)\<rparr>
                  in case env_drivers env VSphereDriverName of
                       Inl err \<Rightarrow> Returned (Some err, w1)
                     | Inr clusterCSIDriver \<Rightarrow> sync_managed env infra clusterCSIDriver opStatus w1)))"

end
