(* ===== verification/Controller_Runs.thy ===== *)
theory Controller_Runs
  imports Controller
begin

text \<open>
  What any number of syncs keeps: which parts of the controller and of the world each step of a sync
  leaves alone, and from that the invariants of a run of the operator, by rule induction over the
  syncs. The environment may change in every way between two syncs.
\<close>

subsection \<open>Frames\<close>

text \<open>A step that only reports: conditions, events and metrics.\<close>

definition reported :: "'s World \<Rightarrow> 's World \<Rightarrow> bool" where
  "reported w w' \<longleftrightarrow>
     name w' = name w \<and> targetNamespace w' = targetNamespace w
     \<and> operandControllerStarted w' = operandControllerStarted w \<and> w_starts w' = w_starts w
     \<and> vSphereConnections w' = vSphereConnections w \<and> vSphereChecker w' = vSphereChecker w
     \<and> vCenterConnectionStatus w' = vCenterConnectionStatus w
     \<and> featureGates w' = featureGates w \<and> cloudConfig w' = cloudConfig w
     \<and> currentManagmentState w' = currentManagmentState w
     \<and> storageClassController w' = storageClassController w
     \<and> w_sessions w' = w_sessions w \<and> w_secrets w' = w_secrets w \<and> w_deleted w' = w_deleted w
     \<and> w_removed w' = w_removed w \<and> w_timers w' = w_timers w \<and> w_sc_calls w' = w_sc_calls w
     \<and> w_vcenter w' = w_vcenter w"

lemma reported_refl [simp]: "reported w w"
  by (simp add: reported_def)

lemma reported_trans: "reported a b \<Longrightarrow> reported b c \<Longrightarrow> reported a c"
  by (simp add: reported_def)

lemma reported_metrics [simp]: "reported w (w\<lparr>w_metrics := m\<rparr>)"
  by (simp add: reported_def)

lemma write_status_reported: "write_status env f w = (e, w') \<Longrightarrow> reported w w'"
  by (auto simp: write_status_def reported_def Let_def)

lemma updateConditions_reported:
  "controller_updateConditions env r st up b w = (e, w') \<Longrightarrow> reported w w'"
  by (auto simp: controller_updateConditions_def dest: write_status_reported)

lemma set_install_error_reported [simp]: "reported w (set_install_error r c w)"
  by (simp add: set_install_error_def)

lemma set_and_update_reported:
  "controller_updateConditions env r st up b (set_install_error r' c w) = (e, w') \<Longrightarrow> reported w w'"
  using reported_trans [OF set_install_error_reported updateConditions_reported] by blast

lemma block_reported:
  assumes "blockUpgradeOrDegradeCluster env r infra st w = Returned (res, w')"
  shows "reported w w'"
proof -
  obtain status r' where c: "CheckClusterStatus r (getCheckAPIDependency env infra) = Returned (status, r')"
    using assms by (auto simp: blockUpgradeOrDegradeCluster_def obind_Returned)
  with assms show ?thesis
    by (cases status)
      (auto simp: blockUpgradeOrDegradeCluster_def split: prod.splits
        dest!: set_and_update_reported intro: reported_trans [OF set_install_error_reported])
qed

text \<open>A step of a sync between the login and the logout: the operand may be started once.\<close>

definition started_once :: "'s World \<Rightarrow> 's World \<Rightarrow> bool" where
  "started_once w w' \<longleftrightarrow>
     operandControllerStarted w' = operandControllerStarted w \<and> w_starts w' = w_starts w
     \<or> \<not> operandControllerStarted w \<and> operandControllerStarted w' \<and> w_starts w' = w_starts w + 1"

definition progressed :: "'s World \<Rightarrow> 's World \<Rightarrow> bool" where
  "progressed w w' \<longleftrightarrow> started_once w w'
     \<and> name w' = name w \<and> targetNamespace w' = targetNamespace w \<and> featureGates w' = featureGates w
     \<and> vSphereConnections w' = vSphereConnections w \<and> cloudConfig w' = cloudConfig w
     \<and> currentManagmentState w' = currentManagmentState w \<and> w_sessions w' = w_sessions w
     \<and> w_deleted w' = w_deleted w \<and> w_removed w' = w_removed w
     \<and> (env_reach (vSphereChecker w) \<longrightarrow> env_reach (vSphereChecker w'))"

lemma progressed_refl [simp]: "progressed w w"
  by (simp add: progressed_def started_once_def)

lemma progressed_trans: "progressed a b \<Longrightarrow> progressed b c \<Longrightarrow> progressed a c"
  by (auto simp: progressed_def started_once_def)

lemma progressed_reported: "reported w w' \<Longrightarrow> progressed w w'"
  by (auto simp: reported_def progressed_def started_once_def)

lemma progressed_start: "\<not> operandControllerStarted w \<Longrightarrow> progressed w (start_operand w)"
  by (simp add: progressed_def started_once_def start_operand_def)

lemma runClusterCheck_cases:
  assumes "runClusterCheck env infra w = Returned ((nextDelay, r, checkRan), w')"
  obtains rs v where
    "Check (env_now_guard env) (env_now_check env) (env_extra env) rs (vSphereChecker w) =
       ((nextDelay, r, checkRan), v)"
    and "w' = w\<lparr>vSphereChecker := v\<rparr>"
    and "checkRan \<longrightarrow> nextCheck (vSphereChecker w) < env_now_guard env
          \<and> env_checks env \<lparr>vmConnection = vSphereConnections w,
              apiClient = getCheckAPIDependency env infra, featureGate = featureGates w\<rparr> = Returned rs"
proof -
  from assms obtain rs where
    rs: "(if nextCheck (vSphereChecker w) < env_now_guard env
          then env_checks env \<lparr>vmConnection = vSphereConnections w,
              apiClient = getCheckAPIDependency env infra, featureGate = featureGates w\<rparr>
          else Returned []) = Returned rs"
    and c: "(case Check (env_now_guard env) (env_now_check env) (env_extra env) rs (vSphereChecker w) of
          (answer, v) \<Rightarrow> Returned (answer, w\<lparr>vSphereChecker := v\<rparr>)) = Returned ((nextDelay, r, checkRan), w')"
    by (auto simp: runClusterCheck_def Let_def obind_Returned)
  obtain answer v where chk: "Check (env_now_guard env) (env_now_check env) (env_extra env) rs
      (vSphereChecker w) = (answer, v)" by fastforce
  have "checkRan \<longrightarrow> nextCheck (vSphereChecker w) < env_now_guard env"
    using c chk by (auto simp: Check_def split: if_splits)
  with that chk c rs show ?thesis by auto
qed

lemma runClusterCheck_progressed:
  assumes "runClusterCheck env infra w = Returned (a, w')"
  shows "progressed w w'"
proof -
  obtain nextDelay r checkRan where "a = (nextDelay, r, checkRan)" by (cases a)
  with assms obtain rs v where
    "Check (env_now_guard env) (env_now_check env) (env_extra env) rs (vSphereChecker w) = (a, v)"
    and w': "w' = w\<lparr>vSphereChecker := v\<rparr>"
    using runClusterCheck_cases by metis
  then have "v = snd (Check (env_now_guard env) (env_now_check env) (env_extra env) rs (vSphereChecker w))"
    by simp
  then show ?thesis
    unfolding w' by (simp add: progressed_def started_once_def env_reach.check)
qed

lemma write_secret_progressed: "write_secret env infra d w = Returned (e, w') \<Longrightarrow> progressed w w'"
  by (auto simp: write_secret_def obind_Returned progressed_def started_once_def split: option.splits)

lemma progressed_timers [simp]: "progressed w (w\<lparr>w_timers := t\<rparr>)"
  by (simp add: progressed_def started_once_def)

lemmas progressed_block = progressed_reported [OF block_reported]
lemmas progressed_secret = progressed_trans [OF progressed_block write_secret_progressed]
lemmas progressed_check = progressed_trans [OF progressed_secret runClusterCheck_progressed]

text \<open>The ways \<open>after_checks\<close> and \<open>installCSIDriver\<close> return.\<close>

lemma after_checks_cases:
  assumes "after_checks env infra st cb d r w = Returned ((block, err), w')"
  obtains
    (stopped) u where
      "blockUpgradeOrDegradeCluster env r infra st (w\<lparr>w_timers := w_timers w @ [d]\<rparr>) =
         Returned ((err, block, u), w')"
      and "err \<noteq> None \<or> block"
  | (running) u w1 w2 w3 where
      "blockUpgradeOrDegradeCluster env r infra st (w\<lparr>w_timers := w_timers w @ [d]\<rparr>) =
         Returned ((None, False, u), w1)"
      and "\<not> block"
      and "w2 = (if \<not> (cb \<or> u) then w1\<lparr>w_metrics := (w_metrics w1)\<lparr>InstallErrorMetric := Map.empty\<rparr>\<rparr> else w1)"
      and "w3 = (if \<not> operandControllerStarted w2 then start_operand w2 else w2)"
      and "controller_updateConditions env r st (if cb \<or> u then ConditionFalse else ConditionTrue) False w3 = (err, w')"
proof -
  obtain e b u w1 where b: "blockUpgradeOrDegradeCluster env r infra st (w\<lparr>w_timers := w_timers w @ [d]\<rparr>) =
      Returned ((e, b, u), w1)"
    using assms by (auto simp: after_checks_def obind_Returned)
  show thesis
  proof (cases "e \<noteq> None \<or> b")
    case True
    with assms b have "e = err" "b = block" "w1 = w'"
      by (auto simp: after_checks_def split: if_splits)
    with b True show thesis by (intro stopped) auto
  next
    case False
    with assms b show thesis
      by (intro running [OF _ _ refl refl]) (auto simp: after_checks_def Let_def split: prod.splits)
  qed
qed

lemma installCSIDriver_cases:
  assumes "installCSIDriver env infra d conn st w = Returned ((block, err), w')"
  obtains
    (stopped) cb where "blockUpgradeOrDegradeCluster env conn infra st w = Returned ((err, block, cb), w')"
      and "err \<noteq> None \<or> block"
  | (no_secret) cb w1 where "blockUpgradeOrDegradeCluster env conn infra st w = Returned ((None, False, cb), w1)"
      and "write_secret env infra d w1 = Returned (err, w')" and "err \<noteq> None" and "\<not> block"
  | (no_check) cb w1 w2 nd r where
      "blockUpgradeOrDegradeCluster env conn infra st w = Returned ((None, False, cb), w1)"
      and "write_secret env infra d w1 = Returned (None, w2)"
      and "runClusterCheck env infra w2 = Returned ((nd, r, False), w')" and "err = None" and "\<not> block"
  | (checked) cb w1 w2 nd r w3 where
      "blockUpgradeOrDegradeCluster env conn infra st w = Returned ((None, False, cb), w1)"
      and "write_secret env infra d w1 = Returned (None, w2)"
      and "runClusterCheck env infra w2 = Returned ((nd, r, True), w3)"
      and "after_checks env infra st cb nd r w3 = Returned ((block, err), w')"
proof -
  obtain e b u w1 where b: "blockUpgradeOrDegradeCluster env conn infra st w = Returned ((e, b, u), w1)"
    using assms by (auto simp: installCSIDriver_def obind_Returned)
  show thesis
  proof (cases "e \<noteq> None \<or> b")
    case True
    with assms b have "e = err" "b = block" "w1 = w'"
      by (auto simp: installCSIDriver_def split: if_splits)
    with b True show thesis by (intro stopped) auto
  next
    case ok: False
    with assms b obtain e2 w2 where s: "write_secret env infra d w1 = Returned (e2, w2)"
      by (auto simp: installCSIDriver_def obind_Returned)
    show thesis
    proof (cases e2)
      case None
      with assms b s ok obtain nd r c w3 where c: "runClusterCheck env infra w2 = Returned ((nd, r, c), w3)"
        by (auto simp: installCSIDriver_def obind_Returned)
      show thesis
      proof (cases c)
        case True
        with assms b s c ok None show thesis by (intro checked) (auto simp: installCSIDriver_def)
      next
        case False
        with assms b s c ok None show thesis by (intro no_check) (auto simp: installCSIDriver_def)
      qed
    next
      case (Some e3)
      with assms b s ok show thesis by (intro no_secret) (auto simp: installCSIDriver_def)
    qed
  qed
qed

lemma after_checks_progressed:
  assumes "after_checks env infra st cb d r w = Returned ((block, err), w')"
  shows "progressed w w'"
  using assms
proof (cases rule: after_checks_cases)
  case (stopped u)
  from progressed_trans [OF progressed_timers progressed_reported [OF block_reported [OF stopped(1)]]]
  show ?thesis .
next
  case (running u w1 w2 w3)
  have "progressed w w1"
    using progressed_trans [OF progressed_timers progressed_reported [OF block_reported [OF running(1)]]] .
  moreover have "progressed w1 w2" by (simp add: running(3) progressed_reported)
  moreover have "progressed w2 w3" by (simp add: running(4) progressed_start)
  moreover have "progressed w3 w'"
    by (rule progressed_reported [OF updateConditions_reported [OF running(5)]])
  ultimately show ?thesis using progressed_trans by blast
qed

lemma installCSIDriver_progressed:
  assumes "installCSIDriver env infra d conn st w = Returned ((block, err), w')"
  shows "progressed w w'"
  using assms
proof (cases rule: installCSIDriver_cases)
  case (stopped cb)
  show ?thesis by (rule progressed_block [OF stopped(1)])
next
  case (no_secret cb w1)
  show ?thesis by (rule progressed_secret [OF no_secret(1,2)])
next
  case (no_check cb w1 w2 nd r)
  show ?thesis by (rule progressed_check [OF no_check(1,2,3)])
next
  case (checked cb w1 w2 nd r w3)
  show ?thesis
    by (rule progressed_trans [OF progressed_check [OF checked(1,2,3)] after_checks_progressed [OF checked(4)]])
qed

lemma syncStorageClassController_cases:
  assumes "syncStorageClassController env infra w = Returned (e, w')"
  obtains u r c1 s1 w1 m where
    "Sync ((env_sc env)\<lparr>env_infra := infra, env_driver := env_drivers env\<rparr>) (env_now_status env)
       storageClassControllerName (env_attempt env (w_updates w) (w_status w))
       (vSphereConnections w) (storageClassController w) (w_vcenter w) = Returned (u, r, c1, s1)"
    and "write_status env (\<lambda>att. u) w = (e, w1)"
    and "w' = w1\<lparr>storageClassController := c1, w_vcenter := s1,
           w_sc_calls := w_sc_calls w1 @ sync_calls r, w_metrics := m\<rparr>"
proof -
  obtain u r c1 s1 where y:
    "Sync ((env_sc env)\<lparr>env_infra := infra, env_driver := env_drivers env\<rparr>) (env_now_status env)
       storageClassControllerName (env_attempt env (w_updates w) (w_status w))
       (vSphereConnections w) (storageClassController w) (w_vcenter w) = Returned (u, r, c1, s1)"
    using assms by (auto simp: syncStorageClassController_def obind_Returned)
  obtain e1 w1 where s: "write_status env (\<lambda>att. u) w = (e1, w1)" by fastforce
  show thesis
    using that [OF y, of w1] assms y s by (auto simp: syncStorageClassController_def)
qed

lemma syncStorageClassController_progressed:
  assumes "syncStorageClassController env infra w = Returned (e, w')"
  shows "progressed w w'"
proof -
  obtain u and r :: sc_sync and c1 s1 w1 m where s: "write_status env (\<lambda>att. u) w = (e, w1)"
    and w': "w' = w1\<lparr>storageClassController := c1, w_vcenter := s1,
           w_sc_calls := w_sc_calls w1 @ sync_calls r, w_metrics := m\<rparr>"
    using assms by (rule syncStorageClassController_cases)
  have "progressed w w1" by (rule progressed_reported [OF write_status_reported [OF s]])
  moreover have "progressed w1 w'" by (simp add: w' progressed_def started_once_def)
  ultimately show ?thesis by (rule progressed_trans)
qed

lemma note_connection_progressed: "progressed w (note_connection env r st w)"
  by (simp add: note_connection_def progressed_def started_once_def Let_def env_reach.reset)

text \<open>The ways \<open>sync_connected\<close> and \<open>sync_managed\<close> return.\<close>

lemma sync_connected_cases:
  assumes "sync_connected env infra d conn st w = Returned (err, w')"
  obtains
    (stopped) block where "installCSIDriver env infra d conn st (note_connection env conn st w) =
        Returned ((block, err), w')"
      and "err \<noteq> None \<or> block \<or> \<not> operandControllerStarted w'"
  | (storage) w1 where "installCSIDriver env infra d conn st (note_connection env conn st w) =
        Returned ((False, None), w1)"
      and "operandControllerStarted w1" and "syncStorageClassController env infra w1 = Returned (err, w')"
proof -
  obtain block e w1 where i: "installCSIDriver env infra d conn st (note_connection env conn st w) =
      Returned ((block, e), w1)"
    using assms by (auto simp: sync_connected_def obind_Returned)
  with assms that show thesis by (auto simp: sync_connected_def split: if_splits)
qed

lemma sync_connected_progressed:
  assumes "sync_connected env infra d conn st w = Returned (err, w')"
  shows "progressed w w'"
  using assms
proof (cases rule: sync_connected_cases)
  case (stopped block)
  show ?thesis
    by (rule progressed_trans [OF note_connection_progressed installCSIDriver_progressed [OF stopped(1)]])
next
  case (storage w1)
  have "progressed w w1"
    by (rule progressed_trans [OF note_connection_progressed installCSIDriver_progressed [OF storage(1)]])
  then show ?thesis
    by (rule progressed_trans [OF _ syncStorageClassController_progressed [OF storage(3)]])
qed

text \<open>The world when the login starts: metrics, the flag, the configuration, the old ConfigMap.\<close>

definition before_login ::
  "'s Env \<Rightarrow> Infrastructure \<Rightarrow> ClusterCSIDriver \<Rightarrow> bool \<Rightarrow> VSphereConfig \<Rightarrow> 's World \<Rightarrow> 's World" where
  "before_login env infra d found cfg w =
     (let w1 = w\<lparr>w_metrics := UpdateMetrics infra d (w_metrics w)\<rparr>;
          w2 = (if found \<and> \<not> operandControllerStarted w1 then start_operand w1 else w1)
      in w2\<lparr>cloudConfig := Some cfg,
            w_deleted := w_deleted w2 @ deleteConfigMapIfExists (env_configMaps env)
              (targetNamespace w2) legacyConfigMapName (targetNamespace w2)\<rparr>)"

definition cloud_config :: "'s Env \<Rightarrow> Infrastructure \<Rightarrow> VSphereConfig result" where
  "cloud_config env infra =
     loadCloudConfig (env_readConfig env) (env_readLegacy env) (env_configMaps env) infra"

lemma sync_managed_cases:
  assumes "sync_managed env infra d st w = Returned (err, w')"
  obtains
    (unknown) e where "driverAlreadyStarted (env_csiDrivers env) = Inl e" and "err = Some e"
      and "w' = w\<lparr>w_metrics := UpdateMetrics infra d (w_metrics w)\<rparr>"
  | (no_config) found e w2 where "driverAlreadyStarted (env_csiDrivers env) = Inr found"
      and "cloud_config env infra = Inl e" and "err = Some e"
      and "w2 = w\<lparr>w_metrics := UpdateMetrics infra d (w_metrics w)\<rparr>"
      and "w' = (if found \<and> \<not> operandControllerStarted w2 then start_operand w2 else w2)\<lparr>cloudConfig := None\<rparr>"
  | (connected) found cfg conn w4 w5 where "driverAlreadyStarted (env_csiDrivers env) = Inr found"
      and "cloud_config env infra = Inr cfg"
      and "login env cfg (ConvertToPlatformSpec (Some cfg) infra) (before_login env infra d found cfg w) =
         Returned (conn, w4)"
      and "sync_connected env (ConvertToPlatformSpec (Some cfg) infra) d conn st w4 = Returned (err, w5)"
      and "w' = deferred_logout env w5"
proof (cases "driverAlreadyStarted (env_csiDrivers env)")
  case (Inl e)
  with assms that(1) show thesis by (simp add: sync_managed_def Let_def)
next
  case (Inr found)
  show thesis
  proof (cases "cloud_config env infra")
    case (Inl e)
    with assms Inr that(2) show thesis
      by (auto simp: sync_managed_def Let_def cloud_config_def split: if_splits)
  next
    case cfg: (Inr cfg)
    have "sync_managed env infra d st w =
        obind (login env cfg (ConvertToPlatformSpec (Some cfg) infra) (before_login env infra d found cfg w))
          (\<lambda>(connectionResult, w4).
             obind (sync_connected env (ConvertToPlatformSpec (Some cfg) infra) d connectionResult st w4)
               (\<lambda>(err, w5). Returned (err, deferred_logout env w5)))"
      using Inr cfg unfolding sync_managed_def Let_def cloud_config_def before_login_def by simp
    with assms that(3) [OF Inr cfg] show thesis by (auto simp: obind_Returned)
  qed
qed

subsection \<open>A sync and a run of syncs\<close>

lemma login_cases:
  assumes "login env cfg infra w = Returned (conn, w')" and "vSphereConnections w = []"
  obtains conns where "w' = w\<lparr>vSphereConnections := conns, w_sessions := w_sessions w @ concat (map held conns)\<rparr>"
    and "wf_result conn"
    and "CheckError conn = None \<longrightarrow> (\<forall>c \<in> set conns. Client c \<noteq> None \<and> RestClient c)"
    and "CheckError conn \<noteq> None \<longrightarrow> Action conn = CheckActionDegrade
           \<or> Action conn = CheckActionBlockUpgradeOrDegrade
             \<and> CheckStatus conn = CheckStatusVSphereConnectionFailed"
proof -
  obtain conns log where l: "loginToVCenter (env_svc env) (env_secrets env) (targetNamespace w) cfg infra
      [] (w_sessions w) = Returned (conn, conns, log)"
    and w': "w' = w\<lparr>vSphereConnections := conns, w_sessions := log\<rparr>"
    using assms by (auto simp: login_def obind_Returned)
  note held = loginToVCenter_held [OF l]
  from that [of conns] held w' show thesis by blast
qed

definition balanced :: "session_log \<Rightarrow> bool" where
  "balanced log \<longleftrightarrow> (\<exists>opened. mset log = mset opened + mset (map undo opened))"

lemma balanced_Nil [simp]: "balanced []"
  unfolding balanced_def by (intro exI [of _ "[]"]) simp

lemma balanced_closed:
  assumes "balanced log"
  shows "balanced (logout_all svc conns (log @ concat (map held conns)))"
proof -
  obtain opened where "mset log = mset opened + mset (map undo opened)"
    using assms by (auto simp: balanced_def)
  then show ?thesis
    unfolding balanced_def
    by (intro exI [of _ "opened @ concat (map held conns)"]) (simp add: logout_all_balances)
qed

text \<open>The state a sync starts from and leaves behind.\<close>

definition ctl_inv :: "'s World \<Rightarrow> bool" where
  "ctl_inv w \<longleftrightarrow> vSphereConnections w = [] \<and> balanced (w_sessions w)
     \<and> (operandControllerStarted w \<longleftrightarrow> w_starts w = 1) \<and> w_starts w \<le> 1
     \<and> env_reach (vSphereChecker w)
     \<and> (currentManagmentState w = None \<or> currentManagmentState w = Some Managed)"

lemma started_once_inv:
  "started_once w w' \<Longrightarrow> (operandControllerStarted w \<longleftrightarrow> w_starts w = 1) \<Longrightarrow> w_starts w \<le> 1 \<Longrightarrow>
     (operandControllerStarted w' \<longleftrightarrow> w_starts w' = 1) \<and> w_starts w' \<le> 1"
  by (auto simp: started_once_def)

lemma ctl_inv_same:
  assumes "ctl_inv w" and "started_once w w'" and "vSphereConnections w' = vSphereConnections w"
    and "w_sessions w' = w_sessions w" and "env_reach (vSphereChecker w) \<longrightarrow> env_reach (vSphereChecker w')"
    and "currentManagmentState w' = currentManagmentState w"
  shows "ctl_inv w'"
  using assms started_once_inv [OF assms(2)] by (simp add: ctl_inv_def)

lemma removeOperands_keeps:
  assumes "removeOperands env st w = (e, w')"
  shows "operandControllerStarted w' = operandControllerStarted w" "w_starts w' = w_starts w"
    "vSphereConnections w' = vSphereConnections w" "w_sessions w' = w_sessions w"
    "vSphereChecker w' = vSphereChecker w" "currentManagmentState w' = currentManagmentState w"
    "w_removed w' = w_removed w @ assetsToBeDeleted" "w_secrets w' = w_secrets w"
  using assms
  by (auto simp: removeOperands_def write_status_def Let_def split: if_splits prod.splits option.splits)

lemma before_login_keeps:
  "started_once w (before_login env infra d found cfg w)"
  "vSphereConnections (before_login env infra d found cfg w) = vSphereConnections w"
  "w_sessions (before_login env infra d found cfg w) = w_sessions w"
  "vSphereChecker (before_login env infra d found cfg w) = vSphereChecker w"
  "currentManagmentState (before_login env infra d found cfg w) = currentManagmentState w"
  "name (before_login env infra d found cfg w) = name w"
  "w_status (before_login env infra d found cfg w) = w_status w"
  "w_updates (before_login env infra d found cfg w) = w_updates w"
  "w_secrets (before_login env infra d found cfg w) = w_secrets w"
  "w_sc_calls (before_login env infra d found cfg w) = w_sc_calls w"
  "cloudConfig (before_login env infra d found cfg w) = Some cfg"
  "vCenterConnectionStatus (before_login env infra d found cfg w) = vCenterConnectionStatus w"
  "operandControllerStarted (before_login env infra d found cfg w) \<longleftrightarrow> found \<or> operandControllerStarted w"
  by (auto simp: before_login_def started_once_def start_operand_def Let_def)

lemma sync_managed_inv:
  assumes "sync_managed env infra d st w = Returned (err, w')" and "ctl_inv w"
  shows "ctl_inv w'"
  using assms(1)
proof (cases rule: sync_managed_cases)
  case (unknown e)
  with assms(2) show ?thesis by (simp add: ctl_inv_def)
next
  case (no_config found e w2)
  with assms(2) show ?thesis by (auto simp: ctl_inv_def start_operand_def)
next
  case (connected found cfg conn w4 w5)
  let ?w3 = "before_login env infra d found cfg w"
  have w3: "ctl_inv ?w3"
    by (rule ctl_inv_same [OF assms(2)]) (simp_all add: before_login_keeps)
  then have "vSphereConnections ?w3 = []" by (simp add: ctl_inv_def)
  with connected(3) obtain conns where
    w4: "w4 = ?w3\<lparr>vSphereConnections := conns, w_sessions := w_sessions ?w3 @ concat (map held conns)\<rparr>"
    by (rule login_cases)
  have p: "progressed w4 w5" by (rule sync_connected_progressed [OF connected(4)])
  have "started_once ?w3 w5" using p w4 by (simp add: progressed_def started_once_def)
  from started_once_inv [OF this] p w4 w3 connected(5)
  show ?thesis
    by (simp add: ctl_inv_def progressed_def deferred_logout_def balanced_closed)
qed

text \<open>The ways \<open>sync\<close> returns.\<close>

lemma controller_sync_cases:
  assumes "controller_sync env w = Returned (err, w')"
  obtains
    (idle) "w' = w"
  | (removed) sp st where "env_state env = Inr (sp, st)" and "Spec_ManagementState sp = Removed"
      and "currentManagmentState w \<noteq> Some Managed" and "removeOperands env st w = (err, w')"
  | (no_driver) e where "env_drivers env VSphereDriverName = Inl e" and "err = Some e"
      and "w' = w\<lparr>currentManagmentState := Some Managed\<rparr>"
  | (managed) sp st infra d where "env_state env = Inr (sp, st)" and "Spec_ManagementState sp = Managed"
      and "env_infras env infraGlobalName = Inr infra"
      and "PlatformStatus_Type infra = Some VSpherePlatformType"
      and "env_drivers env VSphereDriverName = Inr d"
      and "sync_managed env infra d st (w\<lparr>currentManagmentState := Some Managed\<rparr>) = Returned (err, w')"
proof (cases "env_state env")
  case (Inl e)
  with assms idle show thesis by (simp add: controller_sync_def)
next
  case (Inr state)
  then obtain sp st where state: "env_state env = Inr (sp, st)" by (cases state) auto
  show thesis
  proof (cases "env_infras env infraGlobalName")
    case (Inl e)
    with assms state idle show thesis by (simp add: controller_sync_def)
  next
    case infra: (Inr infra)
    show thesis
    proof (cases "PlatformStatus_Type infra = Some VSpherePlatformType")
      case False
      with assms state infra idle show thesis by (simp add: controller_sync_def split: if_splits)
    next
      case platform: True
      show thesis
      proof (cases "Spec_ManagementState sp = Managed")
        case managed_state: True
        show thesis
        proof (cases "env_drivers env VSphereDriverName")
          case (Inl e)
          with assms state infra platform managed_state no_driver show thesis
            by (simp add: controller_sync_def)
        next
          case (Inr d)
          with assms state infra platform managed_state managed show thesis
            by (simp add: controller_sync_def)
        qed
      next
        case False
        with assms state infra platform idle removed show thesis
          by (simp add: controller_sync_def split: if_splits)
      qed
    qed
  qed
qed

lemma controller_sync_inv:
  assumes "controller_sync env w = Returned (err, w')" and "ctl_inv w"
  shows "ctl_inv w'"
  using assms(1)
proof (cases rule: controller_sync_cases)
  case idle
  with assms(2) show ?thesis by simp
next
  case (removed sp st)
  note k = removeOperands_keeps [OF removed(4)]
  show ?thesis by (rule ctl_inv_same [OF assms(2)]) (simp_all add: k started_once_def)
next
  case (no_driver e)
  with assms(2) show ?thesis by (simp add: ctl_inv_def)
next
  case (managed sp st infra d)
  have "ctl_inv (w\<lparr>currentManagmentState := Some Managed\<rparr>)" using assms(2) by (simp add: ctl_inv_def)
  from sync_managed_inv [OF managed(6) this] show ?thesis .
qed

text \<open>A run: any number of syncs that return, each in an environment of its own.\<close>

inductive operator_run :: "'s World \<Rightarrow> 's World \<Rightarrow> bool" for w0 :: "'s World" where
  boot: "operator_run w0 w0"
| sync: "operator_run w0 w \<Longrightarrow> controller_sync env w = Returned (err, w') \<Longrightarrow> operator_run w0 w'"

definition booted :: "'s World \<Rightarrow> bool" where
  "booted w \<longleftrightarrow>
     (\<exists>nm ns gates now. VSphereController.truncate w = NewVSphereController nm ns gates now)
     \<and> w_sessions w = [] \<and> w_starts w = 0"

lemma booted_inv: "booted w \<Longrightarrow> ctl_inv w"
  by (auto simp: booted_def ctl_inv_def NewVSphereController_def VSphereController.truncate_def
      intro: env_reach.new)

lemma operator_run_inv: "operator_run w0 w \<Longrightarrow> booted w0 \<Longrightarrow> ctl_inv w"
  by (induction rule: operator_run.induct) (auto intro: booted_inv controller_sync_inv)

text \<open>
  C4: the life of the operator process. Whatever syncs it runs in whatever environments (errors at
  any point included), the conditional controllers of the driver are started at most once and exactly when
  the flag says so, every vCenter session that was opened has been closed when a sync is over, no
  connection is carried over to the next sync, and the delays of the environment checks stay within
  their bounds.
\<close>
theorem operator_run_safe:
  assumes "booted w0" and "operator_run w0 w"
  shows "w_starts w \<le> 1 \<and> (operandControllerStarted w \<longleftrightarrow> w_starts w = 1)
     \<and> vSphereConnections w = []
     \<and> (\<exists>opened. mset (w_sessions w) = mset opened + mset (map undo opened))
     \<and> (\<exists>n. Duration (backoff (vSphereChecker w)) = min (2 ^ n * minute) hour)"
proof -
  have "ctl_inv w" by (rule operator_run_inv [OF assms(2,1)])
  then show ?thesis
    using env_reach_backoff [of "vSphereChecker w"] backoff_duration
    by (auto simp: ctl_inv_def balanced_def)
qed

end
