(* ===== verification/Controller_Verdicts.thy ===== *)
theory Controller_Verdicts
  imports Controller_Runs
begin

text \<open>
  What a sync tells the cluster: the conditions it leaves are the verdict on the login and on the
  checks, which is an abstract specification (\<open>blocks_install\<close>, \<open>upgrade_status\<close>, \<open>says\<close>) that the
  branches of the controller implement; when the driver is started, and when it is not.
  \<open>quiet_env\<close> is an API server that accepts each write with no other writer in between.
\<close>

subsection \<open>Reading the conditions\<close>

abbreviation reads :: "'s World \<Rightarrow> string \<Rightarrow> (ConditionStatus \<times> string \<times> string) option" where
  "reads w t \<equiv> map_option said (lookup_condition (w_status w) t)"

definition quiet_env :: "'s Env \<Rightarrow> bool" where
  "quiet_env env \<longleftrightarrow> env_attempt env = (\<lambda>k. quiet)"

fun blocks_install :: "ClusterCheckStatus \<Rightarrow> bool" where
  "blocks_install ClusterCheckAllGood = False"
| "blocks_install ClusterCheckBlockUpgrade = False"
| "blocks_install ClusterCheckBlockUpgradeDriverInstall = True"
| "blocks_install ClusterCheckUpgradeStateUnknown = True"
| "blocks_install ClusterCheckDegrade = True"

fun upgrade_status :: "ClusterCheckStatus \<Rightarrow> ConditionStatus" where
  "upgrade_status ClusterCheckAllGood = ConditionTrue"
| "upgrade_status ClusterCheckUpgradeStateUnknown = ConditionUnknown"
| "upgrade_status st = ConditionFalse"

text \<open>The conditions of a controller \<open>nm\<close> after the verdict \<open>st\<close> on the result \<open>r\<close>.\<close>

definition says ::
  "string \<Rightarrow> bool \<Rightarrow> ClusterCheckStatus \<Rightarrow> ClusterCheckResult
     \<Rightarrow> (string \<Rightarrow> (ConditionStatus \<times> string \<times> string) option)
     \<Rightarrow> string \<Rightarrow> (ConditionStatus \<times> string \<times> string) option" where
  "says nm started st r old t =
     (if t = nm @ ''Upgradeable''
      then Some (upgrade_status st, status_string (CheckStatus r), Reason r)
      else if t = nm @ ''Available'' then None
      else if t = nm @ ''Disabled''
        then (if \<not> started \<and> blocks_install st then Some (ConditionTrue, [], Reason r) else None)
      else if t = ''VMwareVSphereOperatorCheckDegraded''
        then Some (if st = ClusterCheckDegrade
                   then (ConditionTrue, status_string (CheckStatus r), Reason r)
                   else (ConditionFalse, [], []))
      else old t)"

lemma says_again: "says nm s st r (says nm s' st' r' old) t = says nm s st r old t"
  by (simp add: says_def)

lemma quiet_update:
  assumes "quiet_env env" and "controller_updateConditions env r status up b w = (e, w')"
    and "up = upgrade_status st" and "b = blocks_install st"
    and "Action r = CheckActionDegrade \<longleftrightarrow> st = ClusterCheckDegrade"
  shows "e = None" "reads w' t = says (name w) (operandControllerStarted w) st r (reads w) t"
proof -
  let ?up = "fst (addUpgradeableBlockCondition r (name w) status up)"
  let ?fs = "updateConditions_funcs (env_now_status env) (name w) r ?up (operandControllerStarted w) b"
  have cond: "cnd_Type ?up = name w @ ''Upgradeable''"
    "said ?up = (up, status_string (CheckStatus r), Reason r)"
    by (simp_all add: addUpgradeableBlockCondition_def OperatorStatusTypeUpgradeable_def Let_def)
  have u: "UpdateStatus ?fs (env_attempt env (w_updates w) (w_status w)) =
      (None, if apply_all ?fs (w_status w) = w_status w then None else Some (apply_all ?fs (w_status w)))"
    using assms(1) by (simp add: quiet_env_def UpdateStatus_quiet)
  show "e = None"
    using assms(2) u
    by (auto simp: controller_updateConditions_def write_status_def updateConditions_simps Let_def)
  have "w_status w' = apply_all ?fs (w_status w)"
    using assms(2) u
    by (auto simp: controller_updateConditions_def write_status_def updateConditions_simps Let_def)
  then show "reads w' t = says (name w) (operandControllerStarted w) st r (reads w) t"
    using updateConditions_funcs_read [OF cond(1), of "env_now_status env" r "operandControllerStarted w" b
        "w_status w" t] assms(3-5) cond(2)
    by (simp add: says_def degrade_said_def del: map_option_eq_Some)
qed

subsection \<open>The verdict on one result\<close>

text \<open>The status alone, as a function of the result and the CSIDriver object.\<close>

definition cluster_status :: "KubeAPI \<Rightarrow> ClusterCheckResult \<Rightarrow> ClusterCheckStatus" where
  "cluster_status api r =
     (case Action r of
        CheckActionPass \<Rightarrow> ClusterCheckAllGood
      | CheckActionBlockUpgrade \<Rightarrow> ClusterCheckBlockUpgrade
      | CheckActionBlockUpgradeDriverInstall \<Rightarrow> ClusterCheckBlockUpgradeDriverInstall
      | CheckActionDegrade \<Rightarrow> ClusterCheckDegrade
      | CheckActionBlockUpgradeOrDegrade \<Rightarrow>
          if driver_is_ours api \<or> driver_unknown api then ClusterCheckDegrade
          else if CheckStatus r = CheckStatusVSphereConnectionFailed then ClusterCheckUpgradeStateUnknown
          else ClusterCheckBlockUpgrade)"

lemma cluster_status_pass: "cluster_status api r = ClusterCheckAllGood \<longleftrightarrow> Action r = CheckActionPass"
  by (auto simp: cluster_status_def split: CheckAction.splits)

lemma CheckClusterStatus_status:
  assumes "wf_result r"
  obtains r' where "CheckClusterStatus r api = Returned (cluster_status api r, r')"
    and "Action r' = CheckActionDegrade \<longleftrightarrow> cluster_status api r = ClusterCheckDegrade"
    and "cluster_status api r \<noteq> ClusterCheckDegrade \<longrightarrow> r' = r" and "wf_result r'"
proof -
  have "\<exists>r'. CheckClusterStatus r api = Returned (cluster_status api r, r')
    \<and> (Action r' = CheckActionDegrade \<longleftrightarrow> cluster_status api r = ClusterCheckDegrade)
    \<and> (cluster_status api r \<noteq> ClusterCheckDegrade \<longrightarrow> r' = r) \<and> wf_result r'"
  proof (cases "Action r = CheckActionBlockUpgradeOrDegrade")
    case True
    then obtain e where "CheckError r = Some e" using wf_result_error [OF assms] by auto
    with True assms wf_result_status [OF assms this] show ?thesis
      by (simp add: CheckClusterStatus_def cluster_status_def Let_def driver_is_ours_def driver_unknown_def
          split: sum.split)
  next
    case False
    with assms show ?thesis by (cases "Action r") (simp_all add: CheckClusterStatus_def cluster_status_def)
  qed
  with that show thesis by blast
qed

lemma set_install_error_same [simp]:
  "name (set_install_error x c w) = name w"
  "operandControllerStarted (set_install_error x c w) = operandControllerStarted w"
  "w_status (set_install_error x c w) = w_status w"
  by (simp_all add: set_install_error_def)

text \<open>A status other than all good is written; the result handed on is \<open>r'\<close>.\<close>

lemma block_steps:
  assumes "CheckClusterStatus r (getCheckAPIDependency env infra) = Returned (st, r')"
    and "blockUpgradeOrDegradeCluster env r infra status w = Returned ((e, b, u), w')"
  shows "b = blocks_install st"
    "u \<longleftrightarrow> st = ClusterCheckBlockUpgrade \<or> st = ClusterCheckBlockUpgradeDriverInstall"
    "st = ClusterCheckAllGood \<Longrightarrow> e = None \<and> w' = w"
    "st \<noteq> ClusterCheckAllGood \<Longrightarrow> \<exists>w0. name w0 = name w
       \<and> operandControllerStarted w0 = operandControllerStarted w \<and> w_status w0 = w_status w
       \<and> controller_updateConditions env r' status (upgrade_status st) (blocks_install st) w0 = (e, w')"
proof -
  have split: "(case f w0 of (x, y) \<Rightarrow> ((x, b1, b2), y)) = ((e, b, u), w') \<longleftrightarrow>
      f w0 = (e, w') \<and> b1 = b \<and> b2 = u" for f w0 b1 b2
    by (cases "f w0") auto
  show "b = blocks_install st"
    "u \<longleftrightarrow> st = ClusterCheckBlockUpgrade \<or> st = ClusterCheckBlockUpgradeDriverInstall"
    "st = ClusterCheckAllGood \<Longrightarrow> e = None \<and> w' = w"
    using assms by (cases st; simp add: blockUpgradeOrDegradeCluster_def split)+
  show "st \<noteq> ClusterCheckAllGood \<Longrightarrow> \<exists>w0. name w0 = name w
       \<and> operandControllerStarted w0 = operandControllerStarted w \<and> w_status w0 = w_status w
       \<and> controller_updateConditions env r' status (upgrade_status st) (blocks_install st) w0 = (e, w')"
    using assms
    by (cases st; simp add: blockUpgradeOrDegradeCluster_def split; metis set_install_error_same)
qed

lemma block_verdict:
  assumes "quiet_env env" and "wf_result r"
    and "blockUpgradeOrDegradeCluster env r infra status w = Returned ((e, b, u), w')"
  obtains r' where
    "CheckClusterStatus r (getCheckAPIDependency env infra) =
       Returned (cluster_status (getCheckAPIDependency env infra) r, r')"
    and "e = None" and "b = blocks_install (cluster_status (getCheckAPIDependency env infra) r)"
    and "u \<longleftrightarrow> cluster_status (getCheckAPIDependency env infra) r \<in>
           {ClusterCheckBlockUpgrade, ClusterCheckBlockUpgradeDriverInstall}"
    and "Action r \<noteq> CheckActionPass \<Longrightarrow> \<forall>t. reads w' t =
       says (name w) (operandControllerStarted w) (cluster_status (getCheckAPIDependency env infra) r) r' (reads w) t"
    and "Action r = CheckActionPass \<Longrightarrow> w' = w"
proof -
  let ?st = "cluster_status (getCheckAPIDependency env infra) r"
  obtain r' where c: "CheckClusterStatus r (getCheckAPIDependency env infra) = Returned (?st, r')"
    and d: "Action r' = CheckActionDegrade \<longleftrightarrow> ?st = ClusterCheckDegrade"
    using CheckClusterStatus_status [OF assms(2)] by blast
  note s = block_steps [OF c assms(3)]
  show thesis
  proof (cases "?st = ClusterCheckAllGood")
    case True
    with that [OF c] s show thesis by (simp add: cluster_status_pass)
  next
    case False
    then obtain w0 where w0: "name w0 = name w" "operandControllerStarted w0 = operandControllerStarted w"
      "w_status w0 = w_status w"
      "controller_updateConditions env r' status (upgrade_status ?st) (blocks_install ?st) w0 = (e, w')"
      using s(4) by blast
    note q = quiet_update [OF assms(1) w0(4) refl refl d]
    show thesis
      using that [OF c] q w0(1-3) s(1,2) False by (simp add: cluster_status_pass)
  qed
qed

subsection \<open>The verdict on the checks\<close>

text \<open>What the three checkers return is well formed, so the overall result is.\<close>

definition lawful_checks :: "'s Env \<Rightarrow> bool" where
  "lawful_checks env \<longleftrightarrow> (\<forall>args rs. env_checks env args = Returned rs \<longrightarrow> checkers_may_return args rs)"

definition check_args :: "'s Env \<Rightarrow> Infrastructure \<Rightarrow> 's World \<Rightarrow> CheckArgs" where
  "check_args env infra w =
     \<lparr>vmConnection = vSphereConnections w, apiClient = getCheckAPIDependency env infra,
      featureGate = featureGates w\<rparr>"

text \<open>The result a run of the checks is judged by: pass, or the most severe one.\<close>

definition judged :: "ClusterCheckResult list \<Rightarrow> ClusterCheckResult" where
  "judged rs = (if Action (overall_result rs) = CheckActionPass then MakeClusterCheckResultPass
                else overall_result rs)"

lemma overall_result_in: "Action (overall_result rs) \<noteq> CheckActionPass \<Longrightarrow> overall_result rs \<in> set rs"
proof -
  assume a: "Action (overall_result rs) \<noteq> CheckActionPass"
  then have "rs \<noteq> []" by (auto simp: overall_result_def zero_result_def)
  from overall_result_last [OF this] obtain front rear where "rs = front @ overall_result rs # rear"
    by blast
  then show ?thesis by (metis in_set_conv_decomp)
qed

lemma judged_wf:
  assumes "\<forall>r \<in> set rs. wf_result r"
  shows "wf_result (judged rs)"
  using assms overall_result_in [of rs] by (auto simp: judged_def)

lemma judged_pass: "Action (judged rs) = CheckActionPass \<longleftrightarrow> Action (overall_result rs) = CheckActionPass"
  by (simp add: judged_def check_simps)

lemma checks_wf:
  assumes "lawful_checks env" and "env_checks env args = Returned rs"
  shows "wf_result (judged rs)"
proof -
  have "checkers_may_return args rs" using assms by (simp add: lawful_checks_def)
  then show ?thesis using env_check.results_wf by (blast intro: judged_wf)
qed

text \<open>
  C20: the type of the check results. Whatever the three checkers find, in every interleaving of the node
  check, each result is either the passing result or carries an error, an action other than pass, a
  status that names the failure and a reason that ends with the error's text; so judging the most
  severe of them never dereferences a missing error, for any answer of the API server.
\<close>
theorem check_results_typed:
  assumes "checkers_may_return args rs"
  shows "(\<forall>r \<in> set rs. case CheckError r of
            None \<Rightarrow> r = MakeClusterCheckResultPass
          | Some e \<Rightarrow> Action r \<noteq> CheckActionPass \<and> CheckStatus r \<notin> {CheckStatusUnset, CheckStatusPass}
              \<and> has_suffix (Reason r) (err_msg e))
     \<and> (\<forall>api. \<exists>status r'. CheckClusterStatus (judged rs) api = Returned (status, r'))"
proof
  have wf: "\<forall>r \<in> set rs. wf_result r" using env_check.results_wf assms by blast
  then show "\<forall>r \<in> set rs. case CheckError r of
            None \<Rightarrow> r = MakeClusterCheckResultPass
          | Some e \<Rightarrow> Action r \<noteq> CheckActionPass \<and> CheckStatus r \<notin> {CheckStatusUnset, CheckStatusPass}
              \<and> has_suffix (Reason r) (err_msg e)"
    by (auto simp: wf_result_def split: option.splits)
  show "\<forall>api. \<exists>status r'. CheckClusterStatus (judged rs) api = Returned (status, r')"
    using CheckClusterStatus_status [OF judged_wf [OF wf]] by blast
qed

lemma ran_check:
  assumes "runClusterCheck env infra w = Returned ((nextDelay, r, True), w')"
  obtains rs where "env_checks env (check_args env infra w) = Returned rs" and "r = judged rs"
    and "nextCheck (vSphereChecker w) < env_now_guard env"
    and "w' = w\<lparr>vSphereChecker := vSphereChecker w'\<rparr>"
proof -
  obtain rs v where c: "Check (env_now_guard env) (env_now_check env) (env_extra env) rs (vSphereChecker w) =
       ((nextDelay, r, True), v)" and w': "w' = w\<lparr>vSphereChecker := v\<rparr>"
    and rs: "nextCheck (vSphereChecker w) < env_now_guard env"
      "env_checks env (check_args env infra w) = Returned rs"
    using runClusterCheck_cases [OF assms] unfolding check_args_def by blast
  have "r = judged rs"
    using c rs(1) by (auto simp: Check_def judged_def Let_def split: prod.splits if_splits)
  with that rs w' show thesis by simp
qed

lemma skipped_check:
  assumes "runClusterCheck env infra w = Returned ((nextDelay, r, False), w')"
  shows "w' = w" "\<not> nextCheck (vSphereChecker w) < env_now_guard env"
proof -
  obtain rs v where c: "Check (env_now_guard env) (env_now_check env) (env_extra env) rs (vSphereChecker w) =
       ((nextDelay, r, False), v)" and w': "w' = w\<lparr>vSphereChecker := v\<rparr>"
    using runClusterCheck_cases [OF assms] by blast
  then have "\<not> nextCheck (vSphereChecker w) < env_now_guard env \<and> v = vSphereChecker w"
    by (auto simp: Check_def Let_def split: prod.splits if_splits)
  with w' show "w' = w" "\<not> nextCheck (vSphereChecker w) < env_now_guard env" by simp_all
qed

text \<open>After the checks: the conditions are the verdict, and the operand runs unless it is blocked.\<close>

lemma after_checks_verdict:
  assumes "quiet_env env" and "wf_result r"
    and "after_checks env infra status False d r w = Returned ((block, err), w')"
  obtains r' where
    "CheckClusterStatus r (getCheckAPIDependency env infra) =
       Returned (cluster_status (getCheckAPIDependency env infra) r, r')"
    and "err = None" and "block = blocks_install (cluster_status (getCheckAPIDependency env infra) r)"
    and "operandControllerStarted w' \<longleftrightarrow> operandControllerStarted w \<or> \<not> block"
    and "\<forall>t. reads w' t = says (name w) (operandControllerStarted w')
           (cluster_status (getCheckAPIDependency env infra) r) r' (reads w) t"
proof -
  let ?api = "getCheckAPIDependency env infra"
  let ?st = "cluster_status ?api r"
  let ?w0 = "w\<lparr>w_timers := w_timers w @ [d]\<rparr>"
  show thesis
    using assms(3)
  proof (cases rule: after_checks_cases)
    case (stopped u)
    obtain r' where v: "CheckClusterStatus r ?api = Returned (?st, r')" "err = None" "block = blocks_install ?st"
      "Action r \<noteq> CheckActionPass \<Longrightarrow> \<forall>t. reads w' t =
         says (name ?w0) (operandControllerStarted ?w0) ?st r' (reads ?w0) t"
      using block_verdict [OF assms(1,2) stopped(1)] by metis
    have block: "block" using stopped(2) v(2) by simp
    then have "Action r \<noteq> CheckActionPass" using v(3) cluster_status_pass [of ?api r] by auto
    moreover have "operandControllerStarted w' = operandControllerStarted w"
      using block_reported [OF stopped(1)] by (simp add: reported_def)
    ultimately show thesis using that [OF v(1,2,3)] v(4) block by simp
  next
    case (running u w1 w2 w3)
    obtain r' where v: "CheckClusterStatus r ?api = Returned (?st, r')" "False = blocks_install ?st"
      "u \<longleftrightarrow> ?st \<in> {ClusterCheckBlockUpgrade, ClusterCheckBlockUpgradeDriverInstall}"
      "Action r \<noteq> CheckActionPass \<Longrightarrow> \<forall>t. reads w1 t =
         says (name ?w0) (operandControllerStarted ?w0) ?st r' (reads ?w0) t"
      "Action r = CheckActionPass \<Longrightarrow> w1 = ?w0"
      using block_verdict [OF assms(1,2) running(1)] by metis
    have st: "?st = ClusterCheckAllGood \<or> ?st = ClusterCheckBlockUpgrade"
      using v(2) by (cases ?st) auto
    obtain r'' where r': "CheckClusterStatus r ?api = Returned (?st, r'')"
      "Action r'' = CheckActionDegrade \<longleftrightarrow> ?st = ClusterCheckDegrade" "?st \<noteq> ClusterCheckDegrade \<longrightarrow> r'' = r"
      using CheckClusterStatus_status [OF assms(2)] by blast
    then have same: "r' = r" "Action r = CheckActionDegrade \<longleftrightarrow> ?st = ClusterCheckDegrade"
      using st v(1) by auto
    have up: "(if False \<or> u then ConditionFalse else ConditionTrue) = upgrade_status ?st"
      using st v(3) by auto
    have names: "name w3 = name w" "w_status w3 = w_status w1"
      using block_reported [OF running(1)]
      by (auto simp: running(3,4) start_operand_def reported_def)
    have started: "operandControllerStarted w3" by (simp add: running(4) start_operand_def)
    note q = quiet_update [OF assms(1) running(5) up v(2) same(2)]
    have w': "operandControllerStarted w'"
      using updateConditions_reported [OF running(5)] started by (simp add: reported_def)
    have "reads w' t = says (name w) True ?st r (reads w) t" for t
    proof (cases "Action r = CheckActionPass")
      case True
      then show ?thesis using q(2) [of t] v(5) names started by simp
    next
      case False
      then have "reads w1 = says (name w) (operandControllerStarted w) ?st r (reads w)"
        using v(4) same(1) by (auto simp: fun_eq_iff)
      then show ?thesis using q(2) [of t] names started by (simp add: says_again)
    qed
    then show thesis using that [OF v(1)] q(1) v(2) w' running(2) same(1) by simp
  qed
qed

end
