(* ===== verification/Controller_Sync.thy ===== *)
theory Controller_Sync
  imports Controller_Verdicts
begin

text \<open>
  What one whole sync does, from the environment it finds to the world it leaves: an operator that
  is not managed, a vCenter that cannot be reached, checks that run or are not due yet, and the
  start of the driver.
\<close>

subsection \<open>The managed sync\<close>

abbreviation full_infra :: "VSphereConfig \<Rightarrow> Infrastructure \<Rightarrow> Infrastructure" where
  "full_infra cfg infra \<equiv> ConvertToPlatformSpec (Some cfg) infra"

text \<open>
  A managed operator on vSphere whose objects can be read: \<open>found\<close> says whether the CSIDriver
  object is there and is OpenShift's own.
\<close>

definition managed_env ::
  "'s Env \<Rightarrow> conditions \<Rightarrow> Infrastructure \<Rightarrow> ClusterCSIDriver \<Rightarrow> bool \<Rightarrow> VSphereConfig \<Rightarrow> bool" where
  "managed_env env st infra d found cfg \<longleftrightarrow>
     (case env_state env of
        Inl e \<Rightarrow> False | Inr (sp, st') \<Rightarrow> Spec_ManagementState sp = Managed \<and> st' = st)
     \<and> env_infras env infraGlobalName = Inr infra
     \<and> PlatformStatus_Type infra = Some VSpherePlatformType
     \<and> env_drivers env VSphereDriverName = Inr d
     \<and> driverAlreadyStarted (env_csiDrivers env) = Inr found
     \<and> cloud_config env infra = Inr cfg"

text \<open>The login of this sync: its result and the world after it.\<close>

definition logs_in ::
  "'s Env \<Rightarrow> Infrastructure \<Rightarrow> ClusterCSIDriver \<Rightarrow> bool \<Rightarrow> VSphereConfig \<Rightarrow> 's World
     \<Rightarrow> ClusterCheckResult \<Rightarrow> 's World \<Rightarrow> bool" where
  "logs_in env infra d found cfg w conn w4 \<longleftrightarrow>
     login env cfg (full_infra cfg infra)
       (before_login env infra d found cfg (w\<lparr>currentManagmentState := Some Managed\<rparr>)) = Returned (conn, w4)"

lemma managed_sync:
  assumes "managed_env env st infra d found cfg" and "controller_sync env w = Returned (err, w')"
  obtains conn w4 w5 where "logs_in env infra d found cfg w conn w4"
    and "sync_connected env (full_infra cfg infra) d conn st w4 = Returned (err, w5)"
    and "w' = deferred_logout env w5"
proof -
  obtain sp where "env_state env = Inr (sp, st)" "Spec_ManagementState sp = Managed"
    using assms(1) by (auto simp: managed_env_def split: sum.splits prod.splits)
  with assms have "sync_managed env infra d st (w\<lparr>currentManagmentState := Some Managed\<rparr>) = Returned (err, w')"
    by (simp add: managed_env_def controller_sync_def)
  then show thesis
  proof (cases rule: sync_managed_cases)
    case (connected found' cfg' conn w4 w5)
    with assms(1) have "found' = found" "cfg' = cfg" by (auto simp: managed_env_def)
    with connected that show thesis by (simp add: logs_in_def)
  qed (use assms(1) in \<open>simp_all add: managed_env_def\<close>)
qed

lemma managed_sync_eq:
  assumes "managed_env env st infra d found cfg"
  shows "controller_sync env w =
     obind (login env cfg (full_infra cfg infra)
              (before_login env infra d found cfg (w\<lparr>currentManagmentState := Some Managed\<rparr>)))
       (\<lambda>(conn, w4). obind (sync_connected env (full_infra cfg infra) d conn st w4)
          (\<lambda>(err, w5). Returned (err, deferred_logout env w5)))"
proof -
  obtain sp where "env_state env = Inr (sp, st)" "Spec_ManagementState sp = Managed"
    using assms by (auto simp: managed_env_def split: sum.splits prod.splits)
  then show ?thesis
    using assms
    unfolding managed_env_def controller_sync_def sync_managed_def before_login_def cloud_config_def Let_def
    by simp
qed

lemma logs_in_world:
  assumes "logs_in env infra d found cfg w conn w4" and "vSphereConnections w = []"
  obtains conns where "vSphereConnections w4 = conns" and "wf_result conn"
    and "CheckError conn = None \<longrightarrow> (\<forall>c \<in> set conns. Client c \<noteq> None \<and> RestClient c)"
    and "CheckError conn \<noteq> None \<longrightarrow> Action conn = CheckActionDegrade
           \<or> Action conn = CheckActionBlockUpgradeOrDegrade
             \<and> CheckStatus conn = CheckStatusVSphereConnectionFailed"
    and "name w4 = name w" "operandControllerStarted w4 \<longleftrightarrow> found \<or> operandControllerStarted w"
    and "w_status w4 = w_status w" "w_secrets w4 = w_secrets w" "w_sc_calls w4 = w_sc_calls w"
    and "vSphereChecker w4 = vSphereChecker w" "vCenterConnectionStatus w4 = vCenterConnectionStatus w"
    and "w_timers w4 = w_timers w" "w_events w4 = w_events w" "w_vcenter w4 = w_vcenter w"
    and "storageClassController w4 = storageClassController w" "cloudConfig w4 = Some cfg"
    and "featureGates w4 = featureGates w"
proof -
  let ?w0 = "w\<lparr>currentManagmentState := Some Managed\<rparr>"
  let ?w3 = "before_login env infra d found cfg ?w0"
  have more: "w_timers ?w3 = w_timers w" "w_events ?w3 = w_events w" "w_vcenter ?w3 = w_vcenter w"
    "storageClassController ?w3 = storageClassController w" "featureGates ?w3 = featureGates w"
    by (simp_all add: before_login_def start_operand_def Let_def)
  have "login env cfg (full_infra cfg infra) ?w3 = Returned (conn, w4)" "vSphereConnections ?w3 = []"
    using assms by (simp_all add: logs_in_def before_login_keeps)
  then obtain conns where
    w4: "w4 = ?w3\<lparr>vSphereConnections := conns, w_sessions := w_sessions ?w3 @ concat (map held conns)\<rparr>"
    and rest: "wf_result conn" "CheckError conn = None \<longrightarrow> (\<forall>c \<in> set conns. Client c \<noteq> None \<and> RestClient c)"
      "CheckError conn \<noteq> None \<longrightarrow> Action conn = CheckActionDegrade
           \<or> Action conn = CheckActionBlockUpgradeOrDegrade
             \<and> CheckStatus conn = CheckStatusVSphereConnectionFailed"
    by (rule login_cases)
  show thesis
    by (rule that [of conns]) (simp_all add: w4 rest before_login_keeps more)
qed

lemma found_is_ours:
  assumes "driverAlreadyStarted (env_csiDrivers env) = Inr found"
  shows "driver_is_ours (getCheckAPIDependency env infra) = found"
    "\<not> driver_unknown (getCheckAPIDependency env infra)"
  using assms
  by (auto simp: driverAlreadyStarted_def driver_is_ours_def driver_unknown_def getCheckAPIDependency_def
      split: sum.splits if_splits)

lemma cluster_status_managed:
  assumes "managed_env env st infra d found cfg"
  shows "cluster_status (getCheckAPIDependency env infra') r =
     (case Action r of
        CheckActionPass \<Rightarrow> ClusterCheckAllGood
      | CheckActionBlockUpgrade \<Rightarrow> ClusterCheckBlockUpgrade
      | CheckActionBlockUpgradeDriverInstall \<Rightarrow> ClusterCheckBlockUpgradeDriverInstall
      | CheckActionDegrade \<Rightarrow> ClusterCheckDegrade
      | CheckActionBlockUpgradeOrDegrade \<Rightarrow>
          if found then ClusterCheckDegrade
          else if CheckStatus r = CheckStatusVSphereConnectionFailed then ClusterCheckUpgradeStateUnknown
          else ClusterCheckBlockUpgrade)"
proof -
  have "driverAlreadyStarted (env_csiDrivers env) = Inr found"
    using assms by (simp add: managed_env_def)
  from found_is_ours [OF this, of infra'] show ?thesis by (simp add: cluster_status_def)
qed

lemma handed_on_status:
  assumes "managed_env env st infra d found cfg" and "wf_result r"
    and "CheckClusterStatus r (getCheckAPIDependency env infra') = Returned (s, r')"
  shows "CheckStatus r' = CheckStatus r"
proof -
  have "\<not> driver_unknown (getCheckAPIDependency env infra')"
    using assms(1) found_is_ours(2) by (auto simp: managed_env_def)
  then show ?thesis
    using assms(3)
    by (auto simp: CheckClusterStatus_def driver_unknown_def check_simps Let_def
        split: CheckAction.splits sum.splits if_splits option.splits)
qed

text \<open>The result is handed on as it is, unless OpenShift's driver makes it a degrading one.\<close>

lemma handed_on_same:
  assumes "managed_env env st infra d found cfg"
    and "CheckClusterStatus r (getCheckAPIDependency env infra') = Returned (s, r')"
  shows "Action r \<notin> {CheckActionBlockUpgradeOrDegrade} \<or> \<not> found \<longrightarrow> r' = r"
proof -
  have f: "driverAlreadyStarted (env_csiDrivers env) = Inr found"
    using assms(1) by (simp add: managed_env_def)
  from found_is_ours [OF this, of infra'] show ?thesis
    using assms(2)
    by (auto simp: CheckClusterStatus_def driver_unknown_def driver_is_ours_def Let_def
        split: CheckAction.splits sum.splits if_splits)
qed

subsection \<open>A vCenter that cannot be reached\<close>

lemma note_connection_same:
  "name (note_connection env r st w) = name w"
  "operandControllerStarted (note_connection env r st w) = operandControllerStarted w"
  "w_status (note_connection env r st w) = w_status w"
  "w_secrets (note_connection env r st w) = w_secrets w"
  "w_sc_calls (note_connection env r st w) = w_sc_calls w"
  "w_timers (note_connection env r st w) = w_timers w"
  "w_vcenter (note_connection env r st w) = w_vcenter w"
  "vSphereConnections (note_connection env r st w) = vSphereConnections w"
  "featureGates (note_connection env r st w) = featureGates w"
  "cloudConfig (note_connection env r st w) = cloudConfig w"
  "storageClassController (note_connection env r st w) = storageClassController w"
  "vCenterConnectionStatus (note_connection env r st w) = (CheckError r = None)"
  "CheckError r \<noteq> None \<Longrightarrow> vSphereChecker (note_connection env r st w) = vSphereChecker w"
  by (auto simp: note_connection_def Let_def)

lemma block_returns:
  assumes "wf_result r"
  obtains e b u w' where "blockUpgradeOrDegradeCluster env r infra st w = Returned ((e, b, u), w')"
proof -
  obtain s r' where "CheckClusterStatus r (getCheckAPIDependency env infra) = Returned (s, r')"
    using CheckClusterStatus_status [OF assms] by blast
  then obtain res w' where b: "blockUpgradeOrDegradeCluster env r infra st w = Returned (res, w')"
    by (simp add: blockUpgradeOrDegradeCluster_def) (metis surj_pair)
  obtain e b u where "res = (e, b, u)" by (cases res)
  with that b show thesis by simp
qed

lemma update_distinct:
  assumes "quiet_env env" and "distinct_types (w_status w)"
    and "controller_updateConditions env r st up b w = (e, w')"
  shows "distinct_types (w_status w')"
  using assms updateConditions_funcs_distinct
  by (auto simp: controller_updateConditions_def write_status_def quiet_env_def Let_def
      updateConditions_simps UpdateStatus_quiet)

lemma block_distinct:
  assumes "quiet_env env" and "distinct_types (w_status w)"
    and "blockUpgradeOrDegradeCluster env r infra st w = Returned (res, w')"
  shows "distinct_types (w_status w')"
proof -
  have same: "w_status (set_install_error r' c w) = w_status w"
    "w_status (set_install_error r' c (set_install_error r' c' w)) = w_status w" for r' c c'
    by (simp_all add: set_install_error_def)
  have upd: "distinct_types (w_status x')"
    if "controller_updateConditions env r' st up b x = (e, x')" "w_status x = w_status w"
    for r' up b x e x'
    using update_distinct [OF assms(1) _ that(1)] that(2) assms(2) by simp
  obtain s r' where c: "CheckClusterStatus r (getCheckAPIDependency env infra) = Returned (s, r')"
    using assms(3) by (auto simp: blockUpgradeOrDegradeCluster_def elim!: obind_ReturnedE)
  show ?thesis
    using assms(2,3) c
    by (cases s) (auto simp: blockUpgradeOrDegradeCluster_def split: prod.splits
        dest: upd [OF _ same(1)] upd [OF _ same(2)])
qed

lemma failed_login_sync:
  assumes "quiet_env env" and "managed_env env st infra d found cfg" and "vSphereConnections w = []"
    and "logs_in env infra d found cfg w conn w4" and "CheckError conn \<noteq> None"
  shows "\<exists>w' r. controller_sync env w = Returned (None, w')
     \<and> w_secrets w' = w_secrets w \<and> w_sc_calls w' = w_sc_calls w
     \<and> w_vcenter w' = w_vcenter w \<and> vSphereChecker w' = vSphereChecker w \<and> w_timers w' = w_timers w
     \<and> \<not> vCenterConnectionStatus w' \<and> vSphereConnections w' = [] \<and> name w' = name w
     \<and> (distinct_types (w_status w) \<longrightarrow> distinct_types (w_status w'))
     \<and> (operandControllerStarted w' \<longleftrightarrow> found \<or> operandControllerStarted w)
     \<and> CheckStatus r = CheckStatus conn \<and> (\<forall>t. reads w' t =
          says (name w) (found \<or> operandControllerStarted w)
            (if Action conn = CheckActionDegrade \<or> found then ClusterCheckDegrade
             else ClusterCheckUpgradeStateUnknown) r (reads w) t)
     \<and> (\<exists>w1. installCSIDriver env (full_infra cfg infra) d conn st (note_connection env conn st w4) =
            Returned ((True, None), w1))"
proof -
  let ?infra = "full_infra cfg infra"
  let ?api = "getCheckAPIDependency env ?infra"
  obtain conns where wf: "wf_result conn"
    and act: "Action conn = CheckActionDegrade \<or> Action conn = CheckActionBlockUpgradeOrDegrade
             \<and> CheckStatus conn = CheckStatusVSphereConnectionFailed"
    and w4: "name w4 = name w" "operandControllerStarted w4 \<longleftrightarrow> found \<or> operandControllerStarted w"
      "w_status w4 = w_status w" "w_secrets w4 = w_secrets w" "w_sc_calls w4 = w_sc_calls w"
      "vSphereChecker w4 = vSphereChecker w" "w_timers w4 = w_timers w" "w_vcenter w4 = w_vcenter w"
    using logs_in_world [OF assms(4,3)] assms(5) by metis
  let ?st = "if Action conn = CheckActionDegrade \<or> found then ClusterCheckDegrade
             else ClusterCheckUpgradeStateUnknown"
  have st: "cluster_status ?api conn = ?st"
    using act by (auto simp: cluster_status_managed [OF assms(2)])
  have nopass: "Action conn \<noteq> CheckActionPass" using act by auto
  let ?w = "note_connection env conn st w4"
  obtain e block cb w5 where b: "blockUpgradeOrDegradeCluster env conn ?infra st ?w = Returned ((e, block, cb), w5)"
    using block_returns [OF wf] .
  obtain r' where v: "CheckClusterStatus conn ?api = Returned (cluster_status ?api conn, r')" "e = None"
    "block = blocks_install (cluster_status ?api conn)"
    "\<forall>t. reads w5 t = says (name ?w) (operandControllerStarted ?w) (cluster_status ?api conn) r' (reads ?w) t"
    using block_verdict [OF assms(1) wf b] nopass by metis
  have block by (simp add: v(3) st)
  with b v(2) have install: "installCSIDriver env ?infra d conn st ?w = Returned ((True, None), w5)"
    by (simp add: installCSIDriver_def)
  then have "sync_connected env ?infra d conn st w4 = Returned (None, w5)"
    by (simp add: sync_connected_def)
  then have run: "controller_sync env w = Returned (None, deferred_logout env w5)"
    using managed_sync_eq [OF assms(2)] assms(4) by (simp add: logs_in_def)
  have "CheckStatus r' = CheckStatus conn" by (rule handed_on_status [OF assms(2) wf v(1)])
  moreover have "reported ?w w5" by (rule block_reported [OF b])
  moreover have "distinct_types (w_status w) \<longrightarrow> distinct_types (w_status w5)"
    using block_distinct [OF assms(1) _ b] w4(3) by (simp add: note_connection_same)
  ultimately show ?thesis
    using v(4) w4 assms(5) st run install
    by (intro exI [of _ "deferred_logout env w5"] exI [of _ r'])
      (auto simp: deferred_logout_def reported_def note_connection_same)
qed

text \<open>
  C6: a login that fails. The sync returns without an error, but installs nothing: no Secret, no
  storage class, no policy, no environment check and no timer, and it notes that the connection is
  down. The conditions report it: degraded when OpenShift's API was at fault or its own driver is
  already installed, otherwise an unknown upgrade status, with the failure as the reason, and the
  operator is disabled exactly when the driver was never started.
\<close>
theorem unreachable_vcenter_reported:
  assumes "quiet_env env" and "managed_env env st infra d found cfg" and "vSphereConnections w = []"
    and "logs_in env infra d found cfg w conn w4" and "CheckError conn \<noteq> None"
  shows "\<exists>w'. controller_sync env w = Returned (None, w')
     \<and> w_secrets w' = w_secrets w \<and> w_sc_calls w' = w_sc_calls w
     \<and> w_vcenter w' = w_vcenter w \<and> vSphereChecker w' = vSphereChecker w \<and> w_timers w' = w_timers w
     \<and> \<not> vCenterConnectionStatus w'
     \<and> (operandControllerStarted w' \<longleftrightarrow> found \<or> operandControllerStarted w)
     \<and> (\<exists>r. CheckStatus r = CheckStatus conn \<and> (\<forall>t. reads w' t =
          says (name w) (found \<or> operandControllerStarted w)
            (if Action conn = CheckActionDegrade \<or> found then ClusterCheckDegrade
             else ClusterCheckUpgradeStateUnknown) r (reads w) t))"
  using failed_login_sync [OF assms] by blast

subsection \<open>A login that succeeds\<close>

lemma block_pass:
  assumes "wf_result r" and "CheckError r = None"
  shows "blockUpgradeOrDegradeCluster env r infra st w = Returned ((None, False, False), w)"
  using wf_result_error_iff [OF assms(1)] assms(2)
  by (simp add: blockUpgradeOrDegradeCluster_def CheckClusterStatus_def)

lemma connected_install_cases:
  assumes "wf_result conn" and "CheckError conn = None"
    and "installCSIDriver env infra d conn st w = Returned ((block, err), w')"
  obtains
    (no_secret) "write_secret env infra d w = Returned (err, w')" and "err \<noteq> None" and "\<not> block"
  | (no_check) "write_secret env infra d w = Returned (None, w')"
      and "\<not> nextCheck (vSphereChecker w') < env_now_guard env" and "err = None" and "\<not> block"
  | (checked) w2 nd rs v where "write_secret env infra d w = Returned (None, w2)"
      and "env_checks env (check_args env infra w2) = Returned rs"
      and "nextCheck (vSphereChecker w2) < env_now_guard env"
      and "after_checks env infra st False nd (judged rs) (w2\<lparr>vSphereChecker := v\<rparr>) = Returned ((block, err), w')"
      and "runClusterCheck env infra w2 = Returned ((nd, judged rs, True), w2\<lparr>vSphereChecker := v\<rparr>)"
  using assms(3)
proof (cases rule: installCSIDriver_cases)
  case (stopped cb)
  then show thesis by (simp add: block_pass [OF assms(1,2)])
next
  case no_secret': (no_secret cb w1)
  then show thesis using no_secret by (simp add: block_pass [OF assms(1,2)])
next
  case no_check': (no_check cb w1 w2 nd r)
  then have "w1 = w" by (simp add: block_pass [OF assms(1,2)])
  with no_check' skipped_check [OF no_check'(3)] show thesis using no_check by simp
next
  case checked': (checked cb w1 w2 nd r w3)
  then have 1: "w1 = w" "cb = False" by (simp_all add: block_pass [OF assms(1,2)])
  obtain rs where rs: "env_checks env (check_args env infra w2) = Returned rs" "r = judged rs"
    "nextCheck (vSphereChecker w2) < env_now_guard env" "w3 = w2\<lparr>vSphereChecker := vSphereChecker w3\<rparr>"
    using ran_check [OF checked'(3)] .
  show thesis
    by (rule checked [of w2 rs nd "vSphereChecker w3"])
      (use checked' 1 rs in \<open>simp_all flip: rs(4)\<close>)
qed

lemma write_secret_same:
  assumes "write_secret env infra d w = Returned (e, w')"
  shows "name w' = name w" "operandControllerStarted w' = operandControllerStarted w"
    "w_status w' = w_status w" "w_sc_calls w' = w_sc_calls w" "w_timers w' = w_timers w"
    "vSphereConnections w' = vSphereConnections w" "featureGates w' = featureGates w"
    "vSphereChecker w' = vSphereChecker w" "w_events w' = w_events w" "w_vcenter w' = w_vcenter w"
    "check_args env infra w' = check_args env infra w"
  using assms by (auto simp: write_secret_def obind_Returned check_args_def split: option.splits)

lemma after_checks_log:
  assumes "after_checks env infra st cb d r w = Returned ((block, err), w')"
  shows "w_timers w' = w_timers w @ [d] \<and> w_sc_calls w' = w_sc_calls w \<and> w_secrets w' = w_secrets w
     \<and> vSphereChecker w' = vSphereChecker w"
  using assms
proof (cases rule: after_checks_cases)
  case (stopped u)
  from block_reported [OF this(1)] show ?thesis by (simp add: reported_def)
next
  case (running u w1 w2 w3)
  from block_reported [OF this(1)] updateConditions_reported [OF this(5)] show ?thesis
    by (auto simp: reported_def running(3,4) start_operand_def split: if_splits)
qed

text \<open>The storage class controller owns two conditions and touches no other.\<close>

definition sc_types :: "string list" where
  "sc_types = [storageClassControllerName @ ''Available'', storageClassControllerName @ ''Degraded'']"

lemma own_types_not_sc:
  "nm @ ''Upgradeable'' \<notin> set sc_types" "nm @ ''Disabled'' \<notin> set sc_types"
proof -
  have 1: "(nm @ ''Up'') @ ''gradeable'' \<noteq> storageClassControllerName @ ''Available''"
    "(nm @ ''Upg'') @ ''radeable'' \<noteq> storageClassControllerName @ ''Degraded''"
    "nm @ ''Disabled'' \<noteq> (storageClassControllerName @ ''A'') @ ''vailable''"
    "nm @ ''Disabled'' \<noteq> storageClassControllerName @ ''Degraded''"
    by (rule last_chars_differ; simp)+
  then show "nm @ ''Upgradeable'' \<notin> set sc_types" "nm @ ''Disabled'' \<notin> set sc_types"
    by (simp_all add: sc_types_def)
qed

lemma degraded_not_sc: "''VMwareVSphereOperatorCheckDegraded'' \<notin> set sc_types"
  by (simp add: sc_types_def storageClassControllerName_def)

lemma sc_funcs_reads:
  assumes "t \<notin> set sc_types"
  shows "map_option said (lookup_condition
      (apply_all (sc_update_funcs now storageClassControllerName r st) cs) t) =
    map_option said (lookup_condition cs t)"
proof -
  have "t \<noteq> cnd_Type (fst (sc_conditions storageClassControllerName r st))"
    "t \<noteq> cnd_Type (snd (sc_conditions storageClassControllerName r st))"
    using assms
    by (auto simp: sc_types_def sc_conditions_def OperatorStatusTypeAvailable_def
        OperatorStatusTypeDegraded_def)
  then show ?thesis
    by (simp add: sc_update_funcs_def apply_all_def lookup_Set case_prod_beta Let_def)
qed

lemma sc_sync_quiet:
  assumes "quiet_env env" and "syncStorageClassController env infra w = Returned (e, w')"
  shows "e = None" "operandControllerStarted w' = operandControllerStarted w"
    "w_timers w' = w_timers w" "t \<notin> set sc_types \<Longrightarrow> reads w' t = reads w t"
    "vSphereChecker w' = vSphereChecker w" "w_secrets w' = w_secrets w"
proof -
  obtain u and r :: sc_sync and c1 s1 w1 m where
    y: "Sync ((env_sc env)\<lparr>env_infra := infra, env_driver := env_drivers env\<rparr>) (env_now_status env)
       storageClassControllerName (env_attempt env (w_updates w) (w_status w))
       (vSphereConnections w) (storageClassController w) (w_vcenter w) = Returned (u, r, c1, s1)"
    and s: "write_status env (\<lambda>att. u) w = (e, w1)"
    and w': "w' = w1\<lparr>storageClassController := c1, w_vcenter := s1,
           w_sc_calls := w_sc_calls w1 @ sync_calls r, w_metrics := m\<rparr>"
    by (rule syncStorageClassController_cases [OF assms(2)])
  let ?fs = "sc_update_funcs (env_now_status env) storageClassControllerName (sync_result r) (sync_status r)"
  have "u = sc_updateConditions (env_now_status env) storageClassControllerName (sync_result r)
      (sync_status r) (quiet (w_status w))"
    using y assms(1) by (auto simp: Sync_def quiet_env_def elim!: obind_ReturnedE split: prod.splits)
  then have u: "upd_error u = None"
    "upd_written u = (if apply_all ?fs (w_status w) = w_status w then None else Some (apply_all ?fs (w_status w)))"
    by (simp_all add: sc_updateConditions_def UpdateStatus_quiet)
  show "e = None" using s u(1) by (auto simp: write_status_def Let_def)
  have "w_status w' = apply_all ?fs (w_status w)"
    using s u(2) by (auto simp: w' write_status_def Let_def)
  then show "t \<notin> set sc_types \<Longrightarrow> reads w' t = reads w t" by (simp add: sc_funcs_reads)
  show "operandControllerStarted w' = operandControllerStarted w" "w_timers w' = w_timers w"
    "vSphereChecker w' = vSphereChecker w" "w_secrets w' = w_secrets w"
    using write_status_reported [OF s] by (simp_all add: w' reported_def)
qed

text \<open>The part of a sync up to the storage class, and what is left of it afterwards.\<close>

lemma connected_sync:
  assumes "managed_env env st infra d found cfg" and "logs_in env infra d found cfg w conn w4"
    and "controller_sync env w = Returned (err, w')"
  obtains block ierr w1 w5 where
    "installCSIDriver env (full_infra cfg infra) d conn st (note_connection env conn st w4) =
       Returned ((block, ierr), w1)"
    and "w' = deferred_logout env w5"
    and "w5 = w1 \<and> err = ierr \<and> (err \<noteq> None \<or> block \<or> \<not> operandControllerStarted w1)
       \<or> \<not> block \<and> ierr = None \<and> operandControllerStarted w1
         \<and> syncStorageClassController env (full_infra cfg infra) w1 = Returned (err, w5)"
proof -
  obtain w5 where s: "sync_connected env (full_infra cfg infra) d conn st w4 = Returned (err, w5)"
    and w': "w' = deferred_logout env w5"
    using managed_sync [OF assms(1,3)] assms(2) by (metis logs_in_def outcome.inject(1) prod.inject)
  from s show thesis
  proof (cases rule: sync_connected_cases)
    case (stopped block)
    show thesis by (rule that [OF stopped(1) w']) (use stopped(2) in auto)
  next
    case (storage w1)
    show thesis by (rule that [OF storage(1) w']) (use storage(2,3) in auto)
  qed
qed

lemma after_install_quiet:
  assumes "quiet_env env" and "w' = deferred_logout env w5"
    and "w5 = w1 \<and> err = ierr \<and> (err \<noteq> None \<or> block \<or> \<not> operandControllerStarted w1)
       \<or> \<not> block \<and> ierr = None \<and> operandControllerStarted w1
         \<and> syncStorageClassController env infra w1 = Returned (err, w5)"
  shows "err = ierr" "operandControllerStarted w' = operandControllerStarted w1" "w_timers w' = w_timers w1"
    "t \<notin> set sc_types \<Longrightarrow> reads w' t = reads w1 t" "vSphereChecker w' = vSphereChecker w1"
    "w_secrets w' = w_secrets w1" "block \<Longrightarrow> w_sc_calls w' = w_sc_calls w1"
  using assms(2,3) sc_sync_quiet [OF assms(1), of infra w1 err w5] by (auto simp: deferred_logout_def)

text \<open>What a sync whose checks run leaves, and what the installation in it returned.\<close>

lemma checked_install:
  assumes "quiet_env env" and "lawful_checks env" and "managed_env env st infra d found cfg"
    and "vSphereConnections w = []" and "logs_in env infra d found cfg w conn w4"
    and "CheckError conn = None" and "controller_sync env w = Returned (err, w')"
    and "w_timers w' \<noteq> w_timers w"
  shows "\<exists>rs r nextDelay. env_checks env (check_args env (full_infra cfg infra) w4) = Returned rs
     \<and> err = None \<and> w_timers w' = w_timers w @ [nextDelay] \<and> CheckStatus r = CheckStatus (judged rs)
     \<and> (Action (judged rs) \<notin> {CheckActionBlockUpgradeOrDegrade} \<or> \<not> found \<longrightarrow> r = judged rs)
     \<and> (let verdict = cluster_status (getCheckAPIDependency env (full_infra cfg infra)) (judged rs)
        in (operandControllerStarted w' \<longleftrightarrow>
              found \<or> operandControllerStarted w \<or> \<not> blocks_install verdict)
         \<and> (blocks_install verdict \<longrightarrow> w_sc_calls w' = w_sc_calls w)
         \<and> (\<forall>t. t \<notin> set sc_types \<longrightarrow>
              reads w' t = says (name w) (operandControllerStarted w') verdict r (reads w) t)
         \<and> (\<exists>w1. installCSIDriver env (full_infra cfg infra) d conn st (note_connection env conn st w4) =
                Returned ((blocks_install verdict, None), w1)
              \<and> (operandControllerStarted w1 \<longleftrightarrow> operandControllerStarted w')))"
proof -
  let ?infra = "full_infra cfg infra"
  let ?api = "getCheckAPIDependency env ?infra"
  let ?w = "note_connection env conn st w4"
  obtain block ierr w1 w5 where i: "installCSIDriver env ?infra d conn st ?w = Returned ((block, ierr), w1)"
    and rest: "w' = deferred_logout env w5"
      "w5 = w1 \<and> err = ierr \<and> (err \<noteq> None \<or> block \<or> \<not> operandControllerStarted w1)
       \<or> \<not> block \<and> ierr = None \<and> operandControllerStarted w1
         \<and> syncStorageClassController env ?infra w1 = Returned (err, w5)"
    using connected_sync [OF assms(3,5,7)] .
  note q = after_install_quiet [OF assms(1) rest]
  obtain conns where wf: "wf_result conn"
    and w4: "name w4 = name w" "operandControllerStarted w4 \<longleftrightarrow> found \<or> operandControllerStarted w"
      "w_status w4 = w_status w" "w_sc_calls w4 = w_sc_calls w" "w_timers w4 = w_timers w"
    using logs_in_world [OF assms(5,4)] by metis
  from wf assms(6) i show ?thesis
  proof (cases rule: connected_install_cases)
    case no_secret
    then show ?thesis
      using q(3) write_secret_same(5) w4(5) note_connection_same(6) assms(8) by metis
  next
    case no_check
    then show ?thesis
      using q(3) write_secret_same(5) w4(5) note_connection_same(6) assms(8) by metis
  next
    case (checked w2 nd rs v)
    let ?w2 = "w2\<lparr>vSphereChecker := v\<rparr>"
    note sec = write_secret_same [OF checked(1)]
    have args: "env_checks env (check_args env ?infra w4) = Returned rs"
      using checked(2) sec(11) by (simp add: check_args_def note_connection_same)
    have wfr: "wf_result (judged rs)" by (rule checks_wf [OF assms(2) checked(2)])
    obtain r' where v: "CheckClusterStatus (judged rs) ?api = Returned (cluster_status ?api (judged rs), r')"
      "ierr = None" "block = blocks_install (cluster_status ?api (judged rs))"
      "operandControllerStarted w1 \<longleftrightarrow> operandControllerStarted ?w2 \<or> \<not> block"
      "\<forall>t. reads w1 t = says (name ?w2) (operandControllerStarted w1)
         (cluster_status ?api (judged rs)) r' (reads ?w2) t"
      using after_checks_verdict [OF assms(1) wfr checked(4)] by metis
    have timers: "w_timers w1 = w_timers w @ [nd] \<and> (block \<longrightarrow> w_sc_calls w1 = w_sc_calls w)"
      using after_checks_log [OF checked(4)] sec w4 by (simp add: note_connection_same)
    have "CheckStatus r' = CheckStatus (judged rs)" by (rule handed_on_status [OF assms(3) wfr v(1)])
    moreover have "Action (judged rs) \<notin> {CheckActionBlockUpgradeOrDegrade} \<or> \<not> found \<longrightarrow> r' = judged rs"
      by (rule handed_on_same [OF assms(3) v(1)])
    moreover have "name ?w2 = name w" "reads ?w2 = reads w"
      "operandControllerStarted ?w2 \<longleftrightarrow> found \<or> operandControllerStarted w"
      using sec w4 by (simp_all add: note_connection_same)
    moreover have "installCSIDriver env ?infra d conn st ?w =
        Returned ((blocks_install (cluster_status ?api (judged rs)), None), w1)"
      using i v(2,3) by simp
    ultimately show ?thesis
      using args v q timers
      by (intro exI [of _ rs] exI [of _ r'] exI [of _ nd]) (simp add: Let_def)
  qed
qed

lemma checked_sync:
  assumes "quiet_env env" and "lawful_checks env" and "managed_env env st infra d found cfg"
    and "vSphereConnections w = []" and "logs_in env infra d found cfg w conn w4"
    and "CheckError conn = None" and "controller_sync env w = Returned (err, w')"
    and "w_timers w' \<noteq> w_timers w"
  shows "\<exists>rs r nextDelay. env_checks env (check_args env (full_infra cfg infra) w4) = Returned rs
     \<and> err = None \<and> w_timers w' = w_timers w @ [nextDelay] \<and> CheckStatus r = CheckStatus (judged rs)
     \<and> (Action (judged rs) \<notin> {CheckActionBlockUpgradeOrDegrade} \<or> \<not> found \<longrightarrow> r = judged rs)
     \<and> (let verdict = cluster_status (getCheckAPIDependency env (full_infra cfg infra)) (judged rs)
        in (operandControllerStarted w' \<longleftrightarrow>
              found \<or> operandControllerStarted w \<or> \<not> blocks_install verdict)
         \<and> (blocks_install verdict \<longrightarrow> w_sc_calls w' = w_sc_calls w)
         \<and> (\<forall>t. t \<notin> set sc_types \<longrightarrow>
              reads w' t = says (name w) (operandControllerStarted w') verdict r (reads w) t))"
  using checked_install [OF assms] unfolding Let_def by blast

text \<open>
  C2: a sync whose checks run reports their verdict. The most severe result is judged by the cluster
  status; the conditions say exactly that verdict (the two of the storage class controller aside),
  the driver is running afterwards exactly when it was running, is found in the cluster, or the
  verdict does not block its installation, a blocked installation leaves the storage class alone,
  and one timer is set for the next check.
\<close>
theorem checked_sync_verdict:
  assumes "quiet_env env" and "lawful_checks env" and "managed_env env st infra d found cfg"
    and "vSphereConnections w = []" and "logs_in env infra d found cfg w conn w4"
    and "CheckError conn = None" and "controller_sync env w = Returned (err, w')"
    and "w_timers w' \<noteq> w_timers w"
  shows "\<exists>rs r nextDelay. env_checks env (check_args env (full_infra cfg infra) w4) = Returned rs
     \<and> err = None \<and> w_timers w' = w_timers w @ [nextDelay] \<and> CheckStatus r = CheckStatus (judged rs)
     \<and> (let verdict = cluster_status (getCheckAPIDependency env (full_infra cfg infra)) (judged rs)
        in (operandControllerStarted w' \<longleftrightarrow>
              found \<or> operandControllerStarted w \<or> \<not> blocks_install verdict)
         \<and> (blocks_install verdict \<longrightarrow> w_sc_calls w' = w_sc_calls w)
         \<and> (\<forall>t. t \<notin> set sc_types \<longrightarrow>
              reads w' t = says (name w) (operandControllerStarted w') verdict r (reads w) t))"
  using checked_sync [OF assms] by metis

text \<open>
  C16: an existing foreign driver does not always block the installation. The action that blocks it
  ranks below "block upgrade or degrade", so when another check fails with that action (an outdated
  vCenter, say) and nothing worse is found, only a result of that action is judged, never the foreign
  driver's: the conditions say that upgrades are blocked and give that result's status and reason,
  nothing is degraded, but OpenShift's driver is started beside the foreign one and the operator is
  not marked as disabled.
\<close>
theorem foreign_driver_masked:
  assumes "quiet_env env" and "lawful_checks env" and "managed_env env st infra d False cfg"
    and "vSphereConnections w = []" and "logs_in env infra d False cfg w conn w4"
    and "CheckError conn = None" and "controller_sync env w = Returned (err, w')"
    and "w_timers w' \<noteq> w_timers w"
    and "env_checks env (check_args env (full_infra cfg infra) w4) = Returned rs"
    and "makeFoundExistingDriverResult e \<in> set rs"
    and "masking \<in> set rs" and "Action masking = CheckActionBlockUpgradeOrDegrade"
    and "\<forall>r \<in> set rs. Action r \<noteq> CheckActionDegrade \<and> CheckStatus r \<noteq> CheckStatusVSphereConnectionFailed"
  shows "operandControllerStarted w'
     \<and> (\<exists>r \<in> set rs. Action r = CheckActionBlockUpgradeOrDegrade \<and> judged rs = r
        \<and> r \<noteq> makeFoundExistingDriverResult e
        \<and> reads w' (name w @ ''Upgradeable'') = Some (ConditionFalse, status_string (CheckStatus r), Reason r))
     \<and> reads w' (name w @ ''Disabled'') = None
     \<and> reads w' ''VMwareVSphereOperatorCheckDegraded'' = Some (ConditionFalse, [], [])"
proof -
  let ?api = "getCheckAPIDependency env (full_infra cfg infra)" and ?r = "overall_result rs"
  have act: "Action ?r = CheckActionBlockUpgradeOrDegrade" and mem: "?r \<in> set rs"
    using overall_result_masked [OF assms(11,12)] assms(13) by blast+
  have j: "judged rs = ?r" using act by (simp add: judged_def)
  have v: "cluster_status ?api ?r = ClusterCheckBlockUpgrade"
    unfolding cluster_status_managed [OF assms(3)] using act assms(13) mem by simp
  have other: "?r \<noteq> makeFoundExistingDriverResult e"
    using act by (auto simp: makeFoundExistingDriverResult_def)
  show ?thesis
    using checked_sync [OF assms(1-8)] assms(9) v other act mem j own_types_not_sc [of "name w"]
      degraded_not_sc condition_types_distinct [of "name w"]
    by (auto simp: Let_def says_def simp del: map_option_eq_Some)
qed

subsection \<open>When the driver is started\<close>

lemma sc_sync_started:
  assumes "syncStorageClassController env infra w = Returned (e, w')"
  shows "operandControllerStarted w' = operandControllerStarted w"
proof -
  obtain u and r :: sc_sync and c1 s1 w1 m where s: "write_status env (\<lambda>att. u) w = (e, w1)"
    and w': "w' = w1\<lparr>storageClassController := c1, w_vcenter := s1,
           w_sc_calls := w_sc_calls w1 @ sync_calls r, w_metrics := m\<rparr>"
    using assms by (rule syncStorageClassController_cases)
  from write_status_reported [OF s] show ?thesis by (simp add: w' reported_def)
qed

lemma after_checks_started:
  assumes "wf_result r" and "after_checks env infra st cb d r w = Returned ((block, err), w')"
    and "\<not> operandControllerStarted w" and "operandControllerStarted w'"
  shows "\<not> blocks_install (cluster_status (getCheckAPIDependency env infra) r)"
  using assms(2)
proof (cases rule: after_checks_cases)
  case (stopped u)
  from block_reported [OF this(1)] assms(3,4) show ?thesis by (simp add: reported_def)
next
  case (running u w1 w2 w3)
  obtain r' where "CheckClusterStatus r (getCheckAPIDependency env infra) =
      Returned (cluster_status (getCheckAPIDependency env infra) r, r')"
    using CheckClusterStatus_status [OF assms(1)] by blast
  from block_steps(1) [OF this running(1)] show ?thesis by simp
qed

lemma install_started:
  assumes "lawful_checks env" and "wf_result conn"
    and "CheckError conn \<noteq> None \<longrightarrow> blocks_install (cluster_status (getCheckAPIDependency env infra) conn)"
    and "installCSIDriver env infra d conn st w = Returned ((block, err), w')"
    and "\<not> operandControllerStarted w" and "operandControllerStarted w'"
  shows "CheckError conn = None \<and> (\<exists>rs nd. env_checks env (check_args env infra w) = Returned rs
     \<and> nextCheck (vSphereChecker w) < env_now_guard env
     \<and> Check (env_now_guard env) (env_now_check env) (env_extra env) rs (vSphereChecker w) =
         ((nd, judged rs, True), vSphereChecker w')
     \<and> w_timers w' = w_timers w @ [nd]
     \<and> \<not> blocks_install (cluster_status (getCheckAPIDependency env infra) (judged rs)))"
proof (cases "CheckError conn = None")
  case True
  from assms(2) True assms(4) show ?thesis
  proof (cases rule: connected_install_cases)
    case no_secret
    with write_secret_same(2) assms(5,6) show ?thesis by metis
  next
    case no_check
    with write_secret_same(2) assms(5,6) show ?thesis by metis
  next
    case (checked w2 nd rs v)
    note sec = write_secret_same [OF checked(1)]
    have "\<not> operandControllerStarted (w2\<lparr>vSphereChecker := v\<rparr>)" using sec(2) assms(5) by simp
    from after_checks_started [OF checks_wf [OF assms(1) checked(2)] checked(4) this assms(6)]
      after_checks_log [OF checked(4)]
    have "vSphereChecker w' = v" "w_timers w' = w_timers w @ [nd]"
      "\<not> blocks_install (cluster_status (getCheckAPIDependency env infra) (judged rs))"
      by (simp_all add: sec(5))
    moreover have "Check (env_now_guard env) (env_now_check env) (env_extra env) rs (vSphereChecker w2) =
        ((nd, judged rs, True), v)"
      by (rule runClusterCheck_cases [OF checked(5)]) (use checked(2) in \<open>auto simp: check_args_def dest: arg_cong [where f = vSphereChecker]\<close>)
    ultimately show ?thesis using True checked(2,3) sec(8,11) by auto
  qed
next
  case False
  obtain r' where c: "CheckClusterStatus conn (getCheckAPIDependency env infra) =
      Returned (cluster_status (getCheckAPIDependency env infra) conn, r')"
    using CheckClusterStatus_status [OF assms(2)] by blast
  have blocks: "blocks_install (cluster_status (getCheckAPIDependency env infra) conn)"
    using False assms(3) by simp
  from assms(4) show ?thesis
  proof (cases rule: installCSIDriver_cases)
    case (stopped cb)
    from block_reported [OF this(1)] assms(5,6) show ?thesis by (simp add: reported_def)
  qed (use block_steps(1) [OF c] blocks in blast)+
qed

text \<open>
  What the sync from \<open>w\<close> to \<open>w'\<close> did when it starts the driver because of a verdict. It opened and
  closed the sessions of one connection to every vCenter, and noted that it is connected. The checks
  were due, after the reset that a vCenter that came back brings, ran on just these connections, and
  set the next timer; what they returned does not block the installation.
\<close>

definition due_checker :: "'s Env \<Rightarrow> conditions \<Rightarrow> 's World \<Rightarrow> EnvChecker" where
  "due_checker env st w =
     (if hasErrorConditions st \<and> \<not> vCenterConnectionStatus w
      then ResetExpBackoff (env_now_reset env) (vSphereChecker w) else vSphereChecker w)"

definition passing_checks ::
  "'s Env \<Rightarrow> conditions \<Rightarrow> VSphereConfig \<Rightarrow> Infrastructure \<Rightarrow> 's World \<Rightarrow> 's World \<Rightarrow> bool" where
  "passing_checks env st cfg infra w w' \<longleftrightarrow>
     (\<exists>conns rs nextDelay. logged_in_everywhere cfg infra conns
        \<and> w_sessions w' = logout_all (env_svc env) conns (w_sessions w @ concat (map held conns))
        \<and> vCenterConnectionStatus w'
        \<and> nextCheck (due_checker env st w) < env_now_guard env
        \<and> env_checks env \<lparr>vmConnection = conns, apiClient = getCheckAPIDependency env infra,
            featureGate = featureGates w\<rparr> = Returned rs
        \<and> Check (env_now_guard env) (env_now_check env) (env_extra env) rs (due_checker env st w) =
            ((nextDelay, judged rs, True), vSphereChecker w')
        \<and> w_timers w' = w_timers w @ [nextDelay]
        \<and> \<not> blocks_install (cluster_status (getCheckAPIDependency env infra) (judged rs)))"

lemma login_connects:
  assumes "login env cfg infra w = Returned (conn, w4)" and "vSphereConnections w = []"
    and "CheckError conn = None"
  shows "logged_in_everywhere cfg infra (vSphereConnections w4)
     \<and> w_sessions w4 = w_sessions w @ concat (map held (vSphereConnections w4))"
proof -
  obtain conns log where l: "loginToVCenter (env_svc env) (env_secrets env) (targetNamespace w) cfg infra
      [] (w_sessions w) = Returned (conn, conns, log)"
    and w4: "w4 = w\<lparr>vSphereConnections := conns, w_sessions := log\<rparr>"
    using assms(1,2) by (auto simp: login_def obind_Returned)
  from loginToVCenter_connects [OF l assms(3)] loginToVCenter_held [OF l] show ?thesis by (simp add: w4)
qed

lemma after_install_kept:
  assumes "sync_connected env infra d conn st w = Returned (err, w')"
  obtains block e w1 where "installCSIDriver env infra d conn st (note_connection env conn st w) = Returned ((block, e), w1)"
    and "operandControllerStarted w' = operandControllerStarted w1" and "w_timers w' = w_timers w1"
    and "vSphereChecker w' = vSphereChecker w1" and "vCenterConnectionStatus w' = vCenterConnectionStatus w1"
  using assms
proof (cases rule: sync_connected_cases)
  case (stopped block)
  with that show thesis by blast
next
  case (storage w1)
  obtain u and r :: sc_sync and c1 s1 w2 m where s: "write_status env (\<lambda>att. u) w1 = (err, w2)"
    and w': "w' = w2\<lparr>storageClassController := c1, w_vcenter := s1,
           w_sc_calls := w_sc_calls w2 @ sync_calls r, w_metrics := m\<rparr>"
    using storage(3) by (rule syncStorageClassController_cases)
  from that [OF storage(1)] write_status_reported [OF s] show thesis by (simp add: w' reported_def)
qed

lemma install_keeps_connection_status:
  assumes "installCSIDriver env infra d conn st w = Returned ((block, err), w')"
  shows "vCenterConnectionStatus w' = vCenterConnectionStatus w"
proof -
  have b: "vCenterConnectionStatus y = vCenterConnectionStatus x"
    if "blockUpgradeOrDegradeCluster env r infra st x = Returned (res, y)" for r x y and res
    using block_reported [OF that] by (simp add: reported_def)
  have s: "vCenterConnectionStatus y = vCenterConnectionStatus x"
    if "write_secret env infra d x = Returned (e, y)" for x y e
    using that by (auto simp: write_secret_def obind_Returned split: option.splits)
  have c: "vCenterConnectionStatus y = vCenterConnectionStatus x"
    if "runClusterCheck env infra x = Returned ((nd, r, ran), y)" for x y nd r ran
    by (rule runClusterCheck_cases [OF that]) simp
  have a: "vCenterConnectionStatus y = vCenterConnectionStatus x"
    if "after_checks env infra st cb nd r x = Returned ((block, err), y)" for x y nd r cb
    using that
  proof (cases rule: after_checks_cases)
    case (stopped u)
    with b [OF this(1)] show ?thesis by simp
  next
    case (running u w1 w2 w3)
    with b [OF this(1)] updateConditions_reported [OF running(5)] show ?thesis
      by (auto simp: reported_def start_operand_def split: if_splits)
  qed
  from assms show ?thesis
    by (cases rule: installCSIDriver_cases) (metis b s c a)+
qed

lemma connected_start:
  assumes "lawful_checks env" and "vSphereConnections w = []"
    and "managed_env env st infra d False cfg" and "logs_in env infra d False cfg w conn w4"
    and "sync_connected env (full_infra cfg infra) d conn st w4 = Returned (err, w5)"
    and "\<not> operandControllerStarted w" and "operandControllerStarted w5"
  shows "passing_checks env st cfg (full_infra cfg infra) w (deferred_logout env w5)"
proof -
  let ?infra = "full_infra cfg infra" and ?n = "note_connection env conn st w4"
  obtain conns where l: "wf_result conn"
    "CheckError conn \<noteq> None \<longrightarrow> Action conn = CheckActionDegrade
       \<or> Action conn = CheckActionBlockUpgradeOrDegrade
         \<and> CheckStatus conn = CheckStatusVSphereConnectionFailed"
    "operandControllerStarted w4 \<longleftrightarrow> False \<or> operandControllerStarted w"
    and w4: "vSphereChecker w4 = vSphereChecker w" "vCenterConnectionStatus w4 = vCenterConnectionStatus w"
      "w_timers w4 = w_timers w" "featureGates w4 = featureGates w"
    using logs_in_world [OF assms(4,2)] by metis
  have b: "CheckError conn \<noteq> None \<longrightarrow> blocks_install (cluster_status (getCheckAPIDependency env ?infra) conn)"
    using l(2) by (auto simp: cluster_status_managed [OF assms(3)])
  have off: "\<not> operandControllerStarted ?n" using l(3) assms(6) by (simp add: note_connection_same)
  obtain block e w1 where i: "installCSIDriver env ?infra d conn st ?n = Returned ((block, e), w1)"
    and w5: "operandControllerStarted w5 = operandControllerStarted w1" "w_timers w5 = w_timers w1"
      "vSphereChecker w5 = vSphereChecker w1" "vCenterConnectionStatus w5 = vCenterConnectionStatus w1"
    by (rule after_install_kept [OF assms(5)])
  obtain rs nd where ok: "CheckError conn = None" and run: "env_checks env (check_args env ?infra ?n) = Returned rs"
    "nextCheck (vSphereChecker ?n) < env_now_guard env"
    "Check (env_now_guard env) (env_now_check env) (env_extra env) rs (vSphereChecker ?n) =
         ((nd, judged rs, True), vSphereChecker w1)" "w_timers w1 = w_timers ?n @ [nd]"
    "\<not> blocks_install (cluster_status (getCheckAPIDependency env ?infra) (judged rs))"
    using install_started [OF assms(1) l(1) b i off] assms(7) w5(1) by blast
  have chk: "vSphereChecker ?n = due_checker env st w"
    using ok w4 by (simp add: note_connection_def due_checker_def Let_def)
  let ?w3 = "before_login env infra d False cfg (w\<lparr>currentManagmentState := Some Managed\<rparr>)"
  have "login env cfg ?infra ?w3 = Returned (conn, w4)" "vSphereConnections ?w3 = []"
    "w_sessions ?w3 = w_sessions w"
    using assms(2,4) by (simp_all add: logs_in_def before_login_keeps)
  from login_connects [OF this(1,2) ok] this(3) have conns:
    "logged_in_everywhere cfg ?infra (vSphereConnections w4)"
    "w_sessions w4 = w_sessions w @ concat (map held (vSphereConnections w4))" by simp_all
  have kept: "vSphereConnections w5 = vSphereConnections w4" "w_sessions w5 = w_sessions w4"
    using sync_connected_progressed [OF assms(5)] by (simp_all add: progressed_def)
  have "vCenterConnectionStatus w5"
    using w5(4) install_keeps_connection_status [OF i] ok by (simp add: note_connection_same)
  then show ?thesis
    unfolding passing_checks_def
    using conns kept run w5 w4 chk
    by (intro exI [of _ "vSphereConnections w4"] exI [of _ rs] exI [of _ nd])
      (simp add: check_args_def note_connection_same deferred_logout_def)
qed

text \<open>
  C1: when the driver is started. A sync starts it only for a managed operator on vSphere whose
  ClusterCSIDriver object is there, and only when the CSIDriver object in the cluster is already
  OpenShift's own, or that very sync logged in to every vCenter and its due checks passed: it could
  read the cloud configuration, opened (and closed again) the sessions of one connection to every
  vCenter of the completed Infrastructure object, the checks were due, ran on these connections and
  set the timer of the next check, and the verdict on what they returned does not block the
  installation. This holds with any API server, whatever its writes answer.
\<close>
theorem driver_start_needs_verdict:
  assumes "lawful_checks env" and "vSphereConnections w = []"
    and "controller_sync env w = Returned (err, w')"
    and "\<not> operandControllerStarted w" and "operandControllerStarted w'"
  shows "\<exists>sp st infra d. env_state env = Inr (sp, st) \<and> Spec_ManagementState sp = Managed
     \<and> env_infras env infraGlobalName = Inr infra
     \<and> PlatformStatus_Type infra = Some VSpherePlatformType
     \<and> env_drivers env VSphereDriverName = Inr d
     \<and> (driverAlreadyStarted (env_csiDrivers env) = Inr True
        \<or> driverAlreadyStarted (env_csiDrivers env) = Inr False
          \<and> (\<exists>cfg. loadCloudConfig (env_readConfig env) (env_readLegacy env) (env_configMaps env) infra = Inr cfg
               \<and> passing_checks env st cfg (ConvertToPlatformSpec (Some cfg) infra) w w'))"
  using assms(3)
proof (cases rule: controller_sync_cases)
  case (removed sp st)
  with removeOperands_keeps(1) assms(4,5) show ?thesis by metis
next
  case (managed sp st infra d)
  have "driverAlreadyStarted (env_csiDrivers env) = Inr True
     \<or> driverAlreadyStarted (env_csiDrivers env) = Inr False
       \<and> (\<exists>cfg. cloud_config env infra = Inr cfg \<and> passing_checks env st cfg (full_infra cfg infra) w w')"
    using managed(6)
  proof (cases rule: sync_managed_cases)
    case (no_config found e w2)
    with assms(4,5) show ?thesis by (cases found) (simp_all add: start_operand_def)
  next
    case (connected found cfg conn w4 w5)
    show ?thesis
    proof (cases found)
      case False
      have me: "managed_env env st infra d False cfg"
        using managed connected(1,2) False by (simp add: managed_env_def)
      have li: "logs_in env infra d False cfg w conn w4"
        using connected(3) False by (simp add: logs_in_def)
      have "operandControllerStarted w5" using assms(5) connected(5) by (simp add: deferred_logout_def)
      from connected_start [OF assms(1,2) me li connected(4) assms(4) this] connected(1,2,5) False
      show ?thesis by auto
    qed (use connected(1) in simp)
  qed (use assms(4,5) in simp)
  with managed show ?thesis unfolding cloud_config_def by blast
qed (use assms(4,5) in simp_all)

subsection \<open>A vCenter that comes back\<close>

text \<open>When the checks are not due a sync leaves the conditions alone.\<close>

lemma skipped_sync:
  assumes "quiet_env env" and "managed_env env st infra d found cfg"
    and "vSphereConnections w = []" and "logs_in env infra d found cfg w conn w4"
    and "CheckError conn = None" and "controller_sync env w = Returned (err, w')"
    and "\<not> nextCheck (vSphereChecker (note_connection env conn st w4)) < env_now_guard env"
  shows "w_timers w' = w_timers w \<and> (operandControllerStarted w' \<longleftrightarrow> found \<or> operandControllerStarted w)
     \<and> (\<forall>t. t \<notin> set sc_types \<longrightarrow> reads w' t = reads w t)"
proof -
  let ?w = "note_connection env conn st w4"
  obtain block ierr w1 w5 where i: "installCSIDriver env (full_infra cfg infra) d conn st ?w = Returned ((block, ierr), w1)"
    and rest: "w' = deferred_logout env w5"
      "w5 = w1 \<and> err = ierr \<and> (err \<noteq> None \<or> block \<or> \<not> operandControllerStarted w1)
       \<or> \<not> block \<and> ierr = None \<and> operandControllerStarted w1
         \<and> syncStorageClassController env (full_infra cfg infra) w1 = Returned (err, w5)"
    using connected_sync [OF assms(2,4,6)] .
  note q = after_install_quiet [OF assms(1) rest]
  obtain conns where wf: "wf_result conn"
    and w4: "operandControllerStarted w4 \<longleftrightarrow> found \<or> operandControllerStarted w"
      "w_status w4 = w_status w" "w_timers w4 = w_timers w"
    using logs_in_world [OF assms(4,3)] by metis
  obtain e where s: "write_secret env (full_infra cfg infra) d ?w = Returned (e, w1)"
    using wf assms(5) i
  proof (cases rule: connected_install_cases)
    case (checked w2 nd rs v)
    then show ?thesis using write_secret_same(8) [OF checked(1)] assms(7) by simp
  qed (use that in blast)+
  note sec = write_secret_same [OF s]
  show ?thesis using q(2,3,4) sec(2,3,5) w4 by (simp add: note_connection_same)
qed

lemma due_check_runs:
  assumes "quiet_env env" and "managed_env env st infra d found cfg"
    and "vSphereConnections w = []" and "logs_in env infra d found cfg w conn w4"
    and "CheckError conn = None" and "controller_sync env w = Returned (None, w')"
    and "nextCheck (vSphereChecker (note_connection env conn st w4)) < env_now_guard env"
  obtains nd rs v where "w_timers w' = w_timers w @ [nd]"
    and "env_checks env (check_args env (full_infra cfg infra) w4) = Returned rs"
    and "Check (env_now_guard env) (env_now_check env) (env_extra env) rs
           (vSphereChecker (note_connection env conn st w4)) = ((nd, judged rs, True), v)"
proof -
  let ?w = "note_connection env conn st w4"
  obtain block ierr w1 w5 where i: "installCSIDriver env (full_infra cfg infra) d conn st ?w = Returned ((block, ierr), w1)"
    and rest: "w' = deferred_logout env w5"
      "w5 = w1 \<and> None = ierr \<and> ((None :: go_error option) \<noteq> None \<or> block \<or> \<not> operandControllerStarted w1)
       \<or> \<not> block \<and> ierr = None \<and> operandControllerStarted w1
         \<and> syncStorageClassController env (full_infra cfg infra) w1 = Returned (None, w5)"
    using connected_sync [OF assms(2,4,6)] .
  note q = after_install_quiet [OF assms(1) rest]
  obtain conns where wf: "wf_result conn" and w4: "w_timers w4 = w_timers w"
    using logs_in_world [OF assms(4,3)] by metis
  show thesis
    using wf assms(5) i
  proof (cases rule: connected_install_cases)
    case no_secret
    with q(1) show thesis by simp
  next
    case no_check
    with write_secret_same(8) assms(7) show thesis by metis
  next
    case (checked w2 nd rs v)
    note sec = write_secret_same [OF checked(1)]
    obtain rs' v' where c: "Check (env_now_guard env) (env_now_check env) (env_extra env) rs' (vSphereChecker w2) =
         ((nd, judged rs, True), v')"
      and rs': "env_checks env (check_args env (full_infra cfg infra) w2) = Returned rs'"
      using runClusterCheck_cases [OF checked(5)] unfolding check_args_def by metis
    have "rs' = rs" using rs' checked(2) by simp
    moreover have "env_checks env (check_args env (full_infra cfg infra) w4) = Returned rs"
      using checked(2) sec(11) by (simp add: check_args_def note_connection_same)
    moreover have "w_timers w' = w_timers w @ [nd]"
      using q(3) after_checks_log [OF checked(4)] sec(5) w4 by (simp add: note_connection_same)
    ultimately show thesis using that c sec(8) by simp
  qed
qed

text \<open>Nothing in a sync whose parts return keeps it from returning.\<close>

lemma after_checks_returns:
  assumes "wf_result r"
  obtains block err w' where "after_checks env infra st cb d r w = Returned ((block, err), w')"
proof -
  obtain e b u w1 where
    "blockUpgradeOrDegradeCluster env r infra st (w\<lparr>w_timers := w_timers w @ [d]\<rparr>) = Returned ((e, b, u), w1)"
    using block_returns [OF assms] .
  then have "\<exists>block err w'. after_checks env infra st cb d r w = Returned ((block, err), w')"
    by (cases b) (auto simp: after_checks_def Let_def split: prod.split)
  with that show thesis by blast
qed

lemma due_sync_storage_returns:
  assumes "quiet_env env" and "lawful_checks env" and "managed_env env st infra d found cfg"
    and "vSphereConnections w = []" and "logs_in env infra d found cfg w conn w4" and "CheckError conn = None"
    and "write_secret env (full_infra cfg infra) d (note_connection env conn st w4) = Returned (None, w2)"
    and "nextCheck (vSphereChecker w2) < env_now_guard env"
    and "env_checks env (check_args env (full_infra cfg infra) w2) = Returned rs"
    and "\<And>w1. vSphereConnections w1 = vSphereConnections w4 \<Longrightarrow>
           \<exists>e w5. syncStorageClassController env (full_infra cfg infra) w1 = Returned (e, w5)"
  shows "\<exists>err w'. controller_sync env w = Returned (err, w') \<and> w_timers w' \<noteq> w_timers w"
proof -
  let ?infra = "full_infra cfg infra" and ?w = "note_connection env conn st w4"
  obtain conns where wf: "wf_result conn" and t4: "w_timers w4 = w_timers w"
    using logs_in_world [OF assms(5,4)] by metis
  obtain nd r v where c: "Check (env_now_guard env) (env_now_check env) (env_extra env) rs (vSphereChecker w2) =
      ((nd, r, True), v)"
    using assms(8)
    by (cases "Step (env_extra env) (backoff (vSphereChecker w2))";
        cases "Action (overall_result rs) = CheckActionPass"; auto simp: Check_def Let_def)
  have run: "runClusterCheck env ?infra w2 = Returned ((nd, r, True), w2\<lparr>vSphereChecker := v\<rparr>)"
    using assms(8,9) c by (simp add: runClusterCheck_def check_args_def)
  obtain rs' where "env_checks env (check_args env ?infra w2) = Returned rs'" "r = judged rs'"
    using ran_check [OF run] .
  then have "wf_result r" using checks_wf [OF assms(2)] by blast
  then obtain block err w1 where a: "after_checks env ?infra st False nd r (w2\<lparr>vSphereChecker := v\<rparr>) =
      Returned ((block, err), w1)"
    by (rule after_checks_returns)
  have install: "installCSIDriver env ?infra d conn st ?w = Returned ((block, err), w1)"
    using a run assms(7) by (simp add: installCSIDriver_def block_pass [OF wf assms(6)])
  moreover have "vSphereConnections w1 = vSphereConnections w4"
    using installCSIDriver_progressed [OF install]
    by (simp add: progressed_def note_connection_same)
  ultimately have "\<exists>err w5. sync_connected env ?infra d conn st w4 = Returned (err, w5)"
    using install assms(10) [of w1] by (auto simp: sync_connected_def)
  then obtain err w5 where s: "sync_connected env ?infra d conn st w4 = Returned (err, w5)" by blast
  then have ret: "controller_sync env w = Returned (err, deferred_logout env w5)"
    using managed_sync_eq [OF assms(3)] assms(5) by (simp add: logs_in_def)
  have "w_timers w1 = w_timers w @ [nd]"
    using after_checks_log [OF a] write_secret_same(5) [OF assms(7)] t4 by (simp add: note_connection_same)
  moreover have "w_timers w5 = w_timers w1"
    using s
  proof (cases rule: sync_connected_cases)
    case (stopped block')
    with install show ?thesis by simp
  next
    case (storage w1')
    with install sc_sync_quiet(3) [OF assms(1) storage(3)] show ?thesis by simp
  qed
  ultimately show ?thesis using ret by (simp add: deferred_logout_def)
qed

lemma due_sync_returns:
  assumes "quiet_env env" and "lawful_checks env" and "managed_env env st infra d found cfg"
    and "vSphereConnections w = []" and "logs_in env infra d found cfg w conn w4" and "CheckError conn = None"
    and "write_secret env (full_infra cfg infra) d (note_connection env conn st w4) = Returned (None, w2)"
    and "nextCheck (vSphereChecker w2) < env_now_guard env"
    and "env_checks env (check_args env (full_infra cfg infra) w2) = Returned rs"
    and "\<And>w1. \<exists>e w5. syncStorageClassController env (full_infra cfg infra) w1 = Returned (e, w5)"
  shows "\<exists>err w'. controller_sync env w = Returned (err, w') \<and> w_timers w' \<noteq> w_timers w"
  by (rule due_sync_storage_returns [OF assms(1-9)]) (rule assms(10))

text \<open>
  C15: recovery. When the connection was down, the operator has an error condition and the login
  works again, the backoff is reset, so a sync that returns without an error has run the checks at
  once, however far in the future the next check was scheduled, and the delays start again at one
  minute.
\<close>
theorem reconnect_runs_checks:
  assumes "quiet_env env" and "managed_env env st infra d found cfg"
    and "vSphereConnections w = []" and "logs_in env infra d found cfg w conn w4"
    and "CheckError conn = None" and "controller_sync env w = Returned (None, w')"
    and "\<not> vCenterConnectionStatus w" and "hasErrorConditions st"
    and "env_now_reset env < env_now_guard env"
  shows "\<exists>nextDelay rs. w_timers w' = w_timers w @ [nextDelay]
     \<and> env_checks env (check_args env (full_infra cfg infra) w4) = Returned rs
     \<and> nextDelay \<in> {minute + env_extra env minute, hour}"
proof -
  obtain conns where w4: "vCenterConnectionStatus w4 = vCenterConnectionStatus w"
    using logs_in_world [OF assms(4,3)] by metis
  let ?v = "vSphereChecker (note_connection env conn st w4)"
  have v: "?v = ResetExpBackoff (env_now_reset env) (vSphereChecker w4)"
    using assms(5,7,8) w4 by (simp add: note_connection_def)
  have b: "backoff ?v = backoff_after 0" and n: "nextCheck ?v < env_now_guard env"
    using assms(9) by (simp_all add: v ResetExpBackoff_def)
  obtain nd rs v' where r: "w_timers w' = w_timers w @ [nd]"
    "env_checks env (check_args env (full_infra cfg infra) w4) = Returned rs"
    and c: "Check (env_now_guard env) (env_now_check env) (env_extra env) rs ?v = ((nd, judged rs, True), v')"
    using due_check_runs [OF assms(1-6) n] .
  have "nd \<in> {minute + env_extra env minute, hour}"
  proof (cases "Action (overall_result rs) = CheckActionPass")
    case True
    with c n show ?thesis by (auto simp: Check_def Let_def defaultBackoff_def split: prod.splits)
  next
    case False
    from Check_failed [OF b n False] c show ?thesis
      by (simp add: base_delay_def minute_def hour_def)
  qed
  with r show ?thesis by blast
qed

text \<open>
  C14: one passing check heals everything. Whatever the conditions said before and however long the
  backoff had grown, a sync without an error that is logged in, whose next check is due and whose
  checks all pass leaves the driver running, the cluster upgradeable, no disabled operator and no
  degraded check, and asks for the next check in an hour.
\<close>
theorem passing_sync_heals:
  assumes "quiet_env env" and "lawful_checks env" and "managed_env env st infra d found cfg"
    and "vSphereConnections w = []" and "logs_in env infra d found cfg w conn w4"
    and "CheckError conn = None" and "controller_sync env w = Returned (None, w')"
    and "env_checks env (check_args env (full_infra cfg infra) w4) = Returned rs"
    and "\<forall>r \<in> set rs. Action r = CheckActionPass"
    and "nextCheck (vSphereChecker w) < env_now_guard env" and "env_now_reset env < env_now_guard env"
  shows "operandControllerStarted w'
     \<and> (\<exists>reason m. reads w' (name w @ ''Upgradeable'') = Some (ConditionTrue, reason, m))
     \<and> reads w' (name w @ ''Disabled'') = None
     \<and> reads w' ''VMwareVSphereOperatorCheckDegraded'' = Some (ConditionFalse, [], [])
     \<and> w_timers w' = w_timers w @ [hour]"
proof -
  let ?v = "vSphereChecker (note_connection env conn st w4)"
  have "vSphereChecker w4 = vSphereChecker w" using logs_in_world [OF assms(5,4)] by metis
  then have due: "nextCheck ?v < env_now_guard env"
    using assms(10,11) by (auto simp: note_connection_def ResetExpBackoff_def)
  have pass: "Action (overall_result rs) = CheckActionPass"
    using assms(9) overall_result_in [of rs] by metis
  then have judged: "judged rs = MakeClusterCheckResultPass" by (simp add: judged_def)
  obtain nd rs' v where t: "w_timers w' = w_timers w @ [nd]"
    and rs': "env_checks env (check_args env (full_infra cfg infra) w4) = Returned rs'"
    and c: "Check (env_now_guard env) (env_now_check env) (env_extra env) rs' ?v = ((nd, judged rs', True), v)"
    using due_check_runs [OF assms(1,3-7) due] .
  have "rs' = rs" using rs' assms(8) by simp
  with c due pass have "nd = hour"
    by (auto simp: Check_def Let_def defaultBackoff_def split: prod.splits)
  moreover have "w_timers w' \<noteq> w_timers w" using t by simp
  note sync = checked_sync [OF assms(1-7) this]
  have "cluster_status (getCheckAPIDependency env (full_infra cfg infra)) (judged rs) = ClusterCheckAllGood"
    unfolding cluster_status_managed [OF assms(3)] judged by (simp add: MakeClusterCheckResultPass_def)
  moreover have "''VMwareVSphereOperatorCheckDegraded'' \<notin> set sc_types"
    by (simp add: sc_types_def storageClassControllerName_def)
  ultimately show ?thesis
    using sync t assms(8) own_types_not_sc [of "name w"]
      degraded_not_sc condition_types_distinct [of "name w"]
    by (auto simp: Let_def says_def simp del: map_option_eq_Some)
qed

text \<open>A stored error condition, of a list whose types are distinct.\<close>

definition is_error :: "string \<Rightarrow> ConditionStatus \<Rightarrow> bool" where
  "is_error t s \<longleftrightarrow> has_suffix t ''Degraded'' \<and> s = ConditionTrue
     \<or> has_suffix t ''Upgradeable'' \<and> s = ConditionFalse"

lemma hasErrorConditions_iff:
  "hasErrorConditions cs \<longleftrightarrow> (\<exists>c \<in> set cs. is_error (cnd_Type c) (cnd_Status c))"
  by (induction cs) (auto simp: is_error_def OperatorStatusTypeDegraded_def OperatorStatusTypeUpgradeable_def)

lemma lookup_distinct: "distinct_types cs \<Longrightarrow> c \<in> set cs \<Longrightarrow> lookup_condition cs (cnd_Type c) = Some c"
  by (induction cs) (auto simp: cond_simps)

lemma no_error_reads:
  assumes "distinct_types (w_status w)"
    and "\<And>t s r m. reads w t = Some (s, r, m) \<Longrightarrow> \<not> is_error t s"
  shows "\<not> hasErrorConditions (w_status w)"
proof
  assume "hasErrorConditions (w_status w)"
  then obtain c where c: "c \<in> set (w_status w)" "is_error (cnd_Type c) (cnd_Status c)"
    by (auto simp: hasErrorConditions_iff)
  then have "reads w (cnd_Type c) = Some (said c)" by (simp add: lookup_distinct [OF assms(1)])
  with assms(2) [of "cnd_Type c" "cnd_Status c"] c(2) show False by (auto simp: said_def)
qed

lemma disabled_not_error: "\<not> is_error (nm @ ''Disabled'') ConditionTrue"
proof -
  have "nm @ ''Disabled'' \<noteq> x @ ''Degraded''" for x
    by (rule last_chars_differ) simp_all
  then show ?thesis by (auto simp: is_error_def has_suffix_iff)
qed

text \<open>The conditions that are no concern of the main controller.\<close>

definition others_fine :: "'s World \<Rightarrow> bool" where
  "others_fine w \<longleftrightarrow> (\<forall>t s r m. t \<noteq> name w @ ''Upgradeable'' \<and> t \<noteq> ''VMwareVSphereOperatorCheckDegraded''
     \<longrightarrow> reads w t = Some (s, r, m) \<longrightarrow> \<not> is_error t s)"

lemma unknown_is_no_error:
  assumes "others_fine w"
    and "says (name w) started ClusterCheckUpgradeStateUnknown r (reads w) t = Some (s, x, m)"
  shows "\<not> is_error t s"
proof -
  have "\<not> is_error ''VMwareVSphereOperatorCheckDegraded'' ConditionFalse"
    by (simp add: is_error_def has_suffix_def)
  moreover have "\<not> is_error t ConditionUnknown" by (simp add: is_error_def)
  ultimately show ?thesis
    using assms disabled_not_error [of "name w"]
    by (auto simp: says_def others_fine_def simp del: map_option_eq_Some split: if_splits)
qed

text \<open>
  No recovery. A failed login while OpenShift's driver is not installed leaves an unknown upgrade
  status, which does not count as an error condition. So when the vCenter is back and the next check
  is not due yet, the backoff is not reset and the sync changes no condition: the cluster still
  reads that the connection failed, and a driver that was never started stays disabled, although
  the login has succeeded.
\<close>
theorem reconnect_after_unknown_stale:
  assumes "quiet_env env1" and "managed_env env1 st1 infra1 d1 False cfg1" and "vSphereConnections w = []"
    and "logs_in env1 infra1 d1 False cfg1 w conn1 w4" and "CheckError conn1 \<noteq> None"
    and "Action conn1 \<noteq> CheckActionDegrade" and "others_fine w"
    and "controller_sync env1 w = Returned (e1, w1)" and "distinct_types (w_status w)"
    and "quiet_env env2" and "managed_env env2 (w_status w1) infra2 d2 False cfg2"
    and "logs_in env2 infra2 d2 False cfg2 w1 conn2 w6" and "CheckError conn2 = None"
    and "env_now_guard env2 \<le> nextCheck (vSphereChecker w1)"
    and "controller_sync env2 w1 = Returned (e2, w2)"
  shows "(\<exists>m. reads w2 (name w @ ''Upgradeable'') = Some (ConditionUnknown, ''vsphere_connection_failed'', m))
     \<and> (\<not> operandControllerStarted w \<longrightarrow>
          \<not> operandControllerStarted w2 \<and> (\<exists>m. reads w2 (name w @ ''Disabled'') = Some (ConditionTrue, [], m)))
     \<and> w_timers w2 = w_timers w"
proof -
  obtain r where w1: "vSphereConnections w1 = []" "name w1 = name w" "w_timers w1 = w_timers w"
    "operandControllerStarted w1 = operandControllerStarted w" "CheckStatus r = CheckStatus conn1"
    and reads: "\<And>t. reads w1 t =
        says (name w) (operandControllerStarted w) ClusterCheckUpgradeStateUnknown r (reads w) t"
    and distinct: "distinct_types (w_status w1)"
    using failed_login_sync [OF assms(1-5)] assms(6,8,9) by auto
  have "CheckStatus conn1 = CheckStatusVSphereConnectionFailed"
    using logs_in_world [OF assms(4,3)] assms(5,6) by metis
  then have r: "status_string (CheckStatus r) = ''vsphere_connection_failed''" using w1(5) by simp
  have "\<not> hasErrorConditions (w_status w1)"
    by (rule no_error_reads [OF distinct]) (use reads unknown_is_no_error [OF assms(7)] in metis)
  moreover have "vSphereChecker w6 = vSphereChecker w1"
    using logs_in_world [OF assms(12) w1(1)] by metis
  ultimately have "\<not> nextCheck (vSphereChecker (note_connection env2 conn2 (w_status w1) w6)) < env_now_guard env2"
    using assms(14) by (simp add: note_connection_def)
  note skip = skipped_sync [OF assms(10,11) w1(1) assms(12,13,15) this]
  show ?thesis
    using skip reads r w1 own_types_not_sc [of "name w"]
    by (auto simp: says_def simp del: map_option_eq_Some)
qed

subsection \<open>Warnings\<close>

lemma update_events:
  assumes "controller_updateConditions env r status up b w = (e, w')"
  shows "w_events w' = w_events w @ upd_events (updateConditions (env_now_status env) (name w) r status up
     (operandControllerStarted w) b (env_attempt env (w_updates w) (w_status w)))"
  using assms by (auto simp: controller_updateConditions_def write_status_def Let_def)

lemma update_event_list:
  "upd_events (updateConditions now nm r status ConditionFalse started b att) =
     (if map_option said (lookup_condition status (nm @ ''Upgradeable'')) =
           Some (ConditionFalse, status_string (CheckStatus r), Reason r) then []
      else [(status_string (CheckStatus r), ''Marking cluster un-upgradeable because '' @ Reason r)])"
  by (auto simp: updateConditions_def addUpgradeableBlockCondition_def OperatorStatusTypeUpgradeable_def
      Let_def split: prod.split option.split)

text \<open>
  A check that only blocks upgrades warns twice. Both updates of the sync, the one for the
  verdict and the one at its end, compare with the conditions read when the sync began, so a new
  verdict is announced by two equal events.
\<close>
theorem blocked_upgrade_warns_twice:
  assumes "wf_result r"
    and "cluster_status (getCheckAPIDependency env infra) r = ClusterCheckBlockUpgrade"
    and "map_option said (lookup_condition opStatus (name w @ ''Upgradeable'')) \<noteq>
           Some (ConditionFalse, status_string (CheckStatus r), Reason r)"
    and "after_checks env infra opStatus False d r w = Returned ((False, None), w')"
  shows "\<exists>warning. w_events w' = w_events w @ [warning, warning]"
  using assms(4)
proof (cases rule: after_checks_cases)
  case (running u w1 w2 w3)
  let ?api = "getCheckAPIDependency env infra"
  obtain r' where "CheckClusterStatus r ?api = Returned (cluster_status ?api r, r')"
    and "cluster_status ?api r \<noteq> ClusterCheckDegrade \<longrightarrow> r' = r"
    using CheckClusterStatus_status [OF assms(1)] by blast
  then have c: "CheckClusterStatus r ?api = Returned (ClusterCheckBlockUpgrade, r')" and r': "r' = r"
    using assms(2) by simp_all
  let ?ev = "(status_string (CheckStatus r), ''Marking cluster un-upgradeable because '' @ Reason r)"
  let ?w0 = "w\<lparr>w_timers := w_timers w @ [d]\<rparr>"
  obtain w0 where "controller_updateConditions env r opStatus ConditionFalse False w0 = (None, w1)"
    "w0 = set_install_error r ''upgrade_blocked'' ?w0"
    using running(1) c r' by (auto simp: blockUpgradeOrDegradeCluster_def split: prod.splits)
  then have 1: "w_events w1 = w_events w @ [?ev]"
    using update_events [of env r opStatus ConditionFalse False w0 None w1] assms(3)
    by (simp add: update_event_list set_install_error_def)
  have "u" using block_steps(2) [OF c running(1)] by simp
  moreover have "name w3 = name w" "w_events w3 = w_events w1"
    using block_reported [OF running(1)] by (auto simp: running(3,4) reported_def start_operand_def)
  ultimately have "w_events w' = w_events w1 @ [?ev]"
    using update_events [OF running(5)] assms(3) by (simp add: update_event_list)
  with 1 show ?thesis by simp
qed simp

subsection \<open>An operator that is not managed\<close>

lemma map_filter_nonempty: "0 < length (List.map_filter f xs) \<longleftrightarrow> (\<exists>x \<in> set xs. f x \<noteq> None)"
  by (induction xs) (auto simp: map_filter_simps split: option.split)

text \<open>
  C17: on another platform, or when the operator is neither managed nor removed, a sync does
  nothing at all. When a managed operator becomes removed, the process ends, so that the running
  driver controllers stop; a process that never managed deletes every asset, keeps the driver stopped,
  and only when all deletions and that of the storage class succeed it replaces the conditions.
\<close>
theorem unmanaged_sync:
  assumes "env_state env = Inr (sp, st)" and "env_infras env infraGlobalName = Inr infra"
    and "PlatformStatus_Type infra \<noteq> Some VSpherePlatformType \<or> Spec_ManagementState sp \<noteq> Managed"
  shows "controller_sync env w =
      (if PlatformStatus_Type infra \<noteq> Some VSpherePlatformType \<or> Spec_ManagementState sp \<noteq> Removed
       then Returned (None, w)
       else if currentManagmentState w = Some Managed then Exited
       else Returned (removeOperands env st w))
    \<and> (case removeOperands env st w of (err, w') \<Rightarrow>
         w_removed w' = w_removed w @ assetsToBeDeleted
         \<and> operandControllerStarted w' = operandControllerStarted w
         \<and> (if (\<exists>a \<in> set assetsToBeDeleted. env_deleteAsset env a \<noteq> None)
            then err \<noteq> None \<and> w_status w' = w_status w \<and> w_sc_calls w' = w_sc_calls w
            else if fst (SyncRemove (env_sc env)) \<noteq> None then err \<noteq> None \<and> w_status w' = w_status w
            else w_updates w' = w_updates w + 1))"
proof -
  obtain err w' where rm: "removeOperands env st w = (err, w')" by fastforce
  let ?errs = "List.map_filter (env_deleteAsset env) assetsToBeDeleted"
  have some: "0 < length ?errs \<longleftrightarrow> (\<exists>a \<in> set assetsToBeDeleted. env_deleteAsset env a \<noteq> None)"
    by (rule map_filter_nonempty)
  have "if 0 < length ?errs then err \<noteq> None \<and> w_status w' = w_status w \<and> w_sc_calls w' = w_sc_calls w
      else if fst (SyncRemove (env_sc env)) \<noteq> None then err \<noteq> None \<and> w_status w' = w_status w
      else w_updates w' = w_updates w + 1"
    using rm
    by (cases "0 < length ?errs"; cases "SyncRemove (env_sc env)")
      (auto simp: removeOperands_def write_status_def NewAggregate_def Let_def split: option.splits)
  then show ?thesis
    using assms removeOperands_keeps [OF rm] unfolding some
    by (auto simp: rm controller_sync_def)
qed

end
