(* ===== verification/Controller_Examples.thy ===== *)
theory Controller_Examples
  imports Controller_Sync
begin

text \<open>
  A laboratory for the whole controller, shared by the witnesses: one vCenter that is up or down and
  reports a given version, no nodes, a cluster without or with a foreign CSIDriver object, an API
  server without other writers, and an operator that has just been booted.
\<close>

subsection \<open>The environment\<close>

definition lab_client :: "string \<Rightarrow> VClient" where
  "lab_client v = example_client\<lparr>ApiVersion := v\<rparr>"

definition lab_service :: "bool \<Rightarrow> string \<Rightarrow> VCService" where
  "lab_service up v =
     \<lparr>svc_ParseURL = (\<lambda>h. Inr ()),
      svc_NewClient = (\<lambda>h i. if up then Inr (lab_client v) else Inl (Failure ''down'')),
      svc_Login = (\<lambda>h u p. Inr ()), svc_RestLogin = (\<lambda>h u p. Inr ()),
      svc_RestLogout = (\<lambda>h. Inr ()), svc_Logout = (\<lambda>h. Inr ())\<rparr>"

definition lab_infra :: Infrastructure where
  "lab_infra = example_infra\<lparr>Platform_VSphere := Some one_domain\<rparr>"

definition lab_config :: VSphereConfig where
  "lab_config = \<lparr>Config = Config example_config, LegacyConfig = None\<rparr>"

definition lab_driver :: ClusterCSIDriver where
  "lab_driver = (vsphere_driver None)\<lparr>Spec_StorageClassState := UnmanagedStorageClass\<rparr>"

text \<open>The three checkers; with no nodes the node check has one result.\<close>

definition lab_checks :: "CheckArgs \<Rightarrow> ClusterCheckResult list outcome" where
  "lab_checks args =
     (case VCenterChecker_Check args of
        Returned v \<Rightarrow>
          if NodeChecker_may_return args [MakeClusterCheckResultPass]
          then Returned (CheckExistingDriver_Check args @ v @ [MakeClusterCheckResultPass])
          else Panicked []
      | Panicked m \<Rightarrow> Panicked m
      | Exited \<Rightarrow> Exited)"

definition lab_env ::
  "bool \<Rightarrow> (string \<Rightarrow> CSIDriver result) \<Rightarrow> string \<Rightarrow> conditions \<Rightarrow> int \<Rightarrow> list_server Env" where
  "lab_env up drivers v st now =
     \<lparr>env_state = Inr (\<lparr>Spec_ManagementState = Managed, Spec_LogLevel = Normal, Spec_ObservedConfig = []\<rparr>, st),
      env_infras = (\<lambda>n. Inr lab_infra), env_drivers = (\<lambda>n. Inr lab_driver), env_csiDrivers = drivers,
      env_nodes = Inr [], env_csiNodes = Inr [], env_configMaps = (\<lambda>ns n. Inr [''config'' \<mapsto> ''text'']),
      env_secrets = example_secrets, env_readConfig = (\<lambda>s. Inr (Config example_config)),
      env_readLegacy = (\<lambda>s. Inl (Failure ''not ini'')), env_svc = lab_service up v,
      env_checks = lab_checks, env_order = id, env_csiConfigManifest = csi_cloud_config,
      env_secretManifest = \<lparr>sec_Name = ''vsphere-csi-config-secret'', sec_Namespace = defaultNamespace,
        sec_Data = Map.empty\<rparr>,
      env_applySecret = (\<lambda>s. None), env_attempt = (\<lambda>k. quiet), env_deleteAsset = (\<lambda>a. None),
      env_now_reset = now, env_now_guard = now + 1, env_now_check = now + 1, env_now_status = now,
      env_extra = (\<lambda>d. 0), env_sc = example_env False now\<rparr>"

definition lab_world :: "list_server World" where
  "lab_world =
     \<lparr>name = ''VMwareVSphereController'', targetNamespace = defaultNamespace, operandControllerStarted = False,
      vSphereConnections = [], vSphereChecker = newVSphereEnvironmentChecker 0,
      vCenterConnectionStatus = False, featureGates = [], cloudConfig = None, currentManagmentState = None,
      storageClassController = NewStorageClassController 0, w_status = [], w_updates = 0, w_sessions = [],
      w_events = [], w_metrics = \<lparr>TopologyTagsMetric = Map.empty, InfrastructureFailureDomains = Map.empty,
        InstallErrorMetric = Map.empty\<rparr>, w_secrets = [], w_deleted = [], w_removed = [], w_starts = 0,
      w_timers = [], w_sc_calls = [], w_vcenter = ([], [])\<rparr>"

definition no_csidriver :: "string \<Rightarrow> CSIDriver result" where
  "no_csidriver n = Inl (NotFound n)"

definition foreign_csidriver :: "string \<Rightarrow> CSIDriver result" where
  "foreign_csidriver n = Inr \<lparr>drv_Name = n, drv_Annotations = Map.empty\<rparr>"

lemma lab_booted: "booted lab_world"
  unfolding booted_def
proof (intro conjI exI)
  show "VSphereController.truncate lab_world =
      NewVSphereController ''VMwareVSphereController'' defaultNamespace [] 0"
    by (simp add: lab_world_def NewVSphereController_def VSphereController.truncate_def)
qed (simp_all add: lab_world_def)

lemma lab_quiet: "quiet_env (lab_env up drivers v st now)"
  by (simp add: quiet_env_def lab_env_def)

lemma lab_lawful: "lawful_checks (lab_env up drivers v st now)"
  by (auto simp: lawful_checks_def lab_env_def lab_checks_def checkers_may_return_def
      split: outcome.splits if_splits)

lemma lab_full_infra: "full_infra lab_config lab_infra = lab_infra"
  by (simp add: ConvertToPlatformSpec_def lab_infra_def lab_config_def convert_spec_def)

lemma lab_managed:
  assumes "driverAlreadyStarted drivers = Inr found"
  shows "managed_env (lab_env up drivers v st now) st lab_infra lab_driver found lab_config"
  using assms
  by (simp add: managed_env_def lab_env_def VSpherePlatformType_def lab_infra_def example_infra_def
      cloud_config_def loadCloudConfig_def cloud_config_data_def LoadConfig_def lab_config_def)

definition lab_connection :: "bool \<Rightarrow> string \<Rightarrow> VSphereConnection" where
  "lab_connection up v =
     \<lparr>Client = (if up then Some (lab_client v) else None), RestClient = up, Username = ''bob'',
      Password = ''pw'', Hostname = ''vc1'', Insecure = True, conn_Config = lab_config\<rparr>"

definition lab_login_result :: "bool \<Rightarrow> ClusterCheckResult" where
  "lab_login_result up =
     (if up then MakeClusterCheckResultPass
      else \<lparr>CheckError = Some (Failure ''down''), CheckStatus = CheckStatusVSphereConnectionFailed,
            Action = CheckActionBlockUpgradeOrDegrade,
            Reason = ''Failed to connect to vSphere: down''\<rparr>)"

lemma lab_loginToVCenter:
  "\<exists>log'. loginToVCenter (lab_service up v) example_secrets ns lab_config lab_infra [] log =
     Returned (lab_login_result up, [lab_connection up v], log')"
  by (cases up)
    (simp_all add: loginToVCenter_def createVCenterConnection_def lab_infra_def one_domain_def
      example_secrets_def NewVSphereConnection_def GetVCenterHostname_def IsInsecure_def lab_config_def
      example_config_def Connect_def NewClient_def lab_service_def lab_login_result_def
      lab_connection_def Let_def)

lemma lab_env_fields:
  "env_svc (lab_env up drivers v st now) = lab_service up v"
  "env_secrets (lab_env up drivers v st now) = example_secrets"
  "env_csiDrivers (lab_env up drivers v st now) = drivers"
  "env_checks (lab_env up drivers v st now) = lab_checks"
  "env_now_guard (lab_env up drivers v st now) = now + 1"
  "env_now_reset (lab_env up drivers v st now) = now"
  "env_sc (lab_env up drivers v st now) = example_env False now"
  "env_drivers (lab_env up drivers v st now) = (\<lambda>n. Inr lab_driver)"
  "env_nodes (lab_env up drivers v st now) = Inr []"
  "env_csiNodes (lab_env up drivers v st now) = Inr []"
  "env_applySecret (lab_env up drivers v st now) = (\<lambda>s. None)"
  "env_order (lab_env up drivers v st now) = id"
  by (simp_all add: lab_env_def)

lemma lab_login:
  assumes "vSphereConnections w = []"
  obtains w4 where "logs_in (lab_env up drivers v st now) lab_infra lab_driver found lab_config w
      (lab_login_result up) w4" and "vSphereConnections w4 = [lab_connection up v]"
proof -
  let ?env = "lab_env up drivers v st now"
  let ?w = "before_login ?env lab_infra lab_driver found lab_config (w\<lparr>currentManagmentState := Some Managed\<rparr>)"
  obtain log' where l: "loginToVCenter (lab_service up v) example_secrets (targetNamespace ?w) lab_config lab_infra []
      (w_sessions ?w) = Returned (lab_login_result up, [lab_connection up v], log')"
    using lab_loginToVCenter by blast
  have "vSphereConnections ?w = []" using assms by (simp add: before_login_keeps)
  with l have "login ?env lab_config lab_infra ?w = Returned (lab_login_result up,
      ?w\<lparr>vSphereConnections := [lab_connection up v], w_sessions := log'\<rparr>)"
    by (simp add: login_def lab_env_fields)
  with that show thesis unfolding logs_in_def lab_full_infra by fastforce
qed

lemma no_nodes_pass:
  assumes "ListLinuxNodes (apiClient args) = Inr []"
  shows "NodeChecker_may_return args [MakeClusterCheckResultPass]"
proof -
  obtain rs where rs: "NodeChecker_may_return args rs"
    using NodeChecker_has_result [OF assms] by auto
  then obtain s where "pool_reach args [] s" "feeder_at s = Finished rs"
    using assms by (auto simp: NodeChecker_may_return_def)
  from finished_results [OF this] have "rs = [MakeClusterCheckResultPass]"
    by (cases rs) (auto simp: genuine_def)
  with rs show ?thesis by simp
qed

text \<open>The Secret is written without an error.\<close>

lemma lab_secret:
  assumes "vSphereConnections w = [lab_connection True v]" and "cloudConfig w = Some lab_config"
  obtains w2 where "write_secret (lab_env True drivers v st now) lab_infra lab_driver w = Returned (None, w2)"
proof -
  let ?env = "lab_env True drivers v st now"
  have url: "default_datastore_url lab_infra [lab_connection True v] [] = Returned (Inr ''url'')"
    by (simp add: NewStoragePolicyAPI_def lab_infra_def one_domain_def lab_connection_def
        policy_GetDefaultDatastore_def lookup_datastore_def lab_client_def example_client_def)
  have "sorted_vcenters lab_config =
      [\<lparr>VCenterIP = ''vc1'', InsecureFlag = True, cfg_Datacenters = ''dc1''\<rparr>]"
    by (simp add: sorted_vcenters_def lab_config_def example_config_def)
  then have "\<exists>text. cloud_conf id t example_secrets lab_infra lab_config lab_driver ''url'' = Inr text" for t
    by (simp add: cloud_conf_def Let_def vcenter_section_def getUserAndPassword_def example_secrets_def
        split: prod.split)
  then obtain s where "applyClusterCSIDriverChange id (env_csiConfigManifest ?env) (env_secretManifest ?env)
      example_secrets lab_infra lab_config lab_driver ''url'' = Inr s"
    by (force simp: applyClusterCSIDriverChange_def rbind_Inr)
  moreover have "Platform_VSphere lab_infra = Some one_domain" "length (VCenters one_domain) = 1"
    by (simp_all add: lab_infra_def one_domain_def)
  ultimately have "createCSISecret (env_order ?env) (env_csiConfigManifest ?env) (env_secretManifest ?env)
      (env_secrets ?env) (env_applySecret ?env) (vSphereConnections w) lab_config lab_infra lab_driver =
      Returned (None, Some s)"
    using url assms(1) by (simp add: createCSISecret_def lab_env_fields)
  with that assms(2) show thesis by (simp add: write_secret_def)
qed

text \<open>The storage class is unmanaged here, so its controller only reports.\<close>

lemma lab_storage:
  "\<exists>e w5. syncStorageClassController (lab_env up drivers v st now) infra w = Returned (e, w5)"
proof -
  let ?env = "(env_sc (lab_env up drivers v st now))\<lparr>env_infra := infra, env_driver := \<lambda>n. Inr lab_driver\<rparr>"
  have st: "GetStorageClassState (env_driver ?env n) = UnmanagedStorageClass" for n
    by (simp add: GetStorageClassState_def lab_driver_def)
  obtain c' where p: "sync_policies ?env UnmanagedStorageClass (vSphereConnections w)
      (storageClassController w) (w_vcenter w) = Returned (None, c', w_vcenter w)"
    using sync_policies_unmanaged [of UnmanagedStorageClass ?env "vSphereConnections w" "storageClassController w" "w_vcenter w"]
    by (auto simp: IsManaged_def)
  obtain e calls where c: "syncStorageClass ?env UnmanagedStorageClass c' = (e, calls)"
    by fastforce
  have "\<exists>r. checkResultFunc ?env (vSphereConnections w) (storageClassController w) (w_vcenter w) =
      Returned (r, c', w_vcenter w)"
    unfolding checkResultFunc_def Let_def st p by (simp add: c split: option.split)
  then show ?thesis
    by (auto simp: syncStorageClassController_def Sync_def lab_env_fields split: prod.split)
qed

text \<open>A sync whose checks are due returns, with any version of the vCenter.\<close>

lemma lab_checks_run:
  assumes "vmConnection args = [lab_connection True v]" and "NodeLister (apiClient args) = Inr []"
  shows "lab_checks args = Returned (CheckExistingDriver_Check args
     @ (case vcenter_verdict v of None \<Rightarrow> [] | Some r \<Rightarrow> [r]) @ [MakeClusterCheckResultPass])"
proof -
  have "NodeChecker_may_return args [MakeClusterCheckResultPass]"
    by (rule no_nodes_pass) (simp add: ListLinuxNodes_def assms(2))
  then show ?thesis
    by (simp add: lab_checks_def VCenterChecker_Check_def assms(1) lab_connection_def lab_client_def
        split: option.split)
qed

definition lab_results :: "(string \<Rightarrow> CSIDriver result) \<Rightarrow> string \<Rightarrow> ClusterCheckResult list" where
  "lab_results drivers v =
     CheckExistingDriver_Check
       ((example_args [])\<lparr>apiClient := (example_api [])\<lparr>CSIDriverLister := drivers\<rparr>\<rparr>)
     @ (case vcenter_verdict v of None \<Rightarrow> [] | Some r \<Rightarrow> [r]) @ [MakeClusterCheckResultPass]"

lemma lab_results_run:
  assumes "vmConnection args = [lab_connection True v]" and "NodeLister (apiClient args) = Inr []"
    and "CSINodeLister (apiClient args) = Inr []" and "CSIDriverLister (apiClient args) = drivers"
  shows "lab_checks args = Returned (lab_results drivers v)"
  using assms
  by (simp add: lab_checks_run lab_results_def CheckExistingDriver_Check_def checkForCSINode_def
      example_args_def example_api_def cong: sum.case_cong if_cong)

theorem check_results_typed_witness:
  "\<exists>rs. checkers_may_return (example_args []) rs
     \<and> (\<exists>status r'. CheckClusterStatus (judged rs) (example_api []) = Returned (status, r'))"
proof -
  have "NodeChecker_may_return (example_args []) [MakeClusterCheckResultPass]"
    by (rule no_nodes_pass) (simp add: ListLinuxNodes_def example_args_def example_api_def)
  moreover have "VCenterChecker_Check (example_args []) =
      Returned (case vcenter_verdict (ApiVersion example_client) of None \<Rightarrow> [] | Some r \<Rightarrow> [r])"
    by (simp add: VCenterChecker_Check_def example_args_def example_connection_def split: option.split)
  ultimately have "checkers_may_return (example_args [])
      (CheckExistingDriver_Check (example_args [])
       @ (case vcenter_verdict (ApiVersion example_client) of None \<Rightarrow> [] | Some r \<Rightarrow> [r])
       @ [MakeClusterCheckResultPass])"
    by (simp add: checkers_may_return_def)
  with check_results_typed [OF this] show ?thesis by blast
qed

lemma lab_due_sync:
  fixes w :: "list_server World"
  assumes "driverAlreadyStarted drivers = Inr found" and "vSphereConnections w = []"
    and "nextCheck (vSphereChecker w) \<le> now \<or> hasErrorConditions st \<and> \<not> vCenterConnectionStatus w"
  obtains w4 err w' where
    "logs_in (lab_env True drivers v st now) lab_infra lab_driver found lab_config w (lab_login_result True) w4"
    and "controller_sync (lab_env True drivers v st now) w = Returned (err, w')"
    and "w_timers w' \<noteq> w_timers w"
    and "lab_checks (check_args (lab_env True drivers v st now) (full_infra lab_config lab_infra) w4) =
           Returned (lab_results drivers v)"
proof -
  let ?env = "lab_env True drivers v st now" and ?pass = "lab_login_result True"
  obtain w4 where l: "logs_in ?env lab_infra lab_driver found lab_config w ?pass w4"
    "vSphereConnections w4 = [lab_connection True v]"
    by (rule lab_login [OF assms(2)])
  obtain conns where w4: "vSphereChecker w4 = vSphereChecker w" "cloudConfig w4 = Some lab_config"
    "vCenterConnectionStatus w4 = vCenterConnectionStatus w"
    using logs_in_world [OF l(1) assms(2)] by metis
  let ?n = "note_connection ?env ?pass st w4"
  obtain w2 where s: "write_secret ?env (full_infra lab_config lab_infra) lab_driver ?n = Returned (None, w2)"
    by (rule lab_secret [of ?n v]) (simp_all add: note_connection_same lab_full_infra l(2) w4(2))
  note sec = write_secret_same [OF s]
  have ok: "CheckError ?pass = None" by (simp add: lab_login_result_def MakeClusterCheckResultPass_def)
  have due: "nextCheck (vSphereChecker w2) < env_now_guard ?env"
    using assms(3) w4 ok
    by (auto simp: sec(8) note_connection_def Let_def lab_env_fields ResetExpBackoff_def)
  have run: "lab_checks (check_args ?env (full_infra lab_config lab_infra) x) = Returned (lab_results drivers v)"
    if "vSphereConnections x = [lab_connection True v]" for x :: "list_server World"
    by (rule lab_results_run) (simp_all add: check_args_def getCheckAPIDependency_def lab_env_fields that)
  have "\<exists>err w'. controller_sync ?env w = Returned (err, w') \<and> w_timers w' \<noteq> w_timers w"
    by (rule due_sync_returns [OF lab_quiet lab_lawful lab_managed [OF assms(1)] assms(2) l(1) ok s due])
      (use run [of w2] lab_storage in \<open>simp_all add: lab_env_fields sec(6) note_connection_same l(2)\<close>)
  with that l run [OF l(2)] show thesis by blast
qed

subsection \<open>Witnesses\<close>

lemma lab_verdicts:
  "vcenter_verdict ''7.0.3'' = None"
  "\<exists>r. vcenter_verdict ''6.5.0'' = Some r \<and> Action r = CheckActionBlockUpgradeOrDegrade
     \<and> CheckStatus r = CheckStatusDeprecatedVCenter"
proof -
  have v: "''7.0.3'' = dotted [7, 0, 3]" "''6.5.0'' = dotted [6, 5, 0]"
    by (simp_all add: go_simps)
  note is_min = IsMinimumVersion_nums [of "[7, 0, 3]" 6 7 3] IsMinimumVersion_nums [of "[7, 0, 3]" 7 0 2]
    IsMinimumVersion_nums [of "[6, 5, 0]" 6 7 3]
  show "vcenter_verdict ''7.0.3'' = None"
    using is_min unfolding v
    by (simp add: vcenter_verdict_def dotted_min_vcenter max_uint64_def pad3_def numeral_3_eq_3)
  show "\<exists>r. vcenter_verdict ''6.5.0'' = Some r \<and> Action r = CheckActionBlockUpgradeOrDegrade
     \<and> CheckStatus r = CheckStatusDeprecatedVCenter"
    using is_min unfolding v
    by (simp add: vcenter_verdict_def dotted_min_vcenter max_uint64_def pad3_def numeral_3_eq_3
        check_simps)
qed

lemma no_csidriver_absent: "driverAlreadyStarted no_csidriver = Inr False"
  by (simp add: driverAlreadyStarted_def no_csidriver_def)

lemma foreign_csidriver_found: "driverAlreadyStarted foreign_csidriver = Inr False"
  by (simp add: driverAlreadyStarted_def foreign_csidriver_def openshift_annotated_def)

lemma good_results: "judged (lab_results no_csidriver ''7.0.3'') = MakeClusterCheckResultPass"
  by (simp add: lab_results_def lab_verdicts CheckExistingDriver_Check_def checkForCSINode_def
      example_args_def example_api_def no_csidriver_def judged_def overall_result_def
      MakeClusterCheckResultPass_def zero_result_def)

lemma lab_world_idle:
  "vSphereConnections lab_world = []" "nextCheck (vSphereChecker lab_world) \<le> 0"
  "\<not> operandControllerStarted lab_world" "name lab_world = ''VMwareVSphereController''"
  "w_status lab_world = []" "w_timers lab_world = []"
  by (simp_all add: lab_world_def newVSphereEnvironmentChecker_def)

text \<open>The first sync of a good cluster starts the driver.\<close>

abbreviation good_env :: "list_server Env" where
  "good_env \<equiv> lab_env True no_csidriver ''7.0.3'' [] 0"

lemma first_sync:
  obtains w4 err w' where "logs_in good_env lab_infra lab_driver False lab_config lab_world (lab_login_result True) w4"
    and "controller_sync good_env lab_world = Returned (err, w')" and "w_timers w' \<noteq> w_timers lab_world"
    and "operandControllerStarted w'"
    and "\<exists>reason m. reads w' ''VMwareVSphereControllerUpgradeable'' = Some (ConditionTrue, reason, m)"
proof -
  have d: "nextCheck (vSphereChecker lab_world) \<le> 0 \<or> hasErrorConditions [] \<and> \<not> vCenterConnectionStatus lab_world"
    using lab_world_idle by simp
  obtain w4 err w' where 1: "logs_in good_env lab_infra lab_driver False lab_config lab_world (lab_login_result True) w4"
    "controller_sync good_env lab_world = Returned (err, w')" "w_timers w' \<noteq> w_timers lab_world"
    "lab_checks (check_args good_env (full_infra lab_config lab_infra) w4) =
       Returned (lab_results no_csidriver ''7.0.3'')"
    using lab_due_sync [OF no_csidriver_absent lab_world_idle(1) d, where v = "''7.0.3''"] .
  have ok: "CheckError (lab_login_result True) = None"
    by (simp add: lab_login_result_def MakeClusterCheckResultPass_def)
  have good: "cluster_status (getCheckAPIDependency good_env (full_infra lab_config lab_infra))
      (judged (lab_results no_csidriver ''7.0.3'')) = ClusterCheckAllGood"
    unfolding cluster_status_managed [OF lab_managed [OF no_csidriver_absent]] good_results
    by (simp add: MakeClusterCheckResultPass_def)
  have "''VMwareVSphereControllerUpgradeable'' \<notin> set sc_types"
    using own_types_not_sc(1) [of "name lab_world"] lab_world_idle(4) by simp
  then have "operandControllerStarted w'
     \<and> (\<exists>reason m. reads w' ''VMwareVSphereControllerUpgradeable'' = Some (ConditionTrue, reason, m))"
    using checked_sync [OF lab_quiet lab_lawful lab_managed [OF no_csidriver_absent] lab_world_idle(1)
        1(1) ok 1(2,3)] 1(4) good lab_world_idle(4)
    by (auto simp: lab_env_fields Let_def says_def simp del: map_option_eq_Some)
  with that 1 show thesis by blast
qed

theorem checked_sync_verdict_witness:
  "\<exists>err w'. controller_sync good_env lab_world = Returned (err, w') \<and> length (w_timers w') = 1"
proof -
  obtain w4 err w' where 1: "logs_in good_env lab_infra lab_driver False lab_config lab_world (lab_login_result True) w4"
    "controller_sync good_env lab_world = Returned (err, w')" "w_timers w' \<noteq> w_timers lab_world"
    by (rule first_sync)
  have ok: "CheckError (lab_login_result True) = None"
    by (simp add: lab_login_result_def MakeClusterCheckResultPass_def)
  show ?thesis
    using checked_sync_verdict [OF lab_quiet lab_lawful lab_managed [OF no_csidriver_absent] lab_world_idle(1)
        1(1) ok 1(2,3)] 1(2) lab_world_idle(6)
    by auto
qed

theorem driver_start_needs_verdict_witness:
  "\<exists>err w'. controller_sync good_env lab_world = Returned (err, w')
     \<and> passing_checks good_env [] lab_config lab_infra lab_world w'"
proof -
  obtain w4 err w' where 1: "controller_sync good_env lab_world = Returned (err, w')"
    "operandControllerStarted w'"
    by (rule first_sync)
  have "env_infras good_env infraGlobalName = Inr lab_infra" "cloud_config good_env lab_infra = Inr lab_config"
    "case env_state good_env of Inl e \<Rightarrow> False | Inr (sp, st) \<Rightarrow> Spec_ManagementState sp = Managed \<and> st = []"
    using lab_managed [OF no_csidriver_absent, of True "''7.0.3''" "[]" 0] by (simp_all add: managed_env_def)
  then have "passing_checks good_env [] lab_config lab_infra lab_world w'"
    using driver_start_needs_verdict [OF lab_lawful lab_world_idle(1) 1(1) lab_world_idle(3) 1(2)]
      no_csidriver_absent
    by (auto simp: lab_env_fields cloud_config_def lab_full_infra)
  with 1(1) show ?thesis by blast
qed

theorem operator_run_safe_witness:
  "\<exists>w. operator_run lab_world w \<and> operandControllerStarted w \<and> w_starts w = 1"
proof -
  obtain w4 err w' where 1: "controller_sync good_env lab_world = Returned (err, w')"
    "operandControllerStarted w'"
    by (rule first_sync)
  have run: "operator_run lab_world w'" by (rule operator_run.sync [OF operator_run.boot 1(1)])
  from operator_run_safe [OF lab_booted run] run 1(2) show ?thesis by blast
qed

theorem unreachable_vcenter_reported_witness:
  "\<exists>w'. controller_sync (lab_env False no_csidriver ''7.0.3'' [] 0) lab_world = Returned (None, w')
     \<and> \<not> vCenterConnectionStatus w'"
proof -
  obtain w4 where l: "logs_in (lab_env False no_csidriver ''7.0.3'' [] 0) lab_infra lab_driver False lab_config
      lab_world (lab_login_result False) w4"
    using lab_login [OF lab_world_idle(1)] by blast
  have "CheckError (lab_login_result False) \<noteq> None" by (simp add: lab_login_result_def)
  from unreachable_vcenter_reported [OF lab_quiet lab_managed [OF no_csidriver_absent] lab_world_idle(1) l this]
  show ?thesis by blast
qed

lemma lab_login_ok: "CheckError (lab_login_result True) = None"
  by (simp add: lab_login_result_def MakeClusterCheckResultPass_def)

theorem foreign_driver_masked_witness:
  "\<exists>err w'. controller_sync (lab_env True foreign_csidriver ''6.5.0'' [] 0) lab_world = Returned (err, w')
     \<and> operandControllerStarted w' \<and> reads w' ''VMwareVSphereControllerDisabled'' = None
     \<and> (\<exists>reason message. reads w' ''VMwareVSphereControllerUpgradeable'' = Some (ConditionFalse, reason, message))"
proof -
  let ?env = "lab_env True foreign_csidriver ''6.5.0'' [] 0"
  let ?rs = "lab_results foreign_csidriver ''6.5.0''"
  have d: "nextCheck (vSphereChecker lab_world) \<le> 0 \<or> hasErrorConditions [] \<and> \<not> vCenterConnectionStatus lab_world"
    using lab_world_idle by simp
  obtain w4 err w' where 1: "logs_in ?env lab_infra lab_driver False lab_config lab_world (lab_login_result True) w4"
    "controller_sync ?env lab_world = Returned (err, w')" "w_timers w' \<noteq> w_timers lab_world"
    "lab_checks (check_args ?env (full_infra lab_config lab_infra) w4) = Returned ?rs"
    using lab_due_sync [OF foreign_csidriver_found lab_world_idle(1) d, where v = "''6.5.0''"] .
  obtain r where r: "vcenter_verdict ''6.5.0'' = Some r" "Action r = CheckActionBlockUpgradeOrDegrade"
    "CheckStatus r = CheckStatusDeprecatedVCenter"
    using lab_verdicts(2) by blast
  obtain e where rs: "?rs = [makeFoundExistingDriverResult e, r, MakeClusterCheckResultPass]"
    by (simp add: lab_results_def r(1) CheckExistingDriver_Check_def example_api_def
        foreign_csidriver_def openshift_annotated_def example_args_def)
  have "Action (makeFoundExistingDriverResult e) = CheckActionBlockUpgradeDriverInstall"
    "CheckStatus (makeFoundExistingDriverResult e) = CheckStatusExistingDriverFound"
    by (simp_all add: makeFoundExistingDriverResult_def)
  then have rest: "\<forall>x \<in> set ?rs. Action x \<noteq> CheckActionDegrade \<and> CheckStatus x \<noteq> CheckStatusVSphereConnectionFailed"
    using r by (simp add: rs check_simps)
  have "operandControllerStarted w' \<and> reads w' (name lab_world @ ''Disabled'') = None
     \<and> (\<exists>reason message. reads w' (name lab_world @ ''Upgradeable'') = Some (ConditionFalse, reason, message))"
    using foreign_driver_masked [OF lab_quiet lab_lawful lab_managed [OF foreign_csidriver_found]
        lab_world_idle(1) 1(1) lab_login_ok 1(2,3) _ _ _ r(2) rest, of e] rs 1(4)
    by (auto simp: lab_env_fields)
  with 1(2) show ?thesis by (simp add: lab_world_idle(4))
qed

text \<open>A world whose next check is not due for a while.\<close>

definition waiting_world :: "list_server World" where
  "waiting_world = lab_world\<lparr>vSphereChecker := newVSphereEnvironmentChecker 100\<rparr>"

lemma waiting_world_simps:
  "vSphereConnections waiting_world = []" "nextCheck (vSphereChecker waiting_world) = 100"
  "\<not> vCenterConnectionStatus waiting_world" "w_timers waiting_world = []" "w_status waiting_world = []"
  "name waiting_world = ''VMwareVSphereController''" "\<not> operandControllerStarted waiting_world"
  by (simp_all add: waiting_world_def lab_world_def newVSphereEnvironmentChecker_def)

theorem reconnect_runs_checks_witness:
  "\<exists>w' nextDelay. controller_sync (lab_env True no_csidriver ''7.0.3''
       [new_condition ''VMwareVSphereOperatorCheckDegraded'' ConditionTrue [] []] 0) waiting_world = Returned (None, w')
     \<and> w_timers w' = [nextDelay]"
proof -
  let ?st = "[new_condition ''VMwareVSphereOperatorCheckDegraded'' ConditionTrue [] []]"
  let ?env = "lab_env True no_csidriver ''7.0.3'' ?st 0"
  have st: "hasErrorConditions ?st"
    by (simp add: new_condition_def OperatorStatusTypeDegraded_def has_suffix_def)
  then have d: "nextCheck (vSphereChecker waiting_world) \<le> 0
      \<or> hasErrorConditions ?st \<and> \<not> vCenterConnectionStatus waiting_world"
    by (simp add: waiting_world_simps)
  obtain w4 err w' where 1: "logs_in ?env lab_infra lab_driver False lab_config waiting_world (lab_login_result True) w4"
    "controller_sync ?env waiting_world = Returned (err, w')" "w_timers w' \<noteq> w_timers waiting_world"
    using lab_due_sync [OF no_csidriver_absent waiting_world_simps(1) d, where v = "''7.0.3''"] .
  note m = lab_managed [OF no_csidriver_absent]
  have err: "err = None"
    using checked_sync [OF lab_quiet lab_lawful m waiting_world_simps(1) 1(1) lab_login_ok 1(2,3)] by auto
  have now: "env_now_reset ?env < env_now_guard ?env" by (simp add: lab_env_fields)
  from reconnect_runs_checks [OF lab_quiet m waiting_world_simps(1) 1(1) lab_login_ok
      1(2) [unfolded err] waiting_world_simps(3) st now] 1(2)
  show ?thesis by (auto simp: err waiting_world_simps)
qed

text \<open>Between the checks a sync writes the Secret and returns while the driver is stopped.\<close>

definition failing_world :: "list_server World" where
  "failing_world = lab_world\<lparr>w_status :=
     [new_condition ''VMwareVSphereOperatorCheckDegraded'' ConditionTrue [] [],
      new_condition ''VMwareVSphereControllerDisabled'' ConditionTrue [] []]\<rparr>"

theorem passing_sync_heals_witness:
  "\<exists>w'. controller_sync (lab_env True no_csidriver ''7.0.3'' (w_status failing_world) 0) failing_world = Returned (None, w')
     \<and> operandControllerStarted w' \<and> w_timers w' = [hour]
     \<and> reads w' ''VMwareVSphereControllerDisabled'' = None
     \<and> reads w' ''VMwareVSphereOperatorCheckDegraded'' = Some (ConditionFalse, [], [])"
proof -
  let ?env = "lab_env True no_csidriver ''7.0.3'' (w_status failing_world) 0"
  have w: "vSphereConnections failing_world = []" "nextCheck (vSphereChecker failing_world) \<le> 0"
    "name failing_world = ''VMwareVSphereController''" "w_timers failing_world = []"
    using lab_world_idle by (simp_all add: failing_world_def)
  then have d: "nextCheck (vSphereChecker failing_world) \<le> 0
      \<or> hasErrorConditions (w_status failing_world) \<and> \<not> vCenterConnectionStatus failing_world" by simp
  obtain w4 err w' where 1: "logs_in ?env lab_infra lab_driver False lab_config failing_world (lab_login_result True) w4"
    "controller_sync ?env failing_world = Returned (err, w')" "w_timers w' \<noteq> w_timers failing_world"
    "lab_checks (check_args ?env (full_infra lab_config lab_infra) w4) = Returned (lab_results no_csidriver ''7.0.3'')"
    using lab_due_sync [OF no_csidriver_absent w(1) d, where v = "''7.0.3''"] .
  have "err = None"
    using checked_sync [OF lab_quiet lab_lawful lab_managed [OF no_csidriver_absent] w(1) 1(1) lab_login_ok 1(2,3)]
    by blast
  with 1(2) have sync: "controller_sync ?env failing_world = Returned (None, w')" by simp
  have "env_checks ?env (check_args ?env (full_infra lab_config lab_infra) w4) = Returned (lab_results no_csidriver ''7.0.3'')"
    using 1(4) by (simp add: lab_env_fields)
  moreover have "\<forall>r \<in> set (lab_results no_csidriver ''7.0.3''). Action r = CheckActionPass"
    by (simp add: lab_results_def lab_verdicts CheckExistingDriver_Check_def checkForCSINode_def
        example_args_def example_api_def no_csidriver_def MakeClusterCheckResultPass_def)
  moreover have "nextCheck (vSphereChecker failing_world) < env_now_guard ?env" "env_now_reset ?env < env_now_guard ?env"
    using w(2) by (simp_all add: lab_env_def)
  ultimately show ?thesis
    using passing_sync_heals [OF lab_quiet lab_lawful lab_managed [OF no_csidriver_absent] w(1) 1(1) lab_login_ok sync]
      sync w(3,4)
    by simp
qed

lemma lab_waiting_sync:
  fixes w :: "list_server World"
  assumes "vSphereConnections w = []" and "\<not> operandControllerStarted w"
    and "\<not> hasErrorConditions st" and "0 < nextCheck (vSphereChecker w)"
  obtains w4 err w' where
    "logs_in (lab_env True no_csidriver v st 0) lab_infra lab_driver False lab_config w (lab_login_result True) w4"
    and "controller_sync (lab_env True no_csidriver v st 0) w = Returned (err, w')"
proof -
  let ?env = "lab_env True no_csidriver v st 0" and ?pass = "lab_login_result True"
  obtain w4 where l: "logs_in ?env lab_infra lab_driver False lab_config w ?pass w4"
    "vSphereConnections w4 = [lab_connection True v]"
    by (rule lab_login [OF assms(1)])
  obtain conns where w4: "vSphereChecker w4 = vSphereChecker w" "cloudConfig w4 = Some lab_config"
    "wf_result ?pass" "\<not> operandControllerStarted w4"
    using logs_in_world [OF l(1) assms(1)] assms(2) by metis
  let ?n = "note_connection ?env ?pass st w4"
  obtain w2 where s: "write_secret ?env (full_infra lab_config lab_infra) lab_driver ?n = Returned (None, w2)"
    by (rule lab_secret [of ?n v]) (simp_all add: note_connection_same lab_full_infra l(2) w4(2))
  note sec = write_secret_same [OF s]
  have "\<not> nextCheck (vSphereChecker w2) < env_now_guard ?env"
    using assms(3,4) w4(1) by (simp add: sec(8) note_connection_def lab_env_fields)
  then have "runClusterCheck ?env (full_infra lab_config lab_infra) w2 =
      Returned ((0, zero_result, False), w2\<lparr>vSphereChecker := vSphereChecker w2\<rparr>)"
    by (simp add: runClusterCheck_def Check_def)
  then have "installCSIDriver ?env (full_infra lab_config lab_infra) lab_driver ?pass st ?n = Returned ((False, None), w2)"
    by (simp add: installCSIDriver_def block_pass [OF w4(3) lab_login_ok] s)
  then have "sync_connected ?env (full_infra lab_config lab_infra) lab_driver ?pass st w4 = Returned (None, w2)"
    using w4(4) sec(2) by (simp add: sync_connected_def note_connection_same)
  then have "controller_sync ?env w = Returned (None, deferred_logout ?env w2)"
    using managed_sync_eq [OF lab_managed [OF no_csidriver_absent]] l(1) by (simp add: logs_in_def)
  with that l(1) show thesis by blast
qed

theorem reconnect_after_unknown_stale_witness:
  "\<exists>w1 e2 w2 m. controller_sync (lab_env False no_csidriver ''7.0.3'' [] 0) waiting_world = Returned (None, w1)
     \<and> controller_sync (lab_env True no_csidriver ''7.0.3'' (w_status w1) 0) w1 = Returned (e2, w2)
     \<and> reads w2 ''VMwareVSphereControllerDisabled'' = Some (ConditionTrue, [], m)"
proof -
  let ?env1 = "lab_env False no_csidriver ''7.0.3'' [] 0" and ?fail = "lab_login_result False"
  note m = lab_managed [OF no_csidriver_absent] and v = waiting_world_simps
  obtain w4 where l: "logs_in ?env1 lab_infra lab_driver False lab_config waiting_world ?fail w4"
    using lab_login [OF v(1)] by blast
  have bad: "CheckError ?fail \<noteq> None" "Action ?fail \<noteq> CheckActionDegrade"
    by (simp_all add: lab_login_result_def)
  have fine: "others_fine waiting_world" by (simp add: others_fine_def v lookup_condition_def FindOperatorCondition_def)
  obtain w1 r where w1: "controller_sync ?env1 waiting_world = Returned (None, w1)"
    "vSphereChecker w1 = vSphereChecker waiting_world" "vSphereConnections w1 = []"
    "\<not> operandControllerStarted w1" "distinct_types (w_status w1)"
    and reads: "\<And>t. reads w1 t = says (name waiting_world) False ClusterCheckUpgradeStateUnknown r (reads waiting_world) t"
    using failed_login_sync [OF lab_quiet m v(1) l bad(1)] bad(2) v(5,7) by auto
  have quiet: "\<not> hasErrorConditions (w_status w1)"
    by (rule no_error_reads [OF w1(5)]) (use reads unknown_is_no_error [OF fine] in metis)
  have "0 < nextCheck (vSphereChecker w1)" by (simp add: w1(2) v)
  then obtain w6 e2 w2 where 2: "logs_in (lab_env True no_csidriver ''7.0.3'' (w_status w1) 0) lab_infra lab_driver False
      lab_config w1 (lab_login_result True) w6"
    "controller_sync (lab_env True no_csidriver ''7.0.3'' (w_status w1) 0) w1 = Returned (e2, w2)"
    using lab_waiting_sync [OF w1(3,4) quiet, where v = "''7.0.3''"] by blast
  have due: "env_now_guard (lab_env True no_csidriver ''7.0.3'' (w_status w1) 0) \<le> nextCheck (vSphereChecker w1)"
    by (simp add: w1(2) v lab_env_fields)
  have "distinct_types (w_status waiting_world)" by (simp add: v)
  from reconnect_after_unknown_stale [OF lab_quiet m v(1) l bad fine w1(1) this lab_quiet m 2(1)
      lab_login_ok due 2(2)] w1(1) 2(2) v(7)
  show ?thesis by (auto simp: v(6) simp del: map_option_eq_Some)
qed

lemma block_status:
  "cluster_status (getCheckAPIDependency good_env lab_infra)
     (MakeClusterUnupgradeableError CheckStatusDeprecatedVCenter (Failure ''old'')) = ClusterCheckBlockUpgrade"
  unfolding cluster_status_managed [OF lab_managed [OF no_csidriver_absent]] by (simp add: check_simps)

theorem blocked_upgrade_warns_twice_witness:
  "\<exists>w' warning. after_checks good_env lab_infra [] False 60
       (MakeClusterUnupgradeableError CheckStatusDeprecatedVCenter (Failure ''old'')) lab_world =
       Returned ((False, None), w')
     \<and> w_events w' = [warning, warning]"
proof -
  let ?r = "MakeClusterUnupgradeableError CheckStatusDeprecatedVCenter (Failure ''old'')"
  have wf: "wf_result ?r" by simp
  obtain block err w' where a: "after_checks good_env lab_infra [] False 60 ?r lab_world = Returned ((block, err), w')"
    using after_checks_returns [OF wf] .
  then have a': "after_checks good_env lab_infra [] False 60 ?r lab_world = Returned ((False, None), w')"
    using after_checks_verdict [OF lab_quiet wf a] block_status by (metis blocks_install.simps(2))
  have "map_option said (lookup_condition [] (name lab_world @ ''Upgradeable'')) \<noteq>
      Some (ConditionFalse, status_string (CheckStatus ?r), Reason ?r)"
    by (simp add: lookup_condition_def FindOperatorCondition_def)
  from blocked_upgrade_warns_twice [OF wf block_status this a'] a'
  show ?thesis by (simp add: lab_world_def)
qed

theorem unmanaged_sync_witness:
  "\<exists>env err w'. controller_sync env lab_world = Returned (err, w')
     \<and> w_removed w' = assetsToBeDeleted \<and> w_updates w' = 1"
proof -
  let ?env = "good_env\<lparr>env_state := Inr (\<lparr>Spec_ManagementState = Removed, Spec_LogLevel = Normal, Spec_ObservedConfig = []\<rparr>, [])\<rparr>"
  have e: "env_state ?env = Inr (\<lparr>Spec_ManagementState = Removed, Spec_LogLevel = Normal, Spec_ObservedConfig = []\<rparr>, [])"
    "env_infras ?env infraGlobalName = Inr lab_infra"
    "PlatformStatus_Type lab_infra \<noteq> Some VSpherePlatformType
       \<or> Spec_ManagementState \<lparr>Spec_ManagementState = Removed, Spec_LogLevel = Normal, Spec_ObservedConfig = []\<rparr> \<noteq> Managed"
    "PlatformStatus_Type lab_infra = Some VSpherePlatformType"
    by (simp_all add: lab_env_def lab_infra_def example_infra_def VSpherePlatformType_def)
  obtain err w' where r: "removeOperands ?env [] lab_world = (err, w')" by fastforce
  have ok: "env_deleteAsset ?env a = None" "fst (SyncRemove (env_sc ?env)) = None" for a
    by (simp_all add: lab_env_def SyncRemove_def example_env_def)
  from unmanaged_sync [OF e(1,2,3), of lab_world] r ok e(4)
  have "controller_sync ?env lab_world = Returned (err, w')" "w_removed w' = assetsToBeDeleted"
    "w_updates w' = 1"
    by (simp_all add: lab_world_def)
  then show ?thesis by blast
qed

end
