(* ===== verification/Operand_Hooks.thy ===== *)
theory Operand_Hooks
  imports Driver_Starter
begin

text \<open>
  The operands as \<open>createCSIDriver\<close> composes them: the hooks of \<open>driver_starter.go\<close> and those of library-go
  (\<open>csidrivercontrollerservicecontroller\<close>, \<open>csidrivernodeservicecontroller\<close>, \<open>v1helpers\<close>) in the order
  in which they change the Deployment and the DaemonSet. The manifests as they are read after
  their placeholders have been replaced, the YAML parser of the observed configuration and the hash
  functions are parameters.
\<close>

subsection \<open>The hooks of library-go\<close>

text \<open>
  What the hooks find. \<open>oe_unmarshal\<close> parses the observed configuration; the parsed document is the
  function that looks a nested string map up in it, as \<open>unstructured.NestedStringMap\<close> does.
\<close>

record OperandEnv =
  oe_infras :: "string \<Rightarrow> Infrastructure result"
  oe_drivers :: "string \<Rightarrow> ClusterCSIDriver result"
  oe_secrets :: SecretLister
  oe_configMaps :: SecretLister
  oe_environ :: "string \<rightharpoonup> string"
  oe_unmarshal :: "string \<Rightarrow> (string list \<Rightarrow> (string, string) go_map option result) result"
  oe_sha256_hex :: "string \<Rightarrow> string"
  oe_hash :: "(string \<rightharpoonup> string) \<Rightarrow> string" \<comment> \<open>of the data of a Secret or ConfigMap\<close>
  oe_gates :: FeatureGate
  oe_deployment :: "OperatorSpec \<Rightarrow> Workload result"
  oe_daemonSet :: "OperatorSpec \<Rightarrow> Workload result"

type_synonym hook = "OperatorSpec \<Rightarrow> Workload \<Rightarrow> Workload result"

definition annotation :: "Workload \<Rightarrow> string \<Rightarrow> string" where
  "annotation w k = (case made_map (wl_Annotations w) k of None \<Rightarrow> [] | Some v \<Rightarrow> v)"

definition on_all :: "(Container \<Rightarrow> Container) \<Rightarrow> Workload \<Rightarrow> Workload" where
  "on_all f w = w\<lparr>InitContainers := map f (InitContainers w), Containers := map f (Containers w)\<rparr>"

definition named :: "string \<Rightarrow> (Container \<Rightarrow> Container) \<Rightarrow> Container \<Rightarrow> Container" where
  "named n f c = (if ct_Name c = n then f c else c)"

text \<open>The loop over the names of an annotation, which may list a name twice.\<close>

definition for_names :: "string list \<Rightarrow> (Container \<Rightarrow> Container) \<Rightarrow> Workload \<Rightarrow> Workload" where
  "for_names names f = fold (\<lambda>n. on_all (named n f)) names"

definition MapToEnvVars :: "(string, string) go_map option \<Rightarrow> EnvVar list" where
  "MapToEnvVars m =
     (case m of None \<Rightarrow> [] | Some vars \<Rightarrow> map (\<lambda>k. plain_var k (the (map_of vars k))) (sort (keys vars)))"

definition ProxyConfigPath :: "string list" where
  "ProxyConfigPath = [''targetcsiconfig'', ''proxy'']"

definition InjectObservedProxyIntoContainers ::
  "(string \<Rightarrow> (string list \<Rightarrow> (string, string) go_map option result) result) \<Rightarrow> string list \<Rightarrow> string
     \<Rightarrow> string list \<Rightarrow> Workload \<Rightarrow> Workload result" where
  "InjectObservedProxyIntoContainers unmarshal containerNames observedConfig path w =
     rbind (map_err (\<lambda>m. ''failed to unmarshal the observedConfig: '' @ m) (unmarshal observedConfig)) (\<lambda>config.
     rbind (map_err (\<lambda>m. ''couldn't get the proxy config from observedConfig: '' @ m) (config path)) (\<lambda>proxyConfig.
       let proxyEnvVars = MapToEnvVars proxyConfig
       in Inr (if proxyConfig = None \<or> length proxyEnvVars < 1 then w
               else for_names containerNames (\<lambda>c. c\<lparr>ct_Env := ct_Env c @ proxyEnvVars\<rparr>) w)))"

definition InjectTrustedCAIntoContainers :: "string \<Rightarrow> string list \<Rightarrow> Workload \<Rightarrow> Workload" where
  "InjectTrustedCAIntoContainers configMapName containerNames w =
     for_names containerNames
       (\<lambda>c. c\<lparr>ct_VolumeMounts := ct_VolumeMounts c @
          [(''non-standard-root-system-trust-ca-bundle'', ''/etc/pki/ca-trust/extracted/pem'')]\<rparr>)
       (w\<lparr>tpl_Volumes := tpl_Volumes w @ [(''non-standard-root-system-trust-ca-bundle'', configMapName)]\<rparr>)"

text \<open>The hooks of the Deployment and of the DaemonSet have the same bodies.\<close>

definition WithObservedProxyHook :: "OperandEnv \<Rightarrow> hook" where
  "WithObservedProxyHook env opSpec w =
     InjectObservedProxyIntoContainers (oe_unmarshal env)
       (split_on (CHR '','') (annotation w ''config.openshift.io/inject-proxy''))
       (Spec_ObservedConfig opSpec) ProxyConfigPath w"

definition WithCABundleHook :: "OperandEnv \<Rightarrow> string \<Rightarrow> string \<Rightarrow> hook" where
  "WithCABundleHook env configMapNamespace configMapName opSpec w =
     (case oe_configMaps env configMapNamespace configMapName of
        Inl err \<Rightarrow>
          if is_not_found err then Inr w
          else Inl (Failure (''failed to get ConfigMap '' @ configMapNamespace @ ''/'' @ configMapName @ '': ''
                 @ err_msg err))
      | Inr data \<Rightarrow>
          if data ''ca-bundle.crt'' = None then Inr w
          else
            (let containerNames = split_on (CHR '','') (annotation w ''config.openshift.io/inject-proxy-cabundle'');
                 w1 = InjectTrustedCAIntoContainers configMapName containerNames w
             in addObjectHash (oe_sha256_hex env) (Some w1)
                  [(configMapNamespace @ ''.'' @ configMapName @ ''.'' @ ''configmap'', oe_hash env data)]))"

definition WithSecretHashAnnotationHook :: "OperandEnv \<Rightarrow> string \<Rightarrow> string \<Rightarrow> hook" where
  "WithSecretHashAnnotationHook env namespace secretName opSpec w =
     (case secret_hashes (oe_hash env) (oe_secrets env) namespace secretName of
        Inl err \<Rightarrow> Inl (Failure (''invalid dependency reference: '' @ err_msg err))
      | Inr inputHashes \<Rightarrow> addObjectHash (oe_sha256_hex env) (Some w) inputHashes)"

definition WithReplicasHook :: "OperandEnv \<Rightarrow> hook" where
  "WithReplicasHook env opSpec w =
     rbind (oe_infras env InfraGlobalName) (\<lambda>infra.
       Inr (w\<lparr>wl_Replicas := Some (if ControlPlaneTopology infra = ''HighlyAvailable'' then 2 else 1)\<rparr>))"

definition WithControlPlaneTopologyHook :: "OperandEnv \<Rightarrow> hook" where
  "WithControlPlaneTopologyHook env opSpec w =
     rbind (oe_infras env InfraGlobalName) (\<lambda>infra.
       Inr (if ControlPlaneTopology infra = ''External'' then w\<lparr>NodeSelector := Map.empty\<rparr> else w))"

subsection \<open>The chains\<close>

definition metricsCertSecretName :: string where
  "metricsCertSecretName = ''vmware-vsphere-csi-driver-controller-metrics-serving-cert''"

definition trustedCAConfigMap :: string where
  "trustedCAConfigMap = ''vmware-vsphere-csi-driver-trusted-ca-bundle''"

definition driverConfigSecretName :: string where
  "driverConfigSecretName = ''vsphere-csi-config-secret''"

definition controller_hooks :: "OperandEnv \<Rightarrow> hook list" where
  "controller_hooks env =
     [WithControlPlaneTopologyHook env,
      \<lambda>opSpec. WithSyncerImageHook (oe_environ env) ''vsphere-syncer'',
      WithLogLevelDeploymentHook,
      \<lambda>opSpec. topologyHook (oe_drivers env) (oe_infras env),
      WithObservedProxyHook env,
      WithCABundleHook env defaultNamespace trustedCAConfigMap,
      WithSecretHashAnnotationHook env defaultNamespace metricsCertSecretName,
      WithSecretHashAnnotationHook env defaultNamespace driverConfigSecretName,
      WithReplicasHook env]"

definition node_hooks :: "OperandEnv \<Rightarrow> hook list" where
  "node_hooks env =
     [WithLogLevelDaemonSetHook,
      WithObservedProxyHook env,
      WithCABundleHook env defaultNamespace trustedCAConfigMap,
      \<lambda>opSpec. WithSecretDaemonSetAnnotationHook (oe_sha256_hex env) (oe_hash env)
        driverConfigSecretName defaultNamespace (oe_secrets env),
      \<lambda>opSpec. WithMaxVolumesPerNodeDaemonSetHook (oe_drivers env) (oe_gates env)]"

text \<open>The loop over the hooks; the first error ends it and names the position of its hook.\<close>

fun run_hooks :: "int \<Rightarrow> hook list \<Rightarrow> OperatorSpec \<Rightarrow> Workload \<Rightarrow> Workload result" where
  "run_hooks i [] opSpec w = Inr w"
| "run_hooks i (h # hs) opSpec w =
     rbind (map_err (\<lambda>m. ''error running hook function (index='' @ format_int i @ ''): '' @ m) (h opSpec w))
       (run_hooks (i + 1) hs opSpec)"

definition getDeployment :: "OperandEnv \<Rightarrow> OperatorSpec \<Rightarrow> Workload result" where
  "getDeployment env opSpec = rbind (oe_deployment env opSpec) (run_hooks 0 (controller_hooks env) opSpec)"

definition getDaemonSet :: "OperandEnv \<Rightarrow> OperatorSpec \<Rightarrow> Workload result" where
  "getDaemonSet env opSpec = rbind (oe_daemonSet env opSpec) (run_hooks 0 (node_hooks env) opSpec)"

subsection \<open>When the operands can be built\<close>

lemma run_hooks_Inr:
  "run_hooks i [h] opSpec w = Inr d \<longleftrightarrow> h opSpec w = Inr d"
  "run_hooks i (h # h' # hs) opSpec w = Inr d \<longleftrightarrow>
     (\<exists>w1. h opSpec w = Inr w1 \<and> run_hooks (i + 1) (h' # hs) opSpec w1 = Inr d)"
  by (cases "h opSpec w"; simp)+

lemma run_hooks_append:
  "run_hooks i (hs @ hs') opSpec w = rbind (run_hooks i hs opSpec w) (run_hooks (i + int (length hs)) hs' opSpec)"
proof (induction hs arbitrary: i w)
  case (Cons h hs)
  show ?case by (cases "h opSpec w") (simp_all add: Cons.IH add.assoc)
qed simp

text \<open>An object that a hook may miss, but whose lookup may not fail for another reason.\<close>

fun tolerable :: "'a result \<Rightarrow> bool" where
  "tolerable (Inl e) = is_not_found e"
| "tolerable (Inr x) = True"

fun readable :: "'a result \<Rightarrow> bool" where
  "readable (Inl e) = False"
| "readable (Inr x) = True"

lemma readable_iff: "readable r \<longleftrightarrow> (\<exists>x. r = Inr x)"
  by (cases r) auto

lemma readable_rbind: "readable (rbind r f) \<longleftrightarrow> (\<exists>x. r = Inr x \<and> readable (f x))"
  by (cases r) auto

lemma readable_map_err [simp]: "readable (map_err f r) \<longleftrightarrow> readable r"
  by (cases r) auto

lemma run_hooks_Cons_readable:
  "readable (run_hooks i (h # hs) opSpec w) \<longleftrightarrow> (\<exists>w1. h opSpec w = Inr w1 \<and> readable (run_hooks (i + 1) hs opSpec w1))"
  by (cases "h opSpec w") auto

text \<open>Each hook returns or fails whatever the workload is.\<close>

definition proxy_config :: "OperandEnv \<Rightarrow> OperatorSpec \<Rightarrow> (string, string) go_map option result" where
  "proxy_config env opSpec = rbind (oe_unmarshal env (Spec_ObservedConfig opSpec)) (\<lambda>config. config ProxyConfigPath)"

lemma hooks_return:
  "readable (WithControlPlaneTopologyHook env opSpec w) \<longleftrightarrow> readable (oe_infras env InfraGlobalName)"
  "readable (WithSyncerImageHook environ n w)"
  "readable (WithLogLevelDeploymentHook opSpec w)" "readable (WithLogLevelDaemonSetHook opSpec w)"
  "readable (topologyHook drivers infras w) \<longleftrightarrow> readable (drivers VSphereDriverName) \<and> readable (infras InfraGlobalName)"
  "readable (WithObservedProxyHook env opSpec w) \<longleftrightarrow> readable (proxy_config env opSpec)"
  "readable (WithCABundleHook env ns n opSpec w) \<longleftrightarrow> tolerable (oe_configMaps env ns n)"
  "readable (WithSecretHashAnnotationHook env ns n opSpec w) \<longleftrightarrow> tolerable (oe_secrets env ns n)"
  "readable (WithReplicasHook env opSpec w) \<longleftrightarrow> readable (oe_infras env InfraGlobalName)"
  "readable (WithSecretDaemonSetAnnotationHook sha hash n ns secrets w) \<longleftrightarrow> tolerable (secrets ns n)"
  "readable (WithMaxVolumesPerNodeDaemonSetHook drivers fg w) \<longleftrightarrow>
     (gate_enabled fg FeatureGateVSphereConfigurableMaxAllowedBlockVolumesPerNode \<longrightarrow> readable (drivers VSphereDriverName))"
proof -
  show "readable (topologyHook drivers infras w) \<longleftrightarrow> readable (drivers VSphereDriverName) \<and> readable (infras InfraGlobalName)"
    by (cases "drivers VSphereDriverName"; cases "infras InfraGlobalName") (simp_all add: topologyHook_def)
  show "readable (WithObservedProxyHook env opSpec w) \<longleftrightarrow> readable (proxy_config env opSpec)"
  proof (cases "oe_unmarshal env (Spec_ObservedConfig opSpec)")
    case (Inr config)
    then show ?thesis
      by (cases "config ProxyConfigPath")
        (simp_all add: WithObservedProxyHook_def InjectObservedProxyIntoContainers_def proxy_config_def Let_def)
  qed (simp add: WithObservedProxyHook_def InjectObservedProxyIntoContainers_def proxy_config_def)
  show "readable (WithCABundleHook env ns n opSpec w) \<longleftrightarrow> tolerable (oe_configMaps env ns n)"
    by (cases "oe_configMaps env ns n")
      (auto simp: WithCABundleHook_def addObjectHash_def readable_iff Let_def split: prod.split)
  show "readable (WithSecretHashAnnotationHook env ns n opSpec w) \<longleftrightarrow> tolerable (oe_secrets env ns n)"
    by (cases "oe_secrets env ns n")
      (auto simp: WithSecretHashAnnotationHook_def secret_hashes_def addObjectHash_def split: prod.split)
  show "readable (WithSecretDaemonSetAnnotationHook sha hash n ns secrets w) \<longleftrightarrow> tolerable (secrets ns n)"
    by (cases "secrets ns n")
      (auto simp: WithSecretDaemonSetAnnotationHook_def secret_hashes_def addObjectHash_def split: prod.split)
  show "readable (WithMaxVolumesPerNodeDaemonSetHook drivers fg w) \<longleftrightarrow>
     (gate_enabled fg FeatureGateVSphereConfigurableMaxAllowedBlockVolumesPerNode \<longrightarrow> readable (drivers VSphereDriverName))"
    by (cases "drivers VSphereDriverName") (simp_all add: WithMaxVolumesPerNodeDaemonSetHook_def Let_def)
  show "readable (WithControlPlaneTopologyHook env opSpec w) \<longleftrightarrow> readable (oe_infras env InfraGlobalName)"
    "readable (WithReplicasHook env opSpec w) \<longleftrightarrow> readable (oe_infras env InfraGlobalName)"
    by (cases "oe_infras env InfraGlobalName"; simp add: WithControlPlaneTopologyHook_def WithReplicasHook_def)+
qed (simp_all add: WithSyncerImageHook_def WithLogLevelDeploymentHook_def WithLogLevelDaemonSetHook_def)

text \<open>A chain of hooks whose success does not depend on the workload.\<close>

lemma run_hooks_readable:
  assumes "list_all2 (\<lambda>h ok. \<forall>w. readable (h opSpec w) \<longleftrightarrow> ok) hs oks"
  shows "readable (run_hooks i hs opSpec w) \<longleftrightarrow> list_all id oks"
  using assms
proof (induction hs oks arbitrary: i w rule: list_all2_induct)
  case (Cons h hs ok oks)
  show ?case
  proof (cases "h opSpec w")
    case (Inl e)
    with Cons(1) have "\<not> ok" by (metis readable.simps(1))
    with Inl show ?thesis by simp
  next
    case (Inr w1)
    with Cons(1) have ok by (metis readable.simps(2))
    with Inr Cons(3) show ?thesis by simp
  qed
qed simp

text \<open>
  Where a chain of hooks fails: the hooks before position \<open>i\<close> ran, the one at \<open>i\<close> returned an error
  on what they made, and the error of the chain carries \<open>i\<close> and the text of that error.
\<close>

definition fails_at :: "hook list \<Rightarrow> OperatorSpec \<Rightarrow> Workload \<Rightarrow> nat \<Rightarrow> go_error \<Rightarrow> bool" where
  "fails_at hs opSpec w i e \<longleftrightarrow> i < length hs
     \<and> (\<exists>w1 err. run_hooks 0 (take i hs) opSpec w = Inr w1 \<and> (hs ! i) opSpec w1 = Inl err
         \<and> e = Failure (''error running hook function (index='' @ format_int (int i) @ ''): '' @ err_msg err))"

lemma run_hooks_error_at:
  "run_hooks k hs opSpec w = Inl e \<Longrightarrow> \<exists>i < length hs. \<exists>w1 err. run_hooks k (take i hs) opSpec w = Inr w1
     \<and> (hs ! i) opSpec w1 = Inl err
     \<and> e = Failure (''error running hook function (index='' @ format_int (k + int i) @ ''): '' @ err_msg err)"
proof (induction hs arbitrary: k w)
  case (Cons h hs)
  show ?case
  proof (cases "h opSpec w")
    case (Inl err)
    with Cons.prems show ?thesis by (intro exI [of _ 0]) simp
  next
    case (Inr w1)
    with Cons.prems have "run_hooks (k + 1) hs opSpec w1 = Inl e" by simp
    from Cons.IH [OF this] obtain i w2 err where i: "i < length hs"
      "run_hooks (k + 1) (take i hs) opSpec w1 = Inr w2" "(hs ! i) opSpec w2 = Inl err"
      "e = Failure (''error running hook function (index='' @ format_int (k + 1 + int i) @ ''): '' @ err_msg err)"
      by blast
    then show ?thesis using Inr by (intro exI [of _ "Suc i"]) (simp add: algebra_simps)
  qed
qed simp

lemma run_hooks_fails_at:
  assumes "list_all2 (\<lambda>h ok. \<forall>w. readable (h opSpec w) \<longleftrightarrow> ok) hs oks"
    and "run_hooks 0 hs opSpec w = Inl e"
  shows "fails_at hs opSpec w (length (takeWhile id oks)) e"
proof -
  obtain i w1 err where i: "i < length hs" "run_hooks 0 (take i hs) opSpec w = Inr w1"
    "(hs ! i) opSpec w1 = Inl err"
    "e = Failure (''error running hook function (index='' @ format_int (0 + int i) @ ''): '' @ err_msg err)"
    using run_hooks_error_at [OF assms(2)] by blast
  have len: "length oks = length hs" using list_all2_lengthD [OF assms(1)] by simp
  have "list_all2 (\<lambda>h ok. \<forall>w. readable (h opSpec w) \<longleftrightarrow> ok) (take i hs) (take i oks)"
    by (rule list_all2_takeI [OF assms(1)])
  from run_hooks_readable [OF this, of 0 w] i(2) have "list_all id (take i oks)" by simp
  then have "takeWhile id (take i oks) = take i oks" by (simp add: list_all_iff)
  moreover have "\<not> oks ! i"
    using list_all2_nthD [OF assms(1) i(1)] i(3) by (metis readable.simps(1))
  ultimately have "takeWhile id (take i oks @ oks ! i # drop (Suc i) oks) = take i oks"
    by (simp add: takeWhile_tail)
  then have "length (takeWhile id oks) = i"
    using i(1) len by (simp add: id_take_nth_drop [symmetric])
  with i show ?thesis by (auto simp: fails_at_def)
qed

text \<open>What the hooks of each operand need to read.\<close>

definition deployment_inputs :: "OperandEnv \<Rightarrow> OperatorSpec \<Rightarrow> bool" where
  "deployment_inputs env opSpec \<longleftrightarrow>
     readable (oe_infras env InfraGlobalName) \<and> readable (oe_drivers env VSphereDriverName)
     \<and> readable (proxy_config env opSpec)
     \<and> tolerable (oe_configMaps env defaultNamespace trustedCAConfigMap)
     \<and> tolerable (oe_secrets env defaultNamespace metricsCertSecretName)
     \<and> tolerable (oe_secrets env defaultNamespace driverConfigSecretName)"

definition daemonset_inputs :: "OperandEnv \<Rightarrow> OperatorSpec \<Rightarrow> bool" where
  "daemonset_inputs env opSpec \<longleftrightarrow>
     readable (proxy_config env opSpec)
     \<and> tolerable (oe_configMaps env defaultNamespace trustedCAConfigMap)
     \<and> tolerable (oe_secrets env defaultNamespace driverConfigSecretName)
     \<and> (gate_enabled (oe_gates env) FeatureGateVSphereConfigurableMaxAllowedBlockVolumesPerNode
          \<longrightarrow> readable (oe_drivers env VSphereDriverName))"

definition deployment_reads :: "OperandEnv \<Rightarrow> OperatorSpec \<Rightarrow> bool list" where
  "deployment_reads env opSpec =
     [readable (oe_infras env InfraGlobalName), True, True,
      readable (oe_drivers env VSphereDriverName) \<and> readable (oe_infras env InfraGlobalName),
      readable (proxy_config env opSpec), tolerable (oe_configMaps env defaultNamespace trustedCAConfigMap),
      tolerable (oe_secrets env defaultNamespace metricsCertSecretName),
      tolerable (oe_secrets env defaultNamespace driverConfigSecretName), readable (oe_infras env InfraGlobalName)]"

definition daemonset_reads :: "OperandEnv \<Rightarrow> OperatorSpec \<Rightarrow> bool list" where
  "daemonset_reads env opSpec =
     [True, readable (proxy_config env opSpec),
      tolerable (oe_configMaps env defaultNamespace trustedCAConfigMap),
      tolerable (oe_secrets env defaultNamespace driverConfigSecretName),
      gate_enabled (oe_gates env) FeatureGateVSphereConfigurableMaxAllowedBlockVolumesPerNode
         \<longrightarrow> readable (oe_drivers env VSphereDriverName)]"

lemma operand_reads:
  "list_all2 (\<lambda>h ok. \<forall>w. readable (h opSpec w) \<longleftrightarrow> ok) (controller_hooks env) (deployment_reads env opSpec)"
  "list_all2 (\<lambda>h ok. \<forall>w. readable (h opSpec w) \<longleftrightarrow> ok) (node_hooks env) (daemonset_reads env opSpec)"
  by (simp_all add: controller_hooks_def node_hooks_def deployment_reads_def daemonset_reads_def hooks_return)

lemma operands_readable:
  "readable (run_hooks 0 (controller_hooks env) opSpec m) \<longleftrightarrow> deployment_inputs env opSpec"
  "readable (run_hooks 0 (node_hooks env) opSpec n) \<longleftrightarrow> daemonset_inputs env opSpec"
  using run_hooks_readable [OF operand_reads(1), of 0 env opSpec m]
    run_hooks_readable [OF operand_reads(2), of 0 env opSpec n]
  by (auto simp: deployment_inputs_def daemonset_inputs_def deployment_reads_def daemonset_reads_def)

text \<open>
  C27: when the operands can be built. The Deployment needs the Infrastructure object, the
  ClusterCSIDriver and an observed configuration that parses; a trusted CA bundle or a Secret may be
  missing, but not unreadable. The DaemonSet does not look at the Infrastructure object, and at the
  ClusterCSIDriver only when the feature gate of the volume limit is on. A failing hook leaves
  nothing to apply, the hooks before it ran, and the error names its position in the list of its
  operand and carries its own error: for the Deployment 0 without the Infrastructure object, else 3
  without the ClusterCSIDriver, 4 for the observed configuration, 5 for the CA bundle, 6 and 7 for
  the two Secrets; for the DaemonSet 1 for the configuration, 2 for the bundle, 3 for the Secret, 4
  for the volume limit.
\<close>
theorem operands_built_iff:
  assumes "oe_deployment env opSpec = Inr m" and "oe_daemonSet env opSpec = Inr n"
  shows "((\<exists>d. getDeployment env opSpec = Inr d) \<longleftrightarrow>
        readable (oe_infras env InfraGlobalName) \<and> readable (oe_drivers env VSphereDriverName)
        \<and> readable (proxy_config env opSpec)
        \<and> tolerable (oe_configMaps env defaultNamespace trustedCAConfigMap)
        \<and> tolerable (oe_secrets env defaultNamespace metricsCertSecretName)
        \<and> tolerable (oe_secrets env defaultNamespace driverConfigSecretName))
    \<and> ((\<exists>d. getDaemonSet env opSpec = Inr d) \<longleftrightarrow>
        readable (proxy_config env opSpec)
        \<and> tolerable (oe_configMaps env defaultNamespace trustedCAConfigMap)
        \<and> tolerable (oe_secrets env defaultNamespace driverConfigSecretName)
        \<and> (gate_enabled (oe_gates env) FeatureGateVSphereConfigurableMaxAllowedBlockVolumesPerNode
             \<longrightarrow> readable (oe_drivers env VSphereDriverName)))
    \<and> (\<forall>e. getDeployment env opSpec = Inl e \<longrightarrow> fails_at (controller_hooks env) opSpec m
          (if \<not> readable (oe_infras env InfraGlobalName) then 0
           else if \<not> readable (oe_drivers env VSphereDriverName) then 3
           else if \<not> readable (proxy_config env opSpec) then 4
           else if \<not> tolerable (oe_configMaps env defaultNamespace trustedCAConfigMap) then 5
           else if \<not> tolerable (oe_secrets env defaultNamespace metricsCertSecretName) then 6 else 7) e)
    \<and> (\<forall>e. getDaemonSet env opSpec = Inl e \<longrightarrow> fails_at (node_hooks env) opSpec n
          (if \<not> readable (proxy_config env opSpec) then 1
           else if \<not> tolerable (oe_configMaps env defaultNamespace trustedCAConfigMap) then 2
           else if \<not> tolerable (oe_secrets env defaultNamespace driverConfigSecretName) then 3 else 4) e)"
proof -
  have dep: "getDeployment env opSpec = run_hooks 0 (controller_hooks env) opSpec m"
    and dae: "getDaemonSet env opSpec = run_hooks 0 (node_hooks env) opSpec n"
    using assms by (simp_all add: getDeployment_def getDaemonSet_def)
  note built = operands_readable(1) [of env opSpec m, folded dep]
    operands_readable(2) [of env opSpec n, folded dae]
  have at: "length (takeWhile id (deployment_reads env opSpec)) =
      (if \<not> readable (oe_infras env InfraGlobalName) then 0
       else if \<not> readable (oe_drivers env VSphereDriverName) then 3
       else if \<not> readable (proxy_config env opSpec) then 4
       else if \<not> tolerable (oe_configMaps env defaultNamespace trustedCAConfigMap) then 5
       else if \<not> tolerable (oe_secrets env defaultNamespace metricsCertSecretName) then 6 else 7)"
    if "\<not> deployment_inputs env opSpec"
    using that by (auto simp: deployment_inputs_def deployment_reads_def)
  have d: "fails_at (controller_hooks env) opSpec m
      (if \<not> readable (oe_infras env InfraGlobalName) then 0
       else if \<not> readable (oe_drivers env VSphereDriverName) then 3
       else if \<not> readable (proxy_config env opSpec) then 4
       else if \<not> tolerable (oe_configMaps env defaultNamespace trustedCAConfigMap) then 5
       else if \<not> tolerable (oe_secrets env defaultNamespace metricsCertSecretName) then 6 else 7) e"
    if "getDeployment env opSpec = Inl e" for e
  proof -
    have "\<not> deployment_inputs env opSpec" using that built(1) by simp
    note at_this = at [OF this]
    from run_hooks_fails_at [OF operand_reads(1) that [unfolded dep]] show ?thesis
      unfolding at_this .
  qed
  have node_at: "length (takeWhile id (daemonset_reads env opSpec)) =
      (if \<not> readable (proxy_config env opSpec) then 1
       else if \<not> tolerable (oe_configMaps env defaultNamespace trustedCAConfigMap) then 2
       else if \<not> tolerable (oe_secrets env defaultNamespace driverConfigSecretName) then 3 else 4)"
    if "\<not> daemonset_inputs env opSpec"
    using that by (auto simp: daemonset_inputs_def daemonset_reads_def)
  have n: "fails_at (node_hooks env) opSpec n
      (if \<not> readable (proxy_config env opSpec) then 1
       else if \<not> tolerable (oe_configMaps env defaultNamespace trustedCAConfigMap) then 2
       else if \<not> tolerable (oe_secrets env defaultNamespace driverConfigSecretName) then 3 else 4) e"
    if "getDaemonSet env opSpec = Inl e" for e
  proof -
    have "\<not> daemonset_inputs env opSpec" using that built(2) by simp
    note at_this = node_at [OF this]
    from run_hooks_fails_at [OF operand_reads(2) that [unfolded dae]] show ?thesis
      unfolding at_this .
  qed
  show ?thesis
    using built d n by (simp add: readable_iff [symmetric] deployment_inputs_def daemonset_inputs_def)
qed

subsection \<open>Rollout of a changed configuration\<close>

definition config_key :: "OperandEnv \<Rightarrow> string" where
  "config_key env = annotation_key (oe_sha256_hex env)
     (defaultNamespace @ ''.'' @ driverConfigSecretName @ ''.'' @ ''secret'')"

definition template_note :: "Workload \<Rightarrow> string \<Rightarrow> string option" where
  "template_note w k = made_map (tpl_Annotations w) k"

lemma template_note_eq: "tpl_Annotations w = tpl_Annotations w' \<Longrightarrow> template_note w k = template_note w' k"
  by (simp add: template_note_def)

lemma secret_hook_note:
  assumes "WithSecretHashAnnotationHook env defaultNamespace driverConfigSecretName opSpec w = Inr w'"
    and "oe_secrets env defaultNamespace driverConfigSecretName = Inr data"
  shows "template_note w' (config_key env) = Some (oe_hash env data)"
  using assms
  by (auto simp: WithSecretHashAnnotationHook_def secret_hashes_def addObjectHash_def template_note_def
      made_map_def config_key_def Let_def)

lemma run_hooks_last:
  assumes "run_hooks i hs opSpec w = Inr d" and "hs = early @ late"
  obtains j w1 where "run_hooks j late opSpec w1 = Inr d"
  using assms by (auto simp: run_hooks_append rbind_Inr)

lemma deployment_note:
  assumes "getDeployment env opSpec = Inr d"
    and "oe_secrets env defaultNamespace driverConfigSecretName = Inr data"
  shows "template_note d (config_key env) = Some (oe_hash env data)"
proof -
  let ?last = "[WithSecretHashAnnotationHook env defaultNamespace driverConfigSecretName, WithReplicasHook env]"
  obtain m where "run_hooks 0 (controller_hooks env) opSpec m = Inr d"
    using assms(1) by (auto simp: getDeployment_def rbind_Inr)
  moreover have "controller_hooks env = take 7 (controller_hooks env) @ ?last"
    by (simp add: controller_hooks_def)
  ultimately obtain j w where "run_hooks j ?last opSpec w = Inr d" by (rule run_hooks_last)
  then obtain w1 where "WithSecretHashAnnotationHook env defaultNamespace driverConfigSecretName opSpec w = Inr w1"
    and "WithReplicasHook env opSpec w1 = Inr d"
    by (auto simp: rbind_Inr)
  moreover from this(2) have "tpl_Annotations d = tpl_Annotations w1"
    by (auto simp: WithReplicasHook_def rbind_Inr)
  ultimately show ?thesis using secret_hook_note assms(2) template_note_eq by metis
qed

lemma daemonset_hook_same:
  "WithSecretDaemonSetAnnotationHook (oe_sha256_hex env) (oe_hash env) n ns (oe_secrets env) =
     WithSecretHashAnnotationHook env ns n opSpec"
  by (rule ext) (simp add: WithSecretDaemonSetAnnotationHook_def WithSecretHashAnnotationHook_def)

lemma daemonset_note:
  assumes "getDaemonSet env opSpec = Inr d"
    and "oe_secrets env defaultNamespace driverConfigSecretName = Inr data"
  shows "template_note d (config_key env) = Some (oe_hash env data)"
proof -
  let ?last = "[\<lambda>opSpec. WithSecretDaemonSetAnnotationHook (oe_sha256_hex env) (oe_hash env)
        driverConfigSecretName defaultNamespace (oe_secrets env),
      \<lambda>opSpec. WithMaxVolumesPerNodeDaemonSetHook (oe_drivers env) (oe_gates env)]"
  obtain m where "run_hooks 0 (node_hooks env) opSpec m = Inr d"
    using assms(1) by (auto simp: getDaemonSet_def rbind_Inr)
  moreover have "node_hooks env = take 3 (node_hooks env) @ ?last"
    by (simp add: node_hooks_def)
  ultimately obtain j w where "run_hooks j ?last opSpec w = Inr d" by (rule run_hooks_last)
  then obtain w1 where "WithSecretHashAnnotationHook env defaultNamespace driverConfigSecretName opSpec w = Inr w1"
    and "WithMaxVolumesPerNodeDaemonSetHook (oe_drivers env) (oe_gates env) w1 = Inr d"
    by (auto simp: rbind_Inr daemonset_hook_same [where opSpec = opSpec])
  moreover from this(2) have "tpl_Annotations d = tpl_Annotations w1"
    by (auto simp: WithMaxVolumesPerNodeDaemonSetHook_def on_containers_def Let_def split: sum.splits if_splits)
  ultimately show ?thesis using secret_hook_note assms(2) template_note_eq by metis
qed

text \<open>
  C26: a changed configuration reaches the running driver. When the Secret that the main controller
  writes changes its data and with them its hash, the Deployment and the DaemonSet that are built
  next differ from those before in the annotations of their pod templates, whatever else has
  changed in the cluster between the two, so that Kubernetes replaces the pods.
\<close>
theorem changed_secret_changes_pods:
  assumes "oe_secrets env defaultNamespace driverConfigSecretName = Inr data"
    and "oe_secrets env' defaultNamespace driverConfigSecretName = Inr data'"
    and "oe_sha256_hex env' = oe_sha256_hex env" and "oe_hash env' data' \<noteq> oe_hash env data"
  shows "(getDeployment env opSpec = Inr d \<and> getDeployment env' opSpec' = Inr d' \<longrightarrow>
           tpl_Annotations d' \<noteq> tpl_Annotations d)
       \<and> (getDaemonSet env opSpec = Inr n \<and> getDaemonSet env' opSpec' = Inr n' \<longrightarrow>
           tpl_Annotations n' \<noteq> tpl_Annotations n)"
proof -
  have key: "config_key env' = config_key env" using assms(3) by (simp add: config_key_def)
  show ?thesis
    using deployment_note [OF _ assms(1)] deployment_note [OF _ assms(2)]
      daemonset_note [OF _ assms(1)] daemonset_note [OF _ assms(2)] template_note_eq assms(4)
    unfolding key by (metis option.inject)
qed

subsection \<open>The containers of the Deployment\<close>

lemma for_names_simps:
  "Containers (for_names ns f w) = map (fold (\<lambda>n. named n f) ns) (Containers w)"
  "wl_Annotations (for_names ns f w) = wl_Annotations w" "tpl_Annotations (for_names ns f w) = tpl_Annotations w"
  "wl_Replicas (for_names ns f w) = wl_Replicas w"
  unfolding for_names_def by (induction ns arbitrary: w) (simp_all add: on_all_def)

lemma fold_env:
  "fold (\<lambda>n. named n (\<lambda>c. c\<lparr>ct_Env := ct_Env c @ vs\<rparr>)) ns c =
     c\<lparr>ct_Env := ct_Env c @ concat (replicate (count_list ns (ct_Name c)) vs)\<rparr>"
  by (induction ns arbitrary: c) (simp_all add: named_def)

lemma fold_mounts:
  "fold (\<lambda>n. named n (\<lambda>c. c\<lparr>ct_VolumeMounts := ct_VolumeMounts c @ vs\<rparr>)) ns c =
     c\<lparr>ct_VolumeMounts := ct_VolumeMounts c @ concat (replicate (count_list ns (ct_Name c)) vs)\<rparr>"
  by (induction ns arbitrary: c) (simp_all add: named_def)

text \<open>What the chain makes of one container of the manifest \<open>m\<close>.\<close>

definition debug_vars :: "OperatorSpec \<Rightarrow> string \<Rightarrow> EnvVar list" where
  "debug_vars opSpec n =
     (if LogLevelToVerbosity Debug \<le> LogLevelToVerbosity (Spec_LogLevel opSpec) \<and> n \<in> {''csi-driver'', ''vsphere-syncer''}
      then [plain_var ''X_CSI_DEBUG'' ''true'', plain_var ''LOGGER_LEVEL'' ''DEVELOPMENT''] else [])"

definition topology_args :: "ClusterCSIDriver \<Rightarrow> Infrastructure \<Rightarrow> string \<Rightarrow> string list" where
  "topology_args driver infra n =
     (if n \<noteq> ''csi-provisioner'' then []
      else if GetTopologyCategories driver infra = [] then [''--feature-gates=Topology=false'']
      else [''--feature-gates=Topology=true'', ''--strict-topology''])"

definition ca_mounts :: "OperandEnv \<Rightarrow> (string \<times> string) list" where
  "ca_mounts env =
     (case oe_configMaps env defaultNamespace trustedCAConfigMap of
        Inl err \<Rightarrow> []
      | Inr data \<Rightarrow> if data ''ca-bundle.crt'' = None then []
          else [(''non-standard-root-system-trust-ca-bundle'', ''/etc/pki/ca-trust/extracted/pem'')])"

definition times_listed :: "Workload \<Rightarrow> string \<Rightarrow> string \<Rightarrow> nat" where
  "times_listed m k n = count_list (split_on (CHR '','') (annotation m k)) n"

definition finished :: "OperandEnv \<Rightarrow> OperatorSpec \<Rightarrow> Infrastructure \<Rightarrow> ClusterCSIDriver
    \<Rightarrow> (string, string) go_map option \<Rightarrow> Workload \<Rightarrow> Container \<Rightarrow> Container" where
  "finished env opSpec infra driver proxy m c =
     c\<lparr>ct_Image := (if ct_Name c = ''vsphere-syncer''
          then (case oe_environ env ''VMWARE_VSPHERE_SYNCER_IMAGE'' of None \<Rightarrow> [] | Some i \<Rightarrow> i) else ct_Image c),
       ct_Args := ct_Args c @ topology_args driver infra (ct_Name c),
       ct_Env := ct_Env c @ debug_vars opSpec (ct_Name c)
         @ concat (replicate (times_listed m ''config.openshift.io/inject-proxy'' (ct_Name c)) (MapToEnvVars proxy)),
       ct_VolumeMounts := ct_VolumeMounts c
         @ concat (replicate (times_listed m ''config.openshift.io/inject-proxy-cabundle'' (ct_Name c)) (ca_mounts env))\<rparr>"

text \<open>The hooks that change containers, one by one; the others leave them alone.\<close>

lemma debug_hook_containers:
  "maybeAppendDebug cs opSpec = map (\<lambda>c. c\<lparr>ct_Env := ct_Env c @ debug_vars opSpec (ct_Name c)\<rparr>) cs"
  by (auto simp: maybeAppendDebug_def debug_vars_def)

lemma topology_hook_containers:
  assumes "topologyHook (\<lambda>n. drivers n) (\<lambda>n. infras n) w = Inr w'"
    and "drivers VSphereDriverName = Inr driver" and "infras InfraGlobalName = Inr infra"
  shows "w' = w\<lparr>Containers := map (\<lambda>c. c\<lparr>ct_Args := ct_Args c @ topology_args driver infra (ct_Name c)\<rparr>) (Containers w)\<rparr>"
  using assms by (auto simp: topologyHook_def on_containers_def add_args_def topology_args_def)

lemma proxy_hook_containers:
  assumes "WithObservedProxyHook env opSpec w = Inr w'" and "proxy_config env opSpec = Inr proxy"
  shows "Containers w' = map (\<lambda>c. c\<lparr>ct_Env := ct_Env c
      @ concat (replicate (times_listed w ''config.openshift.io/inject-proxy'' (ct_Name c)) (MapToEnvVars proxy))\<rparr>) (Containers w)
    \<and> wl_Annotations w' = wl_Annotations w"
  using assms
  by (auto simp: WithObservedProxyHook_def InjectObservedProxyIntoContainers_def proxy_config_def Let_def
      rbind_Inr for_names_simps fold_env times_listed_def MapToEnvVars_def)

lemma ca_hook_containers:
  assumes "WithCABundleHook env defaultNamespace trustedCAConfigMap opSpec w = Inr w'"
  shows "Containers w' = map (\<lambda>c. c\<lparr>ct_VolumeMounts := ct_VolumeMounts c
      @ concat (replicate (times_listed w ''config.openshift.io/inject-proxy-cabundle'' (ct_Name c)) (ca_mounts env))\<rparr>)
        (Containers w)"
  using assms
  by (auto simp: WithCABundleHook_def InjectTrustedCAIntoContainers_def addObjectHash_def ca_mounts_def Let_def
      for_names_simps fold_mounts times_listed_def split: sum.splits if_splits)

lemma secret_hook_containers:
  "WithSecretHashAnnotationHook env ns n opSpec w = Inr w' \<Longrightarrow> Containers w' = Containers w"
  by (auto simp: WithSecretHashAnnotationHook_def addObjectHash_def split: sum.splits prod.splits)

text \<open>
  The Deployment that is applied. Each container of the manifest is kept in its place with its own
  arguments, variables and mounts, and gets exactly: the topology flags if it is the provisioner,
  the image of the environment if it is the syncer, the two debug variables at a raised log level,
  the observed proxy variables and the mount of the trusted CA as often as the manifest's
  annotations list it; there are two replicas on a highly available control plane, otherwise one.
\<close>
theorem deployment_containers:
  assumes "oe_deployment env opSpec = Inr m" and "getDeployment env opSpec = Inr d"
    and "oe_infras env InfraGlobalName = Inr infra" and "oe_drivers env VSphereDriverName = Inr driver"
    and "proxy_config env opSpec = Inr proxy"
  shows "Containers d = map (finished env opSpec infra driver proxy m) (Containers m)
     \<and> wl_Replicas d = Some (if ControlPlaneTopology infra = ''HighlyAvailable'' then 2 else 1)"
proof -
  obtain w1 w2 w3 w4 w5 w6 w7 w8 where
    w1: "WithControlPlaneTopologyHook env opSpec m = Inr w1"
    and w2: "WithSyncerImageHook (oe_environ env) ''vsphere-syncer'' w1 = Inr w2"
    and w3: "WithLogLevelDeploymentHook opSpec w2 = Inr w3"
    and w4: "topologyHook (oe_drivers env) (oe_infras env) w3 = Inr w4"
    and w5: "WithObservedProxyHook env opSpec w4 = Inr w5"
    and w6: "WithCABundleHook env defaultNamespace trustedCAConfigMap opSpec w5 = Inr w6"
    and w7: "WithSecretHashAnnotationHook env defaultNamespace metricsCertSecretName opSpec w6 = Inr w7"
    and w8: "WithSecretHashAnnotationHook env defaultNamespace driverConfigSecretName opSpec w7 = Inr w8"
    and w9: "WithReplicasHook env opSpec w8 = Inr d"
  proof -
    have "run_hooks 0 (controller_hooks env) opSpec m = Inr d" using assms(1,2) by (simp add: getDeployment_def)
    then show thesis
      unfolding controller_hooks_def run_hooks_Inr by (elim exE conjE) (rule that)
  qed
  have 3: "Containers w3 = map (\<lambda>c. c\<lparr>ct_Image := (if ct_Name c = ''vsphere-syncer''
          then (case oe_environ env ''VMWARE_VSPHERE_SYNCER_IMAGE'' of None \<Rightarrow> [] | Some i \<Rightarrow> i) else ct_Image c),
        ct_Env := ct_Env c @ debug_vars opSpec (ct_Name c)\<rparr>) (Containers m)" "wl_Annotations w3 = wl_Annotations m"
    using w1 w2 w3
    by (auto simp: WithControlPlaneTopologyHook_def rbind_Inr WithSyncerImageHook_def WithLogLevelDeploymentHook_def
        on_containers_def debug_hook_containers envVMWareVsphereDriverSyncerImage_def split: if_splits)
  note 4 = topology_hook_containers [OF w4 assms(4,3)]
  note 5 = proxy_hook_containers [OF w5 assms(5)] and 6 = ca_hook_containers [OF w6]
  have listed: "times_listed w4 = times_listed m" "times_listed w5 = times_listed m"
    using 3(2) 4 5 by (simp_all add: times_listed_def annotation_def fun_eq_iff)
  have "Containers w4 = map (\<lambda>c. c\<lparr>ct_Args := ct_Args c @ topology_args driver infra (ct_Name c)\<rparr>) (Containers w3)"
    using 4 by simp
  then have "Containers w6 = map (finished env opSpec infra driver proxy m) (Containers m)"
    using 3(1) 5 6 unfolding listed by (simp add: finished_def)
  moreover have "Containers d = Containers w6"
    using w9 assms(3) secret_hook_containers [OF w7] secret_hook_containers [OF w8]
    by (auto simp: WithReplicasHook_def)
  ultimately show ?thesis using w9 assms(3) by (auto simp: WithReplicasHook_def)
qed

subsection \<open>Examples\<close>

definition example_manifest :: Workload where
  "example_manifest =
     \<lparr>wl_Annotations = Some [''config.openshift.io/inject-proxy'' \<mapsto> ''csi-driver'',
        ''config.openshift.io/inject-proxy-cabundle'' \<mapsto> ''csi-driver,vsphere-syncer''],
      tpl_Annotations = None, InitContainers = [],
      Containers = map (\<lambda>n. \<lparr>ct_Name = n, ct_Image = ''image'', ct_Args = [''--v=2''], ct_Env = [], ct_VolumeMounts = []\<rparr>)
        [''csi-driver'', ''csi-provisioner'', ''vsphere-syncer''],
      tpl_Volumes = [], NodeSelector = Map.empty, wl_Replicas = None\<rparr>"

definition example_operator_spec :: OperatorSpec where
  "example_operator_spec = \<lparr>Spec_ManagementState = Managed, Spec_LogLevel = Debug, Spec_ObservedConfig = ''{}''\<rparr>"

text \<open>A cluster with a proxy and a CA bundle whose driver Secret holds \<open>text\<close>.\<close>

definition example_operands :: "string \<Rightarrow> OperandEnv" where
  "example_operands text =
     \<lparr>oe_infras = (\<lambda>n. Inr zones_infra), oe_drivers = (\<lambda>n. Inr (vsphere_driver None)),
      oe_secrets = (\<lambda>ns n. if n = driverConfigSecretName then Inr [''cloud.conf'' \<mapsto> text] else Inl (NotFound n)),
      oe_configMaps = (\<lambda>ns n. Inr [''ca-bundle.crt'' \<mapsto> ''cert'']),
      oe_environ = [''VMWARE_VSPHERE_SYNCER_IMAGE'' \<mapsto> ''syncer''],
      oe_unmarshal = (\<lambda>s. Inr (\<lambda>path. Inr (Some [(''HTTP_PROXY'', ''b'')]))),
      oe_sha256_hex = id,
      oe_hash = (\<lambda>data. case data ''cloud.conf'' of None \<Rightarrow> [] | Some t \<Rightarrow> t), oe_gates = [],
      oe_deployment = (\<lambda>s. Inr example_manifest), oe_daemonSet = (\<lambda>s. Inr example_manifest)\<rparr>"

lemma example_operands_simps:
  "oe_infras (example_operands t) = (\<lambda>n. Inr zones_infra)"
  "oe_drivers (example_operands t) = (\<lambda>n. Inr (vsphere_driver None))"
  "oe_secrets (example_operands t) ns driverConfigSecretName = Inr [''cloud.conf'' \<mapsto> t]"
  "tolerable (oe_secrets (example_operands t) ns n)"
  "oe_configMaps (example_operands t) ns n = Inr [''ca-bundle.crt'' \<mapsto> ''cert'']"
  "proxy_config (example_operands t) example_operator_spec = Inr (Some [(''HTTP_PROXY'', ''b'')])"
  "oe_deployment (example_operands t) s = Inr example_manifest" "oe_daemonSet (example_operands t) s = Inr example_manifest"
  "oe_environ (example_operands t) = [''VMWARE_VSPHERE_SYNCER_IMAGE'' \<mapsto> ''syncer'']"
  "oe_gates (example_operands t) = []" "oe_sha256_hex (example_operands t) = id"
  "oe_hash (example_operands t) [''cloud.conf'' \<mapsto> t'] = t'"
  by (simp_all add: example_operands_def proxy_config_def)

theorem operands_built_iff_witness:
  "(\<exists>d. getDeployment (example_operands ''text'') example_operator_spec = Inr d)
     \<and> (\<exists>d. getDaemonSet (example_operands ''text'') example_operator_spec = Inr d)"
  using operands_built_iff [of "example_operands ''text''" example_operator_spec example_manifest example_manifest]
  by (simp add: example_operands_simps gate_enabled_def)

lemma example_built: "\<exists>d. getDeployment (example_operands t) example_operator_spec = Inr d"
proof -
  have "list_all2 (\<lambda>h ok. \<forall>w. readable (h example_operator_spec w) \<longleftrightarrow> ok)
      (controller_hooks (example_operands t)) (replicate 9 True)"
    by (simp add: example_operands_simps controller_hooks_def hooks_return numeral_eq_Suc)
  from run_hooks_readable [OF this] show ?thesis
    by (simp add: getDeployment_def example_operands_simps list_all_iff flip: readable_iff)
qed

theorem changed_secret_changes_pods_witness:
  "\<exists>d d'. getDeployment (example_operands ''old'') example_operator_spec = Inr d
     \<and> getDeployment (example_operands ''new'') example_operator_spec = Inr d'
     \<and> tpl_Annotations d' \<noteq> tpl_Annotations d"
proof -
  obtain d d' where d: "getDeployment (example_operands ''old'') example_operator_spec = Inr d"
    "getDeployment (example_operands ''new'') example_operator_spec = Inr d'"
    using example_built by blast
  have "oe_hash (example_operands ''new'') [''cloud.conf'' \<mapsto> ''new''] \<noteq>
      oe_hash (example_operands ''old'') [''cloud.conf'' \<mapsto> ''old'']"
    "oe_sha256_hex (example_operands ''new'') = oe_sha256_hex (example_operands ''old'')"
    by (simp_all add: example_operands_simps)
  from changed_secret_changes_pods [OF example_operands_simps(3,3) this(2,1)] d show ?thesis by blast
qed

theorem deployment_containers_witness:
  "\<exists>d. getDeployment (example_operands ''text'') example_operator_spec = Inr d \<and> wl_Replicas d = Some 2
     \<and> map ct_Args (Containers d) = [[''--v=2''], [''--v=2'', ''--feature-gates=Topology=true'', ''--strict-topology''], [''--v=2'']]
     \<and> map (map ev_Name \<circ> ct_Env) (Containers d) =
         [[''X_CSI_DEBUG'', ''LOGGER_LEVEL'', ''HTTP_PROXY''], [], [''X_CSI_DEBUG'', ''LOGGER_LEVEL'']]"
proof -
  obtain d where d: "getDeployment (example_operands ''text'') example_operator_spec = Inr d"
    using example_built by blast
  have i: "oe_infras (example_operands ''text'') InfraGlobalName = Inr zones_infra"
    "oe_drivers (example_operands ''text'') VSphereDriverName = Inr (vsphere_driver None)"
    by (simp_all add: example_operands_simps)
  from deployment_containers [OF example_operands_simps(7) d i example_operands_simps(6)] d show ?thesis
    by (auto simp: example_manifest_def finished_def topology_args_def debug_vars_def times_listed_def annotation_def
        made_map_def MapToEnvVars_def plain_var_def example_operator_spec_def vsphere_driver_def
        GetTopologyCategories_def GetInfraTopologyCategories_def zones_infra_def)
qed

end
