(* ===== verification/Operator_Start.thy ===== *)
theory Operator_Start
  imports Controller_Runs Operand_Hooks
begin

text \<open>
  \<open>starter.go\<close>: how the operator process starts. \<open>RunOperator\<close> makes its clients, waits for the feature
  gates, reads its assets and starts the two controllers. It returns an error, panics or ends the
  process on the way; a value \<open>Inr s\<close> says that the controllers \<open>s\<close> run until the context ends.
\<close>

text \<open>
  What the start finds. \<open>se_client\<close> is the error of a client's constructor by the name of the client,
  \<open>se_observed\<close> says whether the gates of a version are known within a minute, the two fields of
  gates are the answers of the two reads.
\<close>

record StartEnv =
  se_client :: "string \<Rightarrow> go_error option"
  se_environ :: "string \<rightharpoonup> string"
  se_observed :: "string \<Rightarrow> string \<Rightarrow> bool"
  se_gates_logged :: "FeatureGate result"
  se_gates :: "FeatureGate result"
  se_asset :: "string \<Rightarrow> string result"
  se_now :: int

record DriverFeaturesController =
  dfc_name :: string
  dfc_targetNamespace :: string
  dfc_manifest :: string

record Started =
  main_controller :: VSphereController
  main_csiConfig :: string
  main_secret :: string
  features_controller :: DriverFeaturesController

definition NewDriverFeaturesController :: "string \<Rightarrow> string \<Rightarrow> string \<Rightarrow> DriverFeaturesController" where
  "NewDriverFeaturesController nm namespace manifest =
     \<lparr>dfc_name = nm, dfc_targetNamespace = namespace, dfc_manifest = manifest\<rparr>"

text \<open>
  What the operator client calls to find the fields of one field manager: the conversion of the object and the
  extraction are generated code, \<open>operator_part\<close> selects the embedded configuration.
\<close>

definition extractOperatorSpec ::
  "('o \<Rightarrow> 'd result) \<Rightarrow> ('d \<Rightarrow> string \<Rightarrow> 'c option result) \<Rightarrow> ('c \<Rightarrow> 'p) \<Rightarrow> 'o \<Rightarrow> string \<Rightarrow> 'p option result" where
  "extractOperatorSpec fromUnstructured extractSpec operator_part obj fieldManager =
     rbind (map_err (\<lambda>m. ''unable to convert to OpenShiftAPIServer: '' @ m) (fromUnstructured obj)) (\<lambda>castObj.
     rbind (map_err (\<lambda>m. ''unable to extract fields for '' @ quote fieldManager @ '': '' @ m)
         (extractSpec castObj fieldManager)) (\<lambda>spec.
       Inr (map_option operator_part spec)))"

definition extractOperatorStatus ::
  "('o \<Rightarrow> 'd result) \<Rightarrow> ('d \<Rightarrow> string \<Rightarrow> 'c option result) \<Rightarrow> ('c \<Rightarrow> 'p) \<Rightarrow> 'o \<Rightarrow> string \<Rightarrow> 'p option result" where
  "extractOperatorStatus fromUnstructured extractStatus operator_part obj fieldManager =
     rbind (map_err (\<lambda>m. ''unable to convert to OpenShiftAPIServer: '' @ m) (fromUnstructured obj)) (\<lambda>castObj.
     rbind (map_err (\<lambda>m. ''unable to extract fields for '' @ quote fieldManager @ '': '' @ m)
         (extractStatus castObj fieldManager)) (\<lambda>status.
       Inr (map_option operator_part status)))"

definition getReleaseVersion :: "(string \<rightharpoonup> string) \<Rightarrow> string" where
  "getReleaseVersion environ =
     (case environ ''RELEASE_VERSION'' of
        None \<Rightarrow> ''0.0.1-snapshot''
      | Some releaseVersion \<Rightarrow> if length releaseVersion = 0 then ''0.0.1-snapshot'' else releaseVersion)"

text \<open>The two manifests \<open>createCSIDriver\<close> reads at once; library-go panics without them.\<close>

definition read_or_panic :: "(string \<Rightarrow> string result) \<Rightarrow> string \<Rightarrow> string outcome" where
  "read_or_panic asset file =
     (case asset file of
        Inl err \<Rightarrow> Panicked (''asset: Asset('' @ file @ ''): '' @ err_msg err)
      | Inr manifest \<Rightarrow> Returned manifest)"

definition createCSIDriver :: "(string \<Rightarrow> string result) \<Rightarrow> (string \<times> string) outcome" where
  "createCSIDriver asset =
     obind (read_or_panic asset ''controller.yaml'') (\<lambda>controller.
     obind (read_or_panic asset ''node.yaml'') (\<lambda>node. Returned (controller, node)))"

definition createStorageClassController :: "(string \<Rightarrow> string result) \<Rightarrow> int \<Rightarrow> ScController outcome" where
  "createStorageClassController asset now =
     (case asset ''storageclass.yaml'' of
        Inl err \<Rightarrow> Panicked ''unable to read storageclass file''
      | Inr scBytes \<Rightarrow> Returned (NewStorageClassController now))"

text \<open>\<open>NewVSphereController\<close> with the two calls at its end.\<close>

definition make_main :: "(string \<Rightarrow> string result) \<Rightarrow> string \<Rightarrow> string \<Rightarrow> FeatureGate \<Rightarrow> int \<Rightarrow> VSphereController outcome" where
  "make_main asset nm ns gates now =
     obind (createCSIDriver asset) (\<lambda>csi.
     obind (createStorageClassController asset now) (\<lambda>sc.
       Returned ((NewVSphereController nm ns gates now)\<lparr>storageClassController := sc\<rparr>)))"

text \<open>A constructor that returns its error, and one that panics (\<open>NewForConfigOrDie\<close>).\<close>

definition or_return :: "go_error option \<Rightarrow> (go_error + 'a) outcome \<Rightarrow> (go_error + 'a) outcome" where
  "or_return e k = (case e of Some err \<Rightarrow> Returned (Inl err) | None \<Rightarrow> k)"

definition or_die :: "go_error option \<Rightarrow> (go_error + 'a) outcome \<Rightarrow> (go_error + 'a) outcome" where
  "or_die e k = (case e of Some err \<Rightarrow> Panicked (err_msg err) | None \<Rightarrow> k)"

definition read_asset :: "string result \<Rightarrow> (string \<Rightarrow> (go_error + 'a) outcome) \<Rightarrow> (go_error + 'a) outcome" where
  "read_asset r k = (case r of Inl err \<Rightarrow> Returned (Inl err) | Inr bytes \<Rightarrow> k bytes)"

text \<open>
  The gates are logged first: there the code drops the error, and a missing value panics. Only the
  second read looks at the error.
\<close>

definition wait_for_gates :: "StartEnv \<Rightarrow> (FeatureGate \<Rightarrow> (go_error + 'a) outcome) \<Rightarrow> (go_error + 'a) outcome" where
  "wait_for_gates env k =
     (if \<not> se_observed env (getReleaseVersion (se_environ env)) ''0.0.1-snapshot'' then Exited
      else case se_gates_logged env of
             Inl err \<Rightarrow> Panicked nil_deref
           | Inr known \<Rightarrow> (case se_gates env of Inl err \<Rightarrow> Exited | Inr gates \<Rightarrow> k gates))"

definition RunOperator :: "StartEnv \<Rightarrow> (go_error + Started) outcome" where
  "RunOperator env =
     or_die (se_client env ''kube'') (
     or_return (se_client env ''apiext'') (
     or_die (se_client env ''config'') (
     or_die (se_client env ''operator'') (
     or_return (se_client env ''generic'') (
     or_return (se_client env ''dynamic'') (
     wait_for_gates env (\<lambda>gates.
     read_asset (se_asset env ''vsphere_cloud_config_secret.yaml'') (\<lambda>cloudConfigBytes.
     read_asset (se_asset env ''csi_cloud_config.ini'') (\<lambda>csiConfigBytes.
     obind (make_main (se_asset env) ''VMwareVSphereController'' DefaultNamespace gates (se_now env))
       (\<lambda>vSphereController.
     read_asset (se_asset env ''vsphere_features_config.yaml'') (\<lambda>featureConfigBytes.
       Returned (Inr
         \<lparr>main_controller = vSphereController, main_csiConfig = csiConfigBytes, main_secret = cloudConfigBytes,
          features_controller = NewDriverFeaturesController ''VMwareVSphereDriverFeatureConfigController''
            DefaultNamespace featureConfigBytes\<rparr>))))))))))))"

subsection \<open>When the controllers run\<close>

lemma start_steps:
  "or_return e k = Returned (Inr s) \<longleftrightarrow> e = None \<and> k = Returned (Inr s)"
  "or_die e k = Returned (Inr s) \<longleftrightarrow> e = None \<and> k = Returned (Inr s)"
  "read_asset r f = Returned (Inr s) \<longleftrightarrow> (\<exists>bytes. r = Inr bytes \<and> f bytes = Returned (Inr s))"
  "wait_for_gates env g = Returned (Inr s) \<longleftrightarrow>
     se_observed env (getReleaseVersion (se_environ env)) ''0.0.1-snapshot'' \<and> readable (se_gates_logged env)
     \<and> (\<exists>gates. se_gates env = Inr gates \<and> g gates = Returned (Inr s))"
  by (auto simp: or_return_def or_die_def read_asset_def wait_for_gates_def readable_iff
      split: option.split sum.split)

lemma make_main_returned:
  "make_main asset nm ns gates now = Returned c \<longleftrightarrow>
     (\<forall>f \<in> {''controller.yaml'', ''node.yaml'', ''storageclass.yaml''}. readable (asset f))
     \<and> c = NewVSphereController nm ns gates now"
proof -
  have "(NewVSphereController nm ns gates now)\<lparr>storageClassController := NewStorageClassController now\<rparr> =
      NewVSphereController nm ns gates now"
    by (simp add: NewVSphereController_def)
  then show ?thesis
    by (auto simp: make_main_def createCSIDriver_def createStorageClassController_def read_or_panic_def
        obind_Returned readable_iff split: sum.splits)
qed

definition controllerName :: string where
  "controllerName = ''VMwareVSphereController''"

definition start_assets :: "string set" where
  "start_assets = {''vsphere_cloud_config_secret.yaml'', ''csi_cloud_config.ini'', ''controller.yaml'',
     ''node.yaml'', ''storageclass.yaml'', ''vsphere_features_config.yaml''}"

lemma RunOperator_serving:
  "RunOperator env = Returned (Inr s) \<longleftrightarrow>
     (\<forall>c \<in> {''kube'', ''apiext'', ''config'', ''operator'', ''generic'', ''dynamic''}. se_client env c = None)
     \<and> se_observed env (getReleaseVersion (se_environ env)) ''0.0.1-snapshot'' \<and> readable (se_gates_logged env)
     \<and> (\<forall>f \<in> start_assets. readable (se_asset env f))
     \<and> (\<exists>gates. se_gates env = Inr gates
          \<and> main_controller s = NewVSphereController controllerName DefaultNamespace gates (se_now env))
     \<and> se_asset env ''vsphere_cloud_config_secret.yaml'' = Inr (main_secret s)
     \<and> se_asset env ''csi_cloud_config.ini'' = Inr (main_csiConfig s)
     \<and> (\<exists>manifest. se_asset env ''vsphere_features_config.yaml'' = Inr manifest
          \<and> features_controller s = NewDriverFeaturesController ''VMwareVSphereDriverFeatureConfigController''
              DefaultNamespace manifest)"
proof -
  have step: "RunOperator env = Returned (Inr s) \<longleftrightarrow>
      (\<forall>c \<in> {''kube'', ''apiext'', ''config'', ''operator'', ''generic'', ''dynamic''}. se_client env c = None)
      \<and> se_observed env (getReleaseVersion (se_environ env)) ''0.0.1-snapshot'' \<and> readable (se_gates_logged env)
      \<and> (\<exists>gates cloud csi main feat. se_gates env = Inr gates
          \<and> se_asset env ''vsphere_cloud_config_secret.yaml'' = Inr cloud
          \<and> se_asset env ''csi_cloud_config.ini'' = Inr csi
          \<and> make_main (se_asset env) controllerName DefaultNamespace gates (se_now env) = Returned main
          \<and> se_asset env ''vsphere_features_config.yaml'' = Inr feat
          \<and> s = \<lparr>main_controller = main, main_csiConfig = csi, main_secret = cloud,
               features_controller = NewDriverFeaturesController ''VMwareVSphereDriverFeatureConfigController''
                 DefaultNamespace feat\<rparr>)"
    by (auto simp: RunOperator_def start_steps obind_Returned controllerName_def)
  show ?thesis
    unfolding step make_main_returned start_assets_def
    by (cases s) (auto simp: readable_iff)
qed

text \<open>
  C18: when the operator serves. The controllers run exactly when every client can be made, the feature
  gates are known in time and both reads of them succeed, and the six embedded files can be read;
  then the main controller is a fresh one with these gates. Any other start ends with an error, a
  panic or the end of the process, and no controller runs.
\<close>
theorem RunOperator_serves_iff:
  "RunOperator env = Returned (Inr s) \<longleftrightarrow>
     (\<forall>c \<in> {''kube'', ''apiext'', ''config'', ''operator'', ''generic'', ''dynamic''}. se_client env c = None)
     \<and> se_observed env (getReleaseVersion (se_environ env)) ''0.0.1-snapshot'' \<and> readable (se_gates_logged env)
     \<and> (\<forall>f \<in> start_assets. readable (se_asset env f))
     \<and> (\<exists>gates. se_gates env = Inr gates
          \<and> main_controller s = NewVSphereController controllerName DefaultNamespace gates (se_now env))
     \<and> se_asset env ''vsphere_cloud_config_secret.yaml'' = Inr (main_secret s)
     \<and> se_asset env ''csi_cloud_config.ini'' = Inr (main_csiConfig s)
     \<and> (\<exists>manifest. se_asset env ''vsphere_features_config.yaml'' = Inr manifest
          \<and> features_controller s = NewDriverFeaturesController ''VMwareVSphereDriverFeatureConfigController''
              DefaultNamespace manifest)"
  by (rule RunOperator_serving)

definition example_start :: StartEnv where
  "example_start =
     \<lparr>se_client = (\<lambda>c. None), se_environ = [''RELEASE_VERSION'' \<mapsto> ''5.0.0''],
      se_observed = (\<lambda>desired missing. desired = ''5.0.0''), se_gates_logged = Inr [], se_gates = Inr [],
      se_asset = (\<lambda>f. Inr f), se_now = 0\<rparr>"

definition example_started :: Started where
  "example_started =
     \<lparr>main_controller = NewVSphereController controllerName DefaultNamespace [] 0,
      main_csiConfig = ''csi_cloud_config.ini'', main_secret = ''vsphere_cloud_config_secret.yaml'',
      features_controller = NewDriverFeaturesController ''VMwareVSphereDriverFeatureConfigController''
        DefaultNamespace ''vsphere_features_config.yaml''\<rparr>"

theorem RunOperator_serves_iff_witness:
  "RunOperator example_start = Returned (Inr example_started)"
  by (rule RunOperator_serves_iff [THEN iffD2])
    (simp add: example_start_def example_started_def getReleaseVersion_def)

text \<open>The world of a process that has just started.\<close>

definition process_start :: "StartEnv \<Rightarrow> 's World \<Rightarrow> bool" where
  "process_start env w \<longleftrightarrow>
     (\<exists>s. RunOperator env = Returned (Inr s) \<and> VSphereController.truncate w = main_controller s)
     \<and> w_sessions w = [] \<and> w_starts w = 0"

lemma process_start_booted:
  assumes "process_start env w"
  shows "booted w \<and> name w = controllerName"
proof -
  obtain gates where "VSphereController.truncate w = NewVSphereController controllerName DefaultNamespace gates (se_now env)"
    using assms by (auto simp: process_start_def RunOperator_serving)
  moreover have "name w = name (VSphereController.truncate w)" by (simp add: VSphereController.truncate_def)
  ultimately show ?thesis
    using assms by (auto simp: booted_def process_start_def NewVSphereController_def)
qed

end
