(* ===== verification/Operator_Spec.thy ===== *)
theory Operator_Spec
  imports Controller_Examples Operator_Start
begin

text \<open>
  An abstract specification of the main controller: what the cluster can see of it, the flag of
  the running driver and the three conditions it owns, and the three ways a sync may change that. The
  detailed controller refines it while no write conflicts, so what holds for the small machine
  holds in every such run of the operator, whatever other writers do to other conditions between
  the syncs. That no degraded or disabled operator offers an upgrade needs no calm: it is shown for
  runs whose writes are refused, conflict or fail.
\<close>

subsection \<open>The specification\<close>

type_synonym seen = "string \<Rightarrow> (ConditionStatus \<times> string \<times> string) option"

definition own_types :: "string \<Rightarrow> string set" where
  "own_types nm = {nm @ ''Upgradeable'', nm @ ''Disabled'', ''VMwareVSphereOperatorCheckDegraded''}"

inductive spec_step :: "string \<Rightarrow> bool \<times> seen \<Rightarrow> bool \<times> seen \<Rightarrow> bool" for nm :: string where
  kept:
    "started \<longrightarrow> started' \<Longrightarrow> \<forall>t \<in> own_types nm. rd' t = rd t \<Longrightarrow>
     spec_step nm (started, rd) (started', rd')"
| judged:
    "started \<longrightarrow> started' \<Longrightarrow> started' \<or> blocks_install st \<Longrightarrow>
     \<forall>t \<in> own_types nm. rd' t = says nm started' st r rd t \<Longrightarrow>
     spec_step nm (started, rd) (started', rd')"
| removed:
    "\<forall>t \<in> own_types nm. rd' t =
       (if t = nm @ ''Disabled'' then Some (ConditionTrue, [], ''Operator is disabled'') else None) \<Longrightarrow>
     spec_step nm (started, rd) (started, rd')"

text \<open>No upgrade is offered while the operator says that it is degraded or disabled.\<close>

definition says_true :: "seen \<Rightarrow> string \<Rightarrow> bool" where
  "says_true rd t \<longleftrightarrow> (\<exists>reason message. rd t = Some (ConditionTrue, reason, message))"

definition consistent :: "string \<Rightarrow> seen \<Rightarrow> bool" where
  "consistent nm rd \<longleftrightarrow> \<not> (says_true rd (nm @ ''Upgradeable'')
     \<and> (says_true rd (nm @ ''Disabled'') \<or> says_true rd ''VMwareVSphereOperatorCheckDegraded''))"

lemma own_types_distinct:
  "nm @ ''Upgradeable'' \<noteq> nm @ ''Disabled''" "nm @ ''Upgradeable'' \<noteq> ''VMwareVSphereOperatorCheckDegraded''"
  "nm @ ''Disabled'' \<noteq> ''VMwareVSphereOperatorCheckDegraded''"
  "nm @ ''Disabled'' \<noteq> nm @ ''Available''" "nm @ ''Upgradeable'' \<noteq> nm @ ''Available''"
  "''VMwareVSphereOperatorCheckDegraded'' \<noteq> nm @ ''Available''"
  using condition_types_distinct [of nm] by auto

lemma consistent_cong:
  "\<forall>t \<in> own_types nm. rd' t = rd t \<Longrightarrow> consistent nm rd' \<longleftrightarrow> consistent nm rd"
  by (simp add: own_types_def consistent_def says_true_def)

lemma says_consistent:
  assumes "\<forall>t \<in> own_types nm. rd' t = says nm started st r rd t"
  shows "consistent nm rd'"
  using assms own_types_distinct [of nm]
  by (cases st) (auto simp: own_types_def consistent_def says_true_def says_def split: if_splits)

lemma spec_step_consistent:
  assumes "spec_step nm (a, rd) (b, rd')" and "consistent nm rd"
  shows "consistent nm rd'"
proof -
  from assms(1) consider (kept) "\<forall>t \<in> own_types nm. rd' t = rd t"
    | (judged) st r where "\<forall>t \<in> own_types nm. rd' t = says nm b st r rd t"
    | (removed) "\<forall>t \<in> own_types nm. rd' t =
        (if t = nm @ ''Disabled'' then Some (ConditionTrue, [], ''Operator is disabled'') else None)"
    by cases auto
  then show ?thesis
  proof cases
    case kept
    with assms(2) consistent_cong show ?thesis by blast
  next
    case judged
    then show ?thesis by (rule says_consistent)
  next
    case removed
    then show ?thesis
      using own_types_distinct [of nm] by (auto simp: own_types_def consistent_def says_true_def)
  qed
qed

subsection \<open>The controller refines it\<close>

text \<open>
  A sync without conflicting writers, whose checkers keep their contract and whose cache of the
  operator's status is up to date.
\<close>

definition calm :: "'s Env \<Rightarrow> 's World \<Rightarrow> bool" where
  "calm env w \<longleftrightarrow> quiet_env env \<and> lawful_checks env
     \<and> (case env_state env of Inl e \<Rightarrow> True | Inr (sp, st) \<Rightarrow> st = w_status w)"

abbreviation view :: "'s World \<Rightarrow> bool \<times> seen" where
  "view w \<equiv> (operandControllerStarted w, reads w)"

lemma own_types_not_sc_types: "t \<in> own_types nm \<Longrightarrow> t \<notin> set sc_types"
  using own_types_not_sc [of nm]
  by (auto simp: own_types_def sc_types_def storageClassControllerName_def)

lemma removal_reads:
  assumes "quiet_env env" and "removeOperands env (w_status w) w = (err, w')" and "name w = controllerName"
    and "t \<in> own_types controllerName" and "w_updates w' \<noteq> w_updates w"
  shows "reads w' t = (if t = controllerName @ ''Disabled''
     then Some (ConditionTrue, [], ''Operator is disabled'') else None)"
proof -
  let ?fs = "removeConditions_funcs (env_now_status env) (name w) (w_status w)"
  have "w_status w' = apply_all ?fs (w_status w)"
    using assms(1,2,5)
    by (auto simp: removeOperands_def write_status_def removeConditions_def quiet_env_def UpdateStatus_quiet
        Let_def split: if_splits prod.splits option.splits)
  then have r: "reads w' t = (if t = controllerName @ ''Disabled'' then Some (ConditionTrue, [], ''Operator is disabled'')
      else if t \<in> set (removed_types controllerName (w_status w)) then None else reads w t)"
    using removeConditions_funcs_read [of _ "name w" "w_status w" "w_status w" t] assms(3) by simp
  have "reads w t = None"
    if "t \<noteq> controllerName @ ''Disabled''" "t \<notin> set (removed_types controllerName (w_status w))"
  proof -
    have "t \<notin> cnd_Type ` set (w_status w)"
      using that assms(4)
      by (auto simp: own_types_def removed_types_def controllerName_def vsphereOperatorPrefix_def
          has_prefix_def getDisabledConditionName_def untouchableConditions_def)
    then have "\<forall>c \<in> set (w_status w). cnd_Type c \<noteq> t" by auto
    then show ?thesis by (simp add: lookup_condition_def FindOperatorCondition_def find_from_None)
  qed
  with r show ?thesis by simp
qed

lemma removal_step:
  assumes "quiet_env env" and "removeOperands env (w_status w) w = (err, w')" and "name w = controllerName"
  shows "spec_step controllerName (view w) (view w')"
proof -
  have same: "operandControllerStarted w' = operandControllerStarted w"
    using removeOperands_keeps(1) [OF assms(2)] .
  show ?thesis
  proof (cases "w_updates w' = w_updates w")
    case True
    with assms(2) have "w_status w' = w_status w"
      by (auto simp: removeOperands_def write_status_def Let_def split: if_splits prod.splits option.splits)
    with same show ?thesis by (intro spec_step.kept) simp_all
  next
    case False
    from removal_reads [OF assms _ False] same show ?thesis
      unfolding same by (intro spec_step.removed) blast
  qed
qed

text \<open>A sync that sets no timer ran no checks and leaves the conditions alone.\<close>

lemma uneventful_sync:
  assumes "quiet_env env" and "managed_env env st infra d found cfg"
    and "vSphereConnections w = []" and "logs_in env infra d found cfg w conn w4"
    and "CheckError conn = None" and "controller_sync env w = Returned (err, w')"
    and "w_timers w' = w_timers w"
  shows "(operandControllerStarted w' \<longleftrightarrow> found \<or> operandControllerStarted w)
     \<and> (\<forall>t. t \<notin> set sc_types \<longrightarrow> reads w' t = reads w t)"
proof -
  let ?w = "note_connection env conn st w4"
  obtain block ierr w1 w5 where i: "installCSIDriver env (full_infra cfg infra) d conn st ?w = Returned ((block, ierr), w1)"
    and rest: "w' = deferred_logout env w5"
      "w5 = w1 \<and> err = ierr \<and> (err \<noteq> None \<or> block \<or> \<not> operandControllerStarted w1)
       \<or> \<not> block \<and> ierr = None \<and> operandControllerStarted w1
         \<and> syncStorageClassController env (full_infra cfg infra) w1 = Returned (err, w5)"
    using connected_sync [OF assms(2,4,6)] .
  note q = after_install_quiet [OF assms(1) rest]
  obtain conns where wf: "wf_result conn"
    and w4: "operandControllerStarted w4 \<longleftrightarrow> found \<or> operandControllerStarted w"
      "w_status w4 = w_status w" "w_timers w4 = w_timers w"
    using logs_in_world [OF assms(4,3)] by metis
  obtain e where s: "write_secret env (full_infra cfg infra) d ?w = Returned (e, w1)"
    using wf assms(5) i
  proof (cases rule: connected_install_cases)
    case (checked w2 nd rs v)
    have "w_timers w1 = w_timers w @ [nd]"
      using after_checks_log [OF checked(4)] write_secret_same(5) [OF checked(1)] w4(3)
      by (simp add: note_connection_same)
    with q(3) assms(7) show ?thesis by simp
  qed (use that in blast)+
  note sec = write_secret_same [OF s]
  show ?thesis using q(2,4) sec(2,3) w4 by (simp add: note_connection_same)
qed

text \<open>A sync does not rename the controller.\<close>

lemma sync_keeps_name:
  assumes "controller_sync env w = Returned (err, w')" and "vSphereConnections w = []"
  shows "name w' = name w"
  using assms(1)
proof (cases rule: controller_sync_cases)
  case (removed sp st)
  then show ?thesis
    by (auto simp: removeOperands_def write_status_def Let_def split: if_splits prod.splits option.splits)
next
  case (managed sp st infra d)
  from managed(6) show ?thesis
  proof (cases rule: sync_managed_cases)
    case (connected found cfg conn w4 w5)
    let ?w3 = "before_login env infra d found cfg (w\<lparr>currentManagmentState := Some Managed\<rparr>)"
    have "vSphereConnections ?w3 = []" by (simp add: before_login_keeps assms(2))
    with connected(3) obtain conns where
      "w4 = ?w3\<lparr>vSphereConnections := conns, w_sessions := w_sessions ?w3 @ concat (map held conns)\<rparr>"
      by (rule login_cases)
    then show ?thesis
      using sync_connected_progressed [OF connected(4)] connected(5)
      by (simp add: progressed_def deferred_logout_def before_login_keeps)
  qed (simp_all add: start_operand_def)
qed simp_all

lemma connected_step:
  assumes "quiet_env env" and "lawful_checks env" and "managed_env env st infra d found cfg"
    and "vSphereConnections w = []" and "logs_in env infra d found cfg w conn w4"
    and "controller_sync env w = Returned (err, w')" and "name w = controllerName"
  shows "spec_step controllerName (view w) (view w')"
proof (cases "CheckError conn = None")
  case False
  from failed_login_sync [OF assms(1,3-5) False] obtain r where
    "operandControllerStarted w' \<longleftrightarrow> found \<or> operandControllerStarted w"
    "\<forall>t. reads w' t = says (name w) (found \<or> operandControllerStarted w)
       (if Action conn = CheckActionDegrade \<or> found then ClusterCheckDegrade
        else ClusterCheckUpgradeStateUnknown) r (reads w) t"
    using assms(6) by auto
  then show ?thesis
    using assms(7)
    by (intro spec_step.judged [where r = r and st = "if Action conn = CheckActionDegrade \<or> found
          then ClusterCheckDegrade else ClusterCheckUpgradeStateUnknown"]) auto
next
  case True
  show ?thesis
  proof (cases "w_timers w' = w_timers w")
    case same: True
    from uneventful_sync [OF assms(1,3-5) True assms(6) same] show ?thesis
      by (intro spec_step.kept) (auto dest: own_types_not_sc_types)
  next
    case False
    from checked_sync [OF assms(1-5) True assms(6) False] obtain rs r where
      "let verdict = cluster_status (getCheckAPIDependency env (full_infra cfg infra)) (judged rs)
       in (operandControllerStarted w' \<longleftrightarrow> found \<or> operandControllerStarted w \<or> \<not> blocks_install verdict)
         \<and> (\<forall>t. t \<notin> set sc_types \<longrightarrow>
              reads w' t = says (name w) (operandControllerStarted w') verdict r (reads w) t)"
      by (auto simp: Let_def)
    then show ?thesis
      using assms(7) own_types_not_sc_types
      by (intro spec_step.judged [where r = r and st = "cluster_status (getCheckAPIDependency env
            (full_infra cfg infra)) (judged rs)"]) (auto simp: Let_def)
  qed
qed

lemma sync_step:
  assumes "calm env w" and "vSphereConnections w = []" and "name w = controllerName"
    and "controller_sync env w = Returned (err, w')"
  shows "spec_step controllerName (view w) (view w')"
  using assms(4)
proof (cases rule: controller_sync_cases)
  case (removed sp st)
  then have "st = w_status w" "quiet_env env" using assms(1) by (simp_all add: calm_def)
  with removal_step [OF _ _ assms(3)] removed(4) show ?thesis by blast
next
  case (managed sp st infra d)
  from managed(6) show ?thesis
  proof (cases rule: sync_managed_cases)
    case (connected found cfg conn w4 w5)
    have "managed_env env st infra d found cfg"
      using managed connected(1,2) by (simp add: managed_env_def)
    moreover have "logs_in env infra d found cfg w conn w4" using connected(3) by (simp add: logs_in_def)
    ultimately show ?thesis
      using connected_step [OF _ _ _ assms(2) _ assms(4,3)] assms(1) by (simp add: calm_def)
  qed (auto intro!: spec_step.kept simp: start_operand_def)
qed (auto intro!: spec_step.kept)

subsection \<open>Runs\<close>

text \<open>
  A run of the operator process among other writers: calm syncs, and between them writes of other
  controllers to the same object, which leave the three conditions alone.
\<close>

inductive calm_run :: "'s World \<Rightarrow> 's World \<Rightarrow> bool" for w0 :: "'s World" where
  start: "calm_run w0 w0"
| sync: "calm_run w0 w \<Longrightarrow> calm env w \<Longrightarrow> controller_sync env w = Returned (err, w') \<Longrightarrow> calm_run w0 w'"
| others: "calm_run w0 w \<Longrightarrow> \<forall>t \<in> own_types controllerName. map_option said (lookup_condition st t) = reads w t \<Longrightarrow>
     calm_run w0 (w\<lparr>w_status := st\<rparr>)"

lemma calm_run_idle:
  assumes "calm_run w0 w" and "booted w0" and "name w0 = controllerName"
  shows "ctl_inv w \<and> name w = controllerName"
  using assms(1)
proof (induction rule: calm_run.induct)
  case start
  with assms(2,3) show ?case by (simp add: booted_inv)
next
  case (sync w env err w')
  then have "vSphereConnections w = []" by (simp add: ctl_inv_def)
  with sync show ?case using controller_sync_inv sync_keeps_name by metis
next
  case (others w st)
  then show ?case by (simp add: ctl_inv_def)
qed

text \<open>
  C3: the controller refines its specification. In every state that a run of the operator reaches,
  whatever other writers did to other conditions, a sync without write conflicts is a step of the
  small machine: it leaves the three conditions it owns alone, or they report one verdict (with the
  driver running afterwards unless that verdict blocks its installation), or they report a removed
  operator; and the running driver is never stopped.
\<close>
theorem sync_refines_spec:
  assumes "process_start e w0" and "calm_run w0 w"
    and "calm env w" and "controller_sync env w = Returned (err, w')"
  shows "spec_step controllerName (operandControllerStarted w, reads w) (operandControllerStarted w', reads w')"
  using calm_run_idle [OF assms(2)] process_start_booted [OF assms(1)] sync_step [OF assms(3) _ _ assms(4)]
  by (simp add: ctl_inv_def)

subsection \<open>Runs with conflicting writers\<close>

text \<open>
  A sync whose status updates may conflict, be refused or fail. The other writers leave the three
  conditions alone: every status an attempt reads agrees with the stored one on them, and so does
  the cached status from which the conditions of a removed operator are taken.
\<close>

definition agree :: "conditions \<Rightarrow> conditions \<Rightarrow> bool" where
  "agree a b \<longleftrightarrow> (\<forall>t \<in> own_types controllerName.
     map_option said (lookup_condition a t) = map_option said (lookup_condition b t))"

definition contended :: "'s Env \<Rightarrow> 's World \<Rightarrow> bool" where
  "contended env w \<longleftrightarrow> lawful_checks env
     \<and> (\<forall>k stored n cs. fst (env_attempt env k stored n) = Inr cs \<longrightarrow> agree cs stored)
     \<and> (case env_state env of Inl e \<Rightarrow> True | Inr (sp, st) \<Rightarrow> agree st (w_status w))"

inductive contended_run :: "'s World \<Rightarrow> 's World \<Rightarrow> bool" for w0 :: "'s World" where
  start: "contended_run w0 w0"
| sync: "contended_run w0 w \<Longrightarrow> contended env w \<Longrightarrow> controller_sync env w = Returned (err, w') \<Longrightarrow>
     contended_run w0 w'"
| others: "contended_run w0 w \<Longrightarrow> agree st (w_status w) \<Longrightarrow> contended_run w0 (w\<lparr>w_status := st\<rparr>)"

text \<open>What keeps the conditions of the controller free of a contradiction.\<close>

definition keeps_consistent :: "'s World \<Rightarrow> 's World \<Rightarrow> bool" where
  "keeps_consistent w w' \<longleftrightarrow> (name w = controllerName \<longrightarrow> name w' = controllerName
     \<and> (consistent controllerName (reads w) \<longrightarrow> consistent controllerName (reads w')))"

lemma keeps_trans [trans]: "keeps_consistent a b \<Longrightarrow> keeps_consistent b c \<Longrightarrow> keeps_consistent a c"
  by (simp add: keeps_consistent_def)

lemma keeps_same: "name w' = name w \<Longrightarrow> w_status w' = w_status w \<Longrightarrow> keeps_consistent w w'"
  by (simp add: keeps_consistent_def)

lemma written_consistent:
  assumes "UpdateStatus fs att = (e, Some new)"
    and "\<And>old i. fst (att i) = Inr old \<Longrightarrow>
           consistent controllerName (\<lambda>t. map_option said (lookup_condition (apply_all fs old) t))"
  shows "consistent controllerName (\<lambda>t. map_option said (lookup_condition new t))"
  using UpdateStatus_loop_written [of DefaultBackoff_Steps 0 fs att None] assms
  by (auto simp: UpdateStatus_def)

lemma update_consistent:
  assumes "controller_updateConditions env r status up b w = (e, w')"
    and "up = upgrade_status st" and "b = blocks_install st"
    and "Action r = CheckActionDegrade \<longleftrightarrow> st = ClusterCheckDegrade"
  shows "keeps_consistent w w'"
proof -
  let ?up = "fst (addUpgradeableBlockCondition r (name w) status up)"
  let ?fs = "updateConditions_funcs (env_now_status env) (name w) r ?up (operandControllerStarted w) b"
  let ?att = "env_attempt env (w_updates w) (w_status w)"
  have nm: "name w' = name w"
    using updateConditions_reported [OF assms(1)] by (simp add: reported_def)
  have w': "w_status w' = (case snd (UpdateStatus ?fs ?att) of None \<Rightarrow> w_status w | Some cs \<Rightarrow> cs)"
    using assms(1) by (auto simp: controller_updateConditions_def write_status_def updateConditions_simps Let_def)
  have cond: "cnd_Type ?up = name w @ ''Upgradeable''"
    "said ?up = (up, status_string (CheckStatus r), Reason r)"
    by (simp_all add: addUpgradeableBlockCondition_def OperatorStatusTypeUpgradeable_def Let_def)
  have says: "map_option said (lookup_condition (apply_all ?fs old) t) =
      says (name w) (operandControllerStarted w) st r (\<lambda>t. map_option said (lookup_condition old t)) t" for old t
    using updateConditions_funcs_read [OF cond(1), of "env_now_status env" r "operandControllerStarted w" b old t]
      cond(2) assms(2-4)
    by (simp add: says_def degrade_said_def del: map_option_eq_Some)
  show ?thesis
  proof (cases "snd (UpdateStatus ?fs ?att)")
    case None
    with w' nm show ?thesis by (intro keeps_same) simp_all
  next
    case (Some new)
    then obtain e' where "UpdateStatus ?fs ?att = (e', Some new)" by (metis prod.collapse)
    moreover have "consistent (name w) (\<lambda>t. map_option said (lookup_condition (apply_all ?fs old) t))" for old
      by (rule says_consistent [of "name w" _ "operandControllerStarted w" st r
            "\<lambda>t. map_option said (lookup_condition old t)"]) (intro ballI says)
    ultimately have "name w = controllerName \<Longrightarrow>
        consistent controllerName (\<lambda>t. map_option said (lookup_condition new t))"
      using written_consistent by metis
    with Some w' nm show ?thesis by (simp add: keeps_consistent_def)
  qed
qed

lemma block_consistent:
  assumes "wf_result r" and "blockUpgradeOrDegradeCluster env r infra status w = Returned ((e, b, u), w')"
  shows "keeps_consistent w w'"
proof -
  let ?st = "cluster_status (getCheckAPIDependency env infra) r"
  obtain r' where c: "CheckClusterStatus r (getCheckAPIDependency env infra) = Returned (?st, r')"
    and d: "Action r' = CheckActionDegrade \<longleftrightarrow> ?st = ClusterCheckDegrade"
    using CheckClusterStatus_status [OF assms(1)] by blast
  note s = block_steps [OF c assms(2)]
  show ?thesis
  proof (cases "?st = ClusterCheckAllGood")
    case True
    with s(3) show ?thesis by (simp add: keeps_same)
  next
    case False
    then obtain w0 where w0: "name w0 = name w" "w_status w0 = w_status w"
      "controller_updateConditions env r' status (upgrade_status ?st) (blocks_install ?st) w0 = (e, w')"
      using s(4) by blast
    from keeps_same [OF w0(1,2)] update_consistent [OF w0(3) refl refl d] show ?thesis by (rule keeps_trans)
  qed
qed

lemma after_checks_consistent:
  assumes "wf_result r" and "after_checks env infra status False d r w = Returned ((block, err), w')"
  shows "keeps_consistent w w'"
proof -
  let ?api = "getCheckAPIDependency env infra" and ?w0 = "w\<lparr>w_timers := w_timers w @ [d]\<rparr>"
  have w0: "keeps_consistent w ?w0" by (rule keeps_same) simp_all
  show ?thesis
    using assms(2)
  proof (cases rule: after_checks_cases)
    case (stopped u)
    from keeps_trans [OF w0 block_consistent [OF assms(1) stopped(1)]] show ?thesis .
  next
    case (running u w1 w2 w3)
    obtain r' where r': "CheckClusterStatus r ?api = Returned (cluster_status ?api r, r')"
      "Action r' = CheckActionDegrade \<longleftrightarrow> cluster_status ?api r = ClusterCheckDegrade"
      "cluster_status ?api r \<noteq> ClusterCheckDegrade \<longrightarrow> r' = r"
      using CheckClusterStatus_status [OF assms(1)] by blast
    note s = block_steps(1,2) [OF r'(1) running(1)]
    have st: "cluster_status ?api r = ClusterCheckAllGood \<or> cluster_status ?api r = ClusterCheckBlockUpgrade"
      using s(1) by (cases "cluster_status ?api r") auto
    have up: "(if False \<or> u then ConditionFalse else ConditionTrue) = upgrade_status (cluster_status ?api r)"
      "False = blocks_install (cluster_status ?api r)"
      "Action r = CheckActionDegrade \<longleftrightarrow> cluster_status ?api r = ClusterCheckDegrade"
      using st s(2) r' by auto
    have "keeps_consistent w1 w3"
      by (rule keeps_same) (simp_all add: running(3,4) start_operand_def)
    from keeps_trans [OF keeps_trans [OF keeps_trans [OF w0 block_consistent [OF assms(1) running(1)]] this]
        update_consistent [OF running(5) up]] show ?thesis .
  qed
qed

lemma install_consistent:
  assumes "lawful_checks env" and "wf_result conn"
    and "CheckError conn \<noteq> None \<longrightarrow> blocks_install (cluster_status (getCheckAPIDependency env infra) conn)"
    and "installCSIDriver env infra d conn st w = Returned ((block, err), w')"
  shows "keeps_consistent w w'"
proof (cases "CheckError conn = None")
  case True
  from assms(2) True assms(4) show ?thesis
  proof (cases rule: connected_install_cases)
    case (checked w2 nd rs v)
    have "keeps_consistent w (w2\<lparr>vSphereChecker := v\<rparr>)"
      using write_secret_same(1,3) [OF checked(1)] by (intro keeps_same) simp_all
    from keeps_trans [OF this after_checks_consistent [OF checks_wf [OF assms(1) checked(2)] checked(4)]]
    show ?thesis .
  qed (use write_secret_same(1,3) in \<open>auto intro!: keeps_same\<close>)
next
  case False
  obtain r' where c: "CheckClusterStatus conn (getCheckAPIDependency env infra) =
      Returned (cluster_status (getCheckAPIDependency env infra) conn, r')"
    using CheckClusterStatus_status [OF assms(2)] by blast
  have blocks: "blocks_install (cluster_status (getCheckAPIDependency env infra) conn)"
    using False assms(3) by simp
  from assms(4) show ?thesis
  proof (cases rule: installCSIDriver_cases)
    case (stopped cb)
    from block_consistent [OF assms(2) this(1)] show ?thesis .
  qed (use block_steps(1) [OF c] blocks in blast)+
qed

lemma agree_consistent: "agree a b \<Longrightarrow>
    consistent controllerName (\<lambda>t. map_option said (lookup_condition a t)) \<longleftrightarrow>
    consistent controllerName (\<lambda>t. map_option said (lookup_condition b t))"
  by (rule consistent_cong) (simp add: agree_def)

lemma sc_consistent:
  assumes "contended env x" and "syncStorageClassController env infra w = Returned (e, w')"
  shows "keeps_consistent w w'"
proof -
  obtain u and r :: sc_sync and c1 s1 w1 m where
    y: "Sync ((env_sc env)\<lparr>env_infra := infra, env_driver := env_drivers env\<rparr>) (env_now_status env)
       storageClassControllerName (env_attempt env (w_updates w) (w_status w))
       (vSphereConnections w) (storageClassController w) (w_vcenter w) = Returned (u, r, c1, s1)"
    and s: "write_status env (\<lambda>att. u) w = (e, w1)"
    and w': "w' = w1\<lparr>storageClassController := c1, w_vcenter := s1,
           w_sc_calls := w_sc_calls w1 @ sync_calls r, w_metrics := m\<rparr>"
    by (rule syncStorageClassController_cases [OF assms(2)])
  let ?fs = "sc_update_funcs (env_now_status env) storageClassControllerName (sync_result r) (sync_status r)"
  let ?att = "env_attempt env (w_updates w) (w_status w)"
  have u: "upd_written u = snd (UpdateStatus ?fs ?att)"
    using y by (auto simp: Sync_def sc_updateConditions_def elim!: obind_ReturnedE split: prod.splits)
  have st: "w_status w' = (case snd (UpdateStatus ?fs ?att) of None \<Rightarrow> w_status w | Some cs \<Rightarrow> cs)"
    and nm: "name w' = name w"
    using s u by (auto simp: w' write_status_def Let_def)
  show ?thesis
  proof (cases "snd (UpdateStatus ?fs ?att)")
    case None
    with st nm show ?thesis by (intro keeps_same) simp_all
  next
    case (Some new)
    then obtain e' where n: "UpdateStatus ?fs ?att = (e', Some new)" by (metis prod.collapse)
    have "agree (apply_all ?fs old) (w_status w)" if "fst (?att i) = Inr old" for old i
      using assms(1) that
      by (auto simp: contended_def agree_def sc_funcs_reads own_types_not_sc_types simp del: map_option_eq_Some)
    then have "consistent controllerName (reads w) \<Longrightarrow>
        consistent controllerName (\<lambda>t. map_option said (lookup_condition new t))"
      using written_consistent [OF n] agree_consistent by blast
    with Some st nm show ?thesis by (simp add: keeps_consistent_def)
  qed
qed

lemma removal_consistent:
  assumes "contended env w" and "env_state env = Inr (sp, st)" and "removeOperands env st w = (err, w')"
  shows "keeps_consistent w w'"
proof (cases "name w = controllerName")
  case nm: True
  let ?fs = "removeConditions_funcs (env_now_status env) controllerName st"
  let ?att = "env_attempt env (w_updates w) (w_status w)"
  have w': "name w' = name w" "w_status w' = w_status w \<or>
      w_status w' = (case snd (UpdateStatus ?fs ?att) of None \<Rightarrow> w_status w | Some cs \<Rightarrow> cs)"
    using assms(3) nm
    by (auto simp: removeOperands_def write_status_def removeConditions_def Let_def
        split: if_splits prod.splits option.splits)
  have "consistent controllerName (\<lambda>t. map_option said (lookup_condition (apply_all ?fs old) t))"
    if o: "fst (?att i) = Inr old" for old i
  proof -
    have ag: "agree old (w_status w)" "agree st (w_status w)"
      using assms(1,2) o by (auto simp: contended_def)
    have "lookup_condition old t = None"
      if "t \<in> own_types controllerName" "t \<notin> set (removed_types controllerName st)" "t \<noteq> controllerName @ ''Disabled''" for t
    proof -
      have "t \<notin> cnd_Type ` set st"
        using that
        by (auto simp: own_types_def removed_types_def controllerName_def vsphereOperatorPrefix_def
            has_prefix_def getDisabledConditionName_def untouchableConditions_def)
      then have "lookup_condition st t = None"
        by (auto simp: lookup_condition_def FindOperatorCondition_def find_from_None)
      moreover have "map_option said (lookup_condition old t) = map_option said (lookup_condition st t)"
        using ag that(1) unfolding agree_def by metis
      ultimately show ?thesis by simp
    qed
    then show ?thesis
      using own_types_distinct [of controllerName]
      by (auto simp: consistent_def says_true_def removeConditions_funcs_read own_types_def
          simp del: map_option_eq_Some)
  qed
  then have "consistent controllerName (\<lambda>t. map_option said (lookup_condition new t))"
    if "snd (UpdateStatus ?fs ?att) = Some new" for new
    using written_consistent [of ?fs ?att _ new] that by (metis prod.collapse)
  with w' show ?thesis by (auto simp: keeps_consistent_def split: option.splits)
qed (simp add: keeps_consistent_def)

lemma contended_sync:
  assumes "contended env w" and "vSphereConnections w = []" and "controller_sync env w = Returned (err, w')"
  shows "keeps_consistent w w'"
  using assms(3)
proof (cases rule: controller_sync_cases)
  case (removed sp st)
  with removal_consistent [OF assms(1)] show ?thesis by metis
next
  case (managed sp st infra d)
  from managed(6) show ?thesis
  proof (cases rule: sync_managed_cases)
    case (connected found cfg conn w4 w5)
    let ?n = "note_connection env conn st w4" and ?infra = "full_infra cfg infra"
    have me: "managed_env env st infra d found cfg"
      using managed connected(1,2) by (simp add: managed_env_def)
    have "logs_in env infra d found cfg w conn w4" using connected(3) by (simp add: logs_in_def)
    then obtain conns where l: "wf_result conn"
      "CheckError conn \<noteq> None \<longrightarrow> Action conn = CheckActionDegrade
         \<or> Action conn = CheckActionBlockUpgradeOrDegrade
           \<and> CheckStatus conn = CheckStatusVSphereConnectionFailed"
      "name w4 = name w" "w_status w4 = w_status w"
      using logs_in_world [OF _ assms(2)] by metis
    have b: "CheckError conn \<noteq> None \<longrightarrow> blocks_install (cluster_status (getCheckAPIDependency env ?infra) conn)"
      using l(2) by (auto simp: cluster_status_managed [OF me])
    have lc: "lawful_checks env" using assms(1) by (simp add: contended_def)
    have n: "keeps_consistent w ?n" using l(3,4) by (intro keeps_same) (simp_all add: note_connection_same)
    note i = keeps_trans [OF n install_consistent [OF lc l(1) b]]
    have "keeps_consistent w w5"
      using connected(4)
    proof (cases rule: sync_connected_cases)
      case (stopped block)
      from i [OF stopped(1)] show ?thesis .
    next
      case (storage w1)
      from keeps_trans [OF i [OF storage(1)] sc_consistent [OF assms(1) storage(3)]] show ?thesis .
    qed
    then show ?thesis by (simp add: connected(5) keeps_consistent_def deferred_logout_def)
  qed (simp_all add: keeps_same start_operand_def)
qed (simp_all add: keeps_same)

lemma contended_run_consistent:
  assumes "contended_run w0 w" and "booted w0" and "name w0 = controllerName"
  shows "ctl_inv w \<and> name w = controllerName
     \<and> (consistent controllerName (reads w0) \<longrightarrow> consistent controllerName (reads w))"
  using assms(1)
proof (induction rule: contended_run.induct)
  case start
  with assms(2,3) show ?case by (simp add: booted_inv)
next
  case (sync w env err w')
  then have idle: "vSphereConnections w = []" by (simp add: ctl_inv_def)
  from contended_sync [OF sync(2) idle sync(3)] sync controller_sync_inv show ?case
    unfolding keeps_consistent_def by metis
next
  case (others w st)
  then show ?case using agree_consistent by (simp add: ctl_inv_def)
qed

text \<open>
  C5: no upgrade of a degraded or disabled operator. If the conditions were not contradictory when
  the process started (it may have been upgradeable, or degraded, or disabled), then after any run of
  syncs the cluster never reads that the operator is upgradeable together with a degraded check or a
  disabled operator. The status updates of a sync may conflict with other writers, be refused or
  fail; the other writers only leave these three conditions alone, and the cached status a sync
  starts from is up to date on them.
\<close>
theorem upgradeable_excludes_failure:
  assumes "process_start e w0" and "contended_run w0 w"
    and "\<not> (says_true (reads w0) ''VMwareVSphereControllerUpgradeable''
       \<and> (says_true (reads w0) ''VMwareVSphereControllerDisabled''
          \<or> says_true (reads w0) ''VMwareVSphereOperatorCheckDegraded''))"
    and "reads w ''VMwareVSphereControllerUpgradeable'' = Some (ConditionTrue, reason, message)"
  shows "\<not> says_true (reads w) ''VMwareVSphereControllerDisabled''
     \<and> \<not> says_true (reads w) ''VMwareVSphereOperatorCheckDegraded''"
proof -
  have "consistent controllerName (reads w0)"
    using assms(3) by (simp add: consistent_def controllerName_def)
  then have "consistent controllerName (reads w)"
    using contended_run_consistent [OF assms(2)] process_start_booted [OF assms(1)] by blast
  moreover have "says_true (reads w) ''VMwareVSphereControllerUpgradeable''"
    using assms(4) unfolding says_true_def by blast
  ultimately show ?thesis by (simp add: consistent_def controllerName_def)
qed

subsection \<open>Examples\<close>

lemma good_calm: "calm good_env lab_world"
proof -
  have "env_state good_env = Inr (\<lparr>Spec_ManagementState = Managed, Spec_LogLevel = Normal, Spec_ObservedConfig = []\<rparr>, [])"
    by (simp add: lab_env_def)
  with lab_quiet lab_lawful lab_world_idle(5) show ?thesis by (simp add: calm_def)
qed

lemma lab_process: "process_start example_start lab_world"
proof -
  have "RunOperator example_start = Returned (Inr example_started)"
    unfolding RunOperator_serving by (simp add: example_start_def example_started_def getReleaseVersion_def)
  moreover have "VSphereController.truncate lab_world = main_controller example_started"
    by (simp add: lab_world_def example_started_def NewVSphereController_def VSphereController.truncate_def
        controllerName_def defaultNamespace_def DefaultNamespace_def)
  moreover have "w_sessions lab_world = []" "w_starts lab_world = 0" by (simp_all add: lab_world_def)
  ultimately show ?thesis unfolding process_start_def by blast
qed

theorem sync_refines_spec_witness:
  "\<exists>err w'. controller_sync good_env lab_world = Returned (err, w') \<and> operandControllerStarted w'
     \<and> spec_step controllerName (False, reads lab_world) (True, reads w')"
proof -
  obtain w4 err w' where 1: "controller_sync good_env lab_world = Returned (err, w')"
    "operandControllerStarted w'"
    by (rule first_sync)
  from sync_refines_spec [OF lab_process calm_run.start good_calm 1(1)] 1 lab_world_idle(3)
  show ?thesis by auto
qed

lemma good_contended: "contended good_env lab_world"
  using good_calm
  by (auto simp: contended_def calm_def quiet_env_def quiet_def agree_def split: sum.splits)

theorem upgradeable_excludes_failure_witness:
  "\<exists>w. contended_run lab_world w \<and> says_true (reads w) ''VMwareVSphereControllerUpgradeable''
     \<and> \<not> says_true (reads w) ''VMwareVSphereControllerDisabled''"
proof -
  obtain err w' reason m where s: "controller_sync good_env lab_world = Returned (err, w')"
    and up: "reads w' ''VMwareVSphereControllerUpgradeable'' = Some (ConditionTrue, reason, m)"
    using first_sync by metis
  have run: "contended_run lab_world w'" by (rule contended_run.sync [OF contended_run.start good_contended s])
  have "\<not> (says_true (reads lab_world) ''VMwareVSphereControllerUpgradeable''
      \<and> (says_true (reads lab_world) ''VMwareVSphereControllerDisabled''
         \<or> says_true (reads lab_world) ''VMwareVSphereOperatorCheckDegraded''))"
    by (simp add: says_true_def lab_world_idle(5) cond_simps)
  from upgradeable_excludes_failure [OF lab_process run this up] run up show ?thesis
    unfolding says_true_def by blast
qed

end
