(* ===== verification/Hybrid_Environment.thy ===== *)
theory Hybrid_Environment
  imports Controller_Examples
begin

text \<open>
  \<open>openshift-tests/e2e/hybrid_environment.go\<close>: the end-to-end test of a cluster whose nodes are not all
  vSphere machines. Its helpers and both tests are functions on a cluster they only see through the
  API; \<open>Eventually\<close> polls, and between two polls the cluster does whatever it does. The theorem at
  the end proves of the operator what the second test waits for.
\<close>

subsection \<open>Nodes by platform\<close>

definition vSpherePlatformType :: string where
  "vSpherePlatformType = ''vsphere''"

definition platformTypeLabelKey :: string where
  "platformTypeLabelKey = ''node.openshift.io/platform-type''"

definition on_vsphere :: "Node \<Rightarrow> bool" where
  "on_vsphere node \<longleftrightarrow> node_Labels node platformTypeLabelKey = Some vSpherePlatformType"

fun categorize_loop :: "Node list \<Rightarrow> string list \<Rightarrow> string list \<Rightarrow> string list \<times> string list" where
  "categorize_loop [] nodesWithVSphere nodesWithoutLabel = (nodesWithVSphere, nodesWithoutLabel)"
| "categorize_loop (node # rest) nodesWithVSphere nodesWithoutLabel =
     (if on_vsphere node
      then categorize_loop rest (nodesWithVSphere @ [node_Name node]) nodesWithoutLabel
      else categorize_loop rest nodesWithVSphere (nodesWithoutLabel @ [node_Name node]))"

definition categorizeNodesByPlatform :: "Node list result \<Rightarrow> (string list \<times> string list) result" where
  "categorizeNodesByPlatform listed =
     rbind listed (\<lambda>nodes.
       if nodes = [] then Inl (Failure ''no nodes found in the cluster'')
       else Inr (categorize_loop nodes [] []))"

definition isHybridEnvironment :: "string list \<Rightarrow> string list \<Rightarrow> bool" where
  "isHybridEnvironment nodesWithVSphere nodesWithoutLabel \<longleftrightarrow>
     0 < length nodesWithVSphere \<and> 0 < length nodesWithoutLabel"

lemma categorize_loop_filter:
  "categorize_loop nodes vs os =
     (vs @ map node_Name (filter on_vsphere nodes), os @ map node_Name (filter (\<lambda>n. \<not> on_vsphere n) nodes))"
  by (induction nodes arbitrary: vs os) simp_all

lemma categorize_nodes:
  "categorizeNodesByPlatform (Inr nodes) = Inr (vs, os) \<longleftrightarrow>
     nodes \<noteq> [] \<and> vs = map node_Name (filter on_vsphere nodes)
       \<and> os = map node_Name (filter (\<lambda>n. \<not> on_vsphere n) nodes)"
  by (auto simp: categorizeNodesByPlatform_def categorize_loop_filter)

lemma hybrid_nodes:
  assumes "categorizeNodesByPlatform (Inr nodes) = Inr (vs, os)"
  shows "isHybridEnvironment vs os \<longleftrightarrow> (\<exists>n \<in> set nodes. on_vsphere n) \<and> (\<exists>n \<in> set nodes. \<not> on_vsphere n)"
  using assms by (auto simp: categorize_nodes isHybridEnvironment_def filter_empty_conv)

subsection \<open>The cluster seen through its API\<close>

text \<open>
  \<open>hy_wait d c\<close> is the cluster \<open>d\<close> seconds later: controllers run and users act while the test sleeps.
\<close>
record 'c HybridApi =
  hy_nodes :: "'c \<Rightarrow> Node list result"
  hy_getState :: "'c \<Rightarrow> ManagementState result" \<comment> \<open>of the ClusterCSIDriver\<close>
  hy_updateState :: "ManagementState \<Rightarrow> 'c \<Rightarrow> go_error option \<times> 'c"
  hy_getOperator :: "'c \<Rightarrow> conditions result" \<comment> \<open>the ClusterOperator \<open>storage\<close>\<close>
  hy_wait :: "nat \<Rightarrow> 'c \<Rightarrow> 'c"

text \<open>The timeouts and intervals of the test, in seconds.\<close>

definition clusterCSIDriverUpdateTimeout :: nat where "clusterCSIDriverUpdateTimeout = 120"
definition clusterCSIDriverUpdatePollInterval :: nat where "clusterCSIDriverUpdatePollInterval = 2"
definition operatorHealthTimeout :: nat where "operatorHealthTimeout = 600"
definition operatorHealthPollInterval :: nat where "operatorHealthPollInterval = 5"
definition operatorDegradationTimeout :: nat where "operatorDegradationTimeout = 300"

text \<open>\<open>Eventually\<close> of gomega: polls at once and after each interval, until the timeout is over.\<close>

fun poll :: "('c \<Rightarrow> 'c) \<Rightarrow> ('c \<Rightarrow> bool \<times> 'c) \<Rightarrow> nat \<Rightarrow> 'c \<Rightarrow> bool \<times> 'c" where
  "poll sleep f 0 c = f c"
| "poll sleep f (Suc n) c =
     (case f c of (ok, c1) \<Rightarrow> if ok then (True, c1) else poll sleep f n (sleep c1))"

definition Eventually :: "'c HybridApi \<Rightarrow> nat \<Rightarrow> nat \<Rightarrow> ('c \<Rightarrow> bool \<times> 'c) \<Rightarrow> 'c \<Rightarrow> bool \<times> 'c" where
  "Eventually api timeout interval f c = poll (hy_wait api interval) f (timeout div interval) c"

definition IsStatusConditionPresentAndEqual :: "conditions \<Rightarrow> string \<Rightarrow> ConditionStatus \<Rightarrow> bool" where
  "IsStatusConditionPresentAndEqual conditions conditionType status =
     (case find (\<lambda>c. cnd_Type c = conditionType) conditions of
        None \<Rightarrow> False | Some condition \<Rightarrow> cnd_Status condition = status)"

definition verifyClusterCSIDriverState :: "'c HybridApi \<Rightarrow> ManagementState \<Rightarrow> 'c \<Rightarrow> bool" where
  "verifyClusterCSIDriverState api expectedState c =
     (case hy_getState api c of Inl err \<Rightarrow> False | Inr managementState \<Rightarrow> managementState = expectedState)"

definition update_try :: "'c HybridApi \<Rightarrow> ManagementState \<Rightarrow> 'c \<Rightarrow> bool \<times> 'c" where
  "update_try api targetState c =
     (case hy_getState api c of
        Inl err \<Rightarrow> (False, c)
      | Inr managementState \<Rightarrow>
          if managementState = targetState then (True, c)
          else (case hy_updateState api targetState c of (err, c1) \<Rightarrow> (err = None, c1)))"

definition updateClusterCSIDriverState :: "'c HybridApi \<Rightarrow> ManagementState \<Rightarrow> 'c \<Rightarrow> bool \<times> 'c" where
  "updateClusterCSIDriverState api targetState =
     Eventually api clusterCSIDriverUpdateTimeout clusterCSIDriverUpdatePollInterval
       (update_try api targetState)"

definition operator_healthy :: "conditions \<Rightarrow> bool" where
  "operator_healthy conditions \<longleftrightarrow>
     IsStatusConditionPresentAndEqual conditions ''Available'' ConditionTrue
     \<and> \<not> IsStatusConditionPresentAndEqual conditions ''Progressing'' ConditionTrue
     \<and> \<not> IsStatusConditionPresentAndEqual conditions ''Degraded'' ConditionTrue"

definition operator_sees :: "'c HybridApi \<Rightarrow> (conditions \<Rightarrow> bool) \<Rightarrow> 'c \<Rightarrow> bool" where
  "operator_sees api P c = (case hy_getOperator api c of Inl err \<Rightarrow> False | Inr conditions \<Rightarrow> P conditions)"

definition waitForOperatorHealth :: "'c HybridApi \<Rightarrow> 'c \<Rightarrow> bool \<times> 'c" where
  "waitForOperatorHealth api =
     Eventually api operatorHealthTimeout operatorHealthPollInterval
       (\<lambda>c. (operator_sees api operator_healthy c, c))"

subsection \<open>The two tests\<close>

datatype test_outcome = TestPassed | TestFailed | TestSkipped

text \<open>Lines 173 to 200: \<open>Managed\<close> when every node is labelled, \<open>Removed\<close> in a hybrid environment.\<close>

definition labels_test :: "'c HybridApi \<Rightarrow> 'c \<Rightarrow> test_outcome" where
  "labels_test api c =
     (case categorizeNodesByPlatform (hy_nodes api c) of
        Inl err \<Rightarrow> TestFailed
      | Inr (nodesWithVSphereLabel, nodesWithoutLabel) \<Rightarrow>
          let allNodesAreVSphere = (length nodesWithoutLabel = 0 \<and> 0 < length nodesWithVSphereLabel);
              hybridEnv = isHybridEnvironment nodesWithVSphereLabel nodesWithoutLabel
          in if allNodesAreVSphere then
               (if verifyClusterCSIDriverState api Managed c then TestPassed else TestFailed)
             else if hybridEnv then
               (if verifyClusterCSIDriverState api Removed c then TestPassed else TestFailed)
             else TestFailed)"

definition degraded_or_not_upgradeable :: "conditions \<Rightarrow> bool" where
  "degraded_or_not_upgradeable conditions \<longleftrightarrow>
     IsStatusConditionPresentAndEqual conditions ''Degraded'' ConditionTrue
     \<or> IsStatusConditionPresentAndEqual conditions ''Upgradeable'' ConditionFalse"

text \<open>Lines 235 to 286: from setting \<open>Managed\<close> to the last expectation.\<close>

definition degradation_body :: "'c HybridApi \<Rightarrow> 'c \<Rightarrow> bool \<times> 'c" where
  "degradation_body api c =
     (case updateClusterCSIDriverState api Managed c of (updated, c1) \<Rightarrow>
        if \<not> updated then (False, c1)
        else (case Eventually api operatorDegradationTimeout operatorHealthPollInterval
                     (\<lambda>c. (operator_sees api degraded_or_not_upgradeable c, c)) c1 of (seen, c2) \<Rightarrow>
                if \<not> seen then (False, c2)
                else (operator_sees api degraded_or_not_upgradeable c2, c2)))"

text \<open>Lines 222 to 233, the deferred function: it also runs when an expectation has failed.\<close>

definition restore :: "'c HybridApi \<Rightarrow> ManagementState \<Rightarrow> 'c \<Rightarrow> bool \<times> 'c" where
  "restore api originalManagementState c =
     (case updateClusterCSIDriverState api originalManagementState c of (updated, c1) \<Rightarrow>
        if \<not> updated then (False, c1) else waitForOperatorHealth api c1)"

definition degradation_test :: "'c HybridApi \<Rightarrow> 'c \<Rightarrow> test_outcome \<times> 'c" where
  "degradation_test api c =
     (case categorizeNodesByPlatform (hy_nodes api c) of
        Inl err \<Rightarrow> (TestFailed, c)
      | Inr (nodesWithVSphereLabel, nodesWithoutLabel) \<Rightarrow>
          if \<not> isHybridEnvironment nodesWithVSphereLabel nodesWithoutLabel then (TestSkipped, c)
          else (case hy_getState api c of
                  Inl err \<Rightarrow> (TestFailed, c)
                | Inr originalManagementState \<Rightarrow>
                    (case degradation_body api c of (passed, c1) \<Rightarrow>
                       case restore api originalManagementState c1 of (restored, c2) \<Rightarrow>
                         (if passed \<and> restored then TestPassed else TestFailed, c2))))"

subsection \<open>The test leaves the cluster as it found it\<close>

text \<open>An API that serves the object, and a cluster in which nobody else changes its management state.\<close>

definition steady :: "'c HybridApi \<Rightarrow> ('c \<Rightarrow> ManagementState) \<Rightarrow> bool" where
  "steady api state \<longleftrightarrow>
     (\<forall>c. hy_getState api c = Inr (state c))
     \<and> (\<forall>s c. fst (hy_updateState api s c) = None \<and> state (snd (hy_updateState api s c)) = s)
     \<and> (\<forall>d c. state (hy_wait api d c) = state c)"

lemma poll_invariant:
  assumes "poll sleep f n c = (ok, c')" and "P c" and "\<And>c. P c \<Longrightarrow> P (sleep c)"
    and "\<And>c. P c \<Longrightarrow> P (snd (f c))"
  shows "P c'"
  using assms(1,2)
proof (induction n arbitrary: c)
  case 0
  then show ?case using assms(4) [of c] by simp
next
  case (Suc n)
  then show ?case
    using assms(3,4) by (force split: prod.splits if_splits)
qed

lemma Eventually_now: "fst (f c) \<Longrightarrow> Eventually api t i f c = f c"
  by (cases "t div i"; cases "f c") (simp_all add: Eventually_def)

lemma steady_update:
  assumes "steady api state"
  shows "fst (updateClusterCSIDriverState api s c)" "state (snd (updateClusterCSIDriverState api s c)) = s"
proof -
  obtain err c1 where u: "hy_updateState api s c = (err, c1)" by fastforce
  have "fst (hy_updateState api s c) = None" "state (snd (hy_updateState api s c)) = s"
    using assms by (simp_all add: steady_def)
  then have "err = None" "state c1 = s" by (simp_all add: u)
  then have upd: "fst (update_try api s c)" "state (snd (update_try api s c)) = s"
    using assms u by (simp_all add: update_try_def steady_def)
  then show "fst (updateClusterCSIDriverState api s c)" "state (snd (updateClusterCSIDriverState api s c)) = s"
    by (simp_all add: updateClusterCSIDriverState_def Eventually_now)
qed

lemma watching_keeps:
  assumes "steady api state" and "Eventually api t i (\<lambda>c. (P c, c)) c = (ok, c')"
  shows "state c' = state c"
  by (rule poll_invariant [of "hy_wait api i" "\<lambda>c. (P c, c)" "t div i" c ok])
    (use assms in \<open>simp_all add: steady_def Eventually_def\<close>)

text \<open>
  C39: the disruptive test cleans up after itself. Whatever it finds, skipped, passed or failed at any
  expectation, and whatever the operator does in the meantime, the ClusterCSIDriver has its old
  management state afterwards, as long as the API serves it and nobody else changes it; and a test
  that passed saw a hybrid cluster whose operator was reported as degraded or not upgradeable.
\<close>
theorem degradation_test_restores:
  assumes "steady api state" and "degradation_test api c = (result, c')"
  shows "state c' = state c \<and> (result = TestPassed \<longrightarrow>
     (\<exists>vs os c1. categorizeNodesByPlatform (hy_nodes api c) = Inr (vs, os) \<and> isHybridEnvironment vs os
        \<and> state c1 = Managed \<and> operator_sees api degraded_or_not_upgradeable c1))"
proof (cases "categorizeNodesByPlatform (hy_nodes api c)")
  case (Inr p)
  obtain vs os where p: "p = (vs, os)" by fastforce
  show ?thesis
  proof (cases "isHybridEnvironment vs os")
    case True
    obtain passed c1 where b: "degradation_body api c = (passed, c1)" by fastforce
    obtain restored c2 where r: "restore api (state c) c1 = (restored, c2)" by fastforce
    have res: "c' = c2" "result = (if passed \<and> restored then TestPassed else TestFailed)"
      using assms True b r by (auto simp: degradation_test_def steady_def Inr p)
    have "state c2 = state c"
      using r steady_update [OF assms(1), of "state c" c1] watching_keeps [OF assms(1)]
      by (auto simp: restore_def waitForOperatorHealth_def split: prod.splits if_splits)
    moreover have "state c1 = Managed \<and> operator_sees api degraded_or_not_upgradeable c1" if passed
      using b that steady_update [OF assms(1), of Managed c] watching_keeps [OF assms(1)]
      by (auto simp: degradation_body_def split: prod.splits if_splits)
    ultimately show ?thesis using True res Inr p by auto
  qed (use assms in \<open>auto simp: degradation_test_def Inr p\<close>)
qed (use assms in \<open>auto simp: degradation_test_def\<close>)

text \<open>A cluster for the witness: its operator reports itself not upgradeable while it is managed.\<close>

definition labelled_node :: "string \<Rightarrow> Node" where
  "labelled_node x = (good_node x)\<lparr>node_Labels :=
     [''kubernetes.io/os'' \<mapsto> ''linux'', ''node.openshift.io/platform-type'' \<mapsto> ''vsphere'']\<rparr>"

definition hybrid_pair :: "Node list" where
  "hybrid_pair = [labelled_node ''a'', good_node ''metal'']"

definition co_condition :: "string \<Rightarrow> ConditionStatus \<Rightarrow> OperatorCondition" where
  "co_condition t s = \<lparr>cnd_Type = t, cnd_Status = s, cnd_Reason = [], cnd_Message = [], cnd_LastTransitionTime = 0\<rparr>"

definition demo_api :: "ManagementState HybridApi" where
  "demo_api =
     \<lparr>hy_nodes = (\<lambda>c. Inr hybrid_pair), hy_getState = Inr, hy_updateState = (\<lambda>s c. (None, s)),
      hy_getOperator = (\<lambda>c. Inr [co_condition ''Available'' ConditionTrue,
        co_condition ''Upgradeable'' (if c = Managed then ConditionFalse else ConditionTrue)]),
      hy_wait = (\<lambda>d c. c)\<rparr>"

lemma hybrid_pair_kinds: "on_vsphere (labelled_node x)" "\<not> on_vsphere (good_node x)"
  by (simp_all add: on_vsphere_def labelled_node_def good_node_def platformTypeLabelKey_def
      vSpherePlatformType_def)

lemma hybrid_pair_sorted: "categorizeNodesByPlatform (Inr hybrid_pair) = Inr ([''a''], [''metal''])"
  by (simp add: categorize_nodes hybrid_pair_def hybrid_pair_kinds)
    (simp add: labelled_node_def good_node_def)

theorem degradation_test_restores_witness:
  "degradation_test demo_api Removed = (TestPassed, Removed)"
proof -
  have "steady demo_api (\<lambda>c. c)" by (simp add: steady_def demo_api_def)
  then have restored: "c' = Removed" if "degradation_test demo_api Removed = (result, c')" for result c'
    using degradation_test_restores [of demo_api "\<lambda>c. c"] that by auto
  have up: "updateClusterCSIDriverState demo_api x y = (True, x)" for x y
    by (simp add: updateClusterCSIDriverState_def Eventually_now update_try_def demo_api_def)
  have "operator_sees demo_api degraded_or_not_upgradeable Managed"
    "operator_sees demo_api operator_healthy Removed"
    by (simp_all add: operator_sees_def demo_api_def degraded_or_not_upgradeable_def operator_healthy_def
        IsStatusConditionPresentAndEqual_def co_condition_def)
  then have "fst (degradation_body demo_api Removed)" "snd (degradation_body demo_api Removed) = Managed"
    "fst (restore demo_api Removed Managed)"
    by (simp_all add: degradation_body_def restore_def waitForOperatorHealth_def up Eventually_now)
  then have "fst (degradation_test demo_api Removed) = TestPassed"
    by (auto simp: degradation_test_def demo_api_def hybrid_pair_sorted isHybridEnvironment_def
        split: prod.split)
  with restored show ?thesis by (cases "degradation_test demo_api Removed") simp
qed

subsection \<open>The operator does report a hybrid cluster\<close>

lemma node_never_connection:
  assumes "full_check args n = Returned r"
  shows "CheckStatus r \<noteq> CheckStatusVSphereConnectionFailed"
  using assms
  by (auto simp: full_check_def check_node_vm_def check_host_def host_verdict_def check_simps Let_def
      elim!: obind_ReturnedE split: option.splits sum.splits if_splits)

lemma unlabelled_node_degrades:
  assumes "gate_enabled (featureGate args) FeatureGateVSphereMixedNodeEnv" and "\<not> on_vsphere n"
  shows "\<exists>e. full_check args n = Returned (MakeClusterDegradedError CheckStatusNonVSphereNode e)"
  using assms
  by (auto simp: full_check_def check_node_vm_def validateVsphereNode_def on_vsphere_def
      platformTypeLabelKey_def vSpherePlatformType_def)

lemma other_check_status:
  assumes "r \<in> set (CheckExistingDriver_Check args)"
  shows "CheckStatus r \<noteq> CheckStatusVSphereConnectionFailed"
proof -
  have "CheckStatus q \<noteq> CheckStatusVSphereConnectionFailed" if "q \<in> set (csinode_loop ns)" for q ns
    using that by (induction ns) (auto simp: found_driver_on_def check_simps split: if_splits)
  then show ?thesis
    using assms by (auto simp: CheckExistingDriver_Check_def checkForCSINode_def check_simps
        split: sum.splits if_splits)
qed

lemma vcenter_check_status:
  assumes "VCenterChecker_Check args = Returned rs" and "r \<in> set rs"
  shows "CheckStatus r \<noteq> CheckStatusVSphereConnectionFailed"
proof -
  have "CheckStatus r \<noteq> CheckStatusVSphereConnectionFailed" if "vcenter_verdict v = Some r" for v
    using that by (auto simp: vcenter_verdict_def check_simps split: prod.splits option.splits if_splits)
  moreover have "\<exists>v. vcenter_verdict v = Some r" if "VCenterChecker_loop conns = Returned rs" for conns
    using that assms(2) by (induction conns) (auto split: option.splits)
  ultimately show ?thesis using assms(1) by (auto simp: VCenterChecker_Check_def)
qed

text \<open>The judged result of a cluster with a Linux node that is not on vSphere.\<close>

lemma hybrid_judged:
  assumes "checkers_may_return args rs" and "NodeLister (apiClient args) = Inr nodes"
    and "gate_enabled (featureGate args) FeatureGateVSphereMixedNodeEnv"
    and "n \<in> set nodes" and "linux_node n" and "\<not> on_vsphere n"
  shows "Action (judged rs) \<noteq> CheckActionPass"
    and "CheckStatus (judged rs) \<noteq> CheckStatusVSphereConnectionFailed"
    and "\<forall>m \<in> set nodes. linux_node m \<longrightarrow> on_vsphere m \<longrightarrow>
           full_check args m = Returned MakeClusterCheckResultPass \<Longrightarrow>
         Action (judged rs) = CheckActionDegrade \<and> CheckStatus (judged rs) = CheckStatusNonVSphereNode"
proof -
  obtain vc ns where v: "VCenterChecker_Check args = Returned vc" and may: "NodeChecker_may_return args ns"
    and rs: "rs = CheckExistingDriver_Check args @ vc @ ns"
    using assms(1) by (auto simp: checkers_may_return_def)
  let ?linux = "filter linux_node nodes"
  have listed: "ListLinuxNodes (apiClient args) = Inr ?linux" by (simp add: ListLinuxNodes_def assms(2))
  then obtain s where "pool_reach args ?linux s" "feeder_at s = Finished ns"
    using may by (auto simp: NodeChecker_may_return_def)
  note found = finished_results [OF this]
  obtain e where "full_check args n = Returned (MakeClusterDegradedError CheckStatusNonVSphereNode e)"
    using unlabelled_node_degrades [OF assms(3,6)] by blast
  then have "full_check args n \<noteq> Returned MakeClusterCheckResultPass" by (simp add: check_simps)
  then have ns: "ns \<noteq> []" "\<forall>r \<in> set ns. genuine args ?linux r"
    using found assms(4,5) by auto
  have act: "Action r \<noteq> CheckActionPass" if "r \<in> set ns" for r
  proof -
    have "CheckError r \<noteq> None" "wf_result r"
      using ns(2) that full_check_wf by (auto simp: genuine_def)
    then show ?thesis by (simp add: wf_result_error_iff [symmetric])
  qed
  have "last ns \<in> set rs" using ns(1) by (simp add: rs)
  then have worst: "Action (last ns) \<le> Action (overall_result rs)" by (rule overall_result_max)
  then have over: "Action (overall_result rs) \<noteq> CheckActionPass"
    using act [of "last ns"] ns(1) by (cases "Action (last ns)") (auto simp: action_order)
  then show "Action (judged rs) \<noteq> CheckActionPass" by (simp add: judged_def)
  have "overall_result rs \<in> set rs" using over by (rule overall_result_in)
  then show "CheckStatus (judged rs) \<noteq> CheckStatusVSphereConnectionFailed"
    using over other_check_status vcenter_check_status [OF v] ns(2) node_never_connection
    by (auto simp: judged_def rs genuine_def)
  assume pass: "\<forall>m \<in> set nodes. linux_node m \<longrightarrow> on_vsphere m \<longrightarrow>
      full_check args m = Returned MakeClusterCheckResultPass"
  have bad: "Action r = CheckActionDegrade \<and> CheckStatus r = CheckStatusNonVSphereNode" if r: "r \<in> set ns" for r
  proof -
    obtain m where m: "m \<in> set nodes" "linux_node m" "full_check args m = Returned r" "CheckError r \<noteq> None"
      using ns(2) r by (auto simp: genuine_def)
    then have "\<not> on_vsphere m" using pass by (auto simp: check_simps)
    with unlabelled_node_degrades [OF assms(3)] m(3) show ?thesis by (fastforce simp: check_simps)
  qed
  have most: "Action (overall_result rs) = CheckActionDegrade"
    using worst bad [of "last ns"] ns(1) by (cases "Action (overall_result rs)") (auto simp: action_order)
  obtain front rear where split: "rs = front @ overall_result rs # rear"
    and below: "\<forall>r \<in> set rear. Action r < Action (overall_result rs)"
    using overall_result_last [of rs] ns(1) rs by auto
  have "last rs = last ns" using ns(1) by (simp add: rs)
  then have "Action (last rs) = CheckActionDegrade" using bad [of "last ns"] ns(1) by simp
  moreover have "last rs = (if rear = [] then overall_result rs else last rear)"
    by (subst split) simp
  moreover have "Action (last rear) < CheckActionDegrade" if "rear \<noteq> []"
    using below most that by (metis last_in_set)
  ultimately have "rear = []" by (auto simp: action_order split: if_splits)
  then have "overall_result rs = last ns"
    using split \<open>last rs = last ns\<close> \<open>last rs = (if rear = [] then overall_result rs else last rear)\<close> by simp
  then show "Action (judged rs) = CheckActionDegrade \<and> CheckStatus (judged rs) = CheckStatusNonVSphereNode"
    using bad [of "last ns"] ns(1) by (simp add: judged_def)
qed

text \<open>
  C7: what the end-to-end test expects of the operator. With the feature gate of mixed nodes on and
  Linux nodes that the test calls hybrid, a managed sync whose checks run reports the operator as not
  upgradeable, whatever the order of the concurrent node checks; and when the labelled nodes pass
  their own checks, it reports it as degraded because of a node that is not on vSphere.
\<close>
theorem hybrid_cluster_reported:
  assumes "quiet_env env" and "lawful_checks env" and "managed_env env st infra d found cfg"
    and "vSphereConnections w = []" and "logs_in env infra d found cfg w conn w4"
    and "CheckError conn = None" and "controller_sync env w = Returned (err, w')"
    and "w_timers w' \<noteq> w_timers w"
    and "gate_enabled (featureGates w) FeatureGateVSphereMixedNodeEnv"
    and "env_nodes env = Inr nodes" and "\<forall>n \<in> set nodes. linux_node n"
    and "categorizeNodesByPlatform (Inr nodes) = Inr (vs, os)" and "isHybridEnvironment vs os"
  shows "(\<exists>reason m. reads w' (name w @ ''Upgradeable'') = Some (ConditionFalse, reason, m))
     \<and> ((\<forall>n \<in> set nodes. on_vsphere n \<longrightarrow>
           full_check (check_args env (full_infra cfg infra) w4) n = Returned MakeClusterCheckResultPass) \<longrightarrow>
        (\<exists>m. reads w' ''VMwareVSphereOperatorCheckDegraded'' = Some (ConditionTrue, ''non_vsphere_node'', m)))"
proof -
  let ?args = "check_args env (full_infra cfg infra) w4"
  let ?api = "getCheckAPIDependency env (full_infra cfg infra)"
  obtain rs r nextDelay where rs: "env_checks env ?args = Returned rs" and r: "CheckStatus r = CheckStatus (judged rs)"
    and says: "\<forall>t. t \<notin> set sc_types \<longrightarrow> reads w' t =
      says (name w) (operandControllerStarted w') (cluster_status ?api (judged rs)) r (reads w) t"
    using checked_sync [OF assms(1-8)] by (auto simp: Let_def simp del: map_option_eq_Some)
  have gates: "featureGates w4 = featureGates w"
    using logs_in_world [OF assms(5,4)] by metis
  obtain n where n: "n \<in> set nodes" "\<not> on_vsphere n" using hybrid_nodes [OF assms(12)] assms(13) by blast
  have may: "checkers_may_return ?args rs" using assms(2) rs by (auto simp: lawful_checks_def)
  have lister: "NodeLister (apiClient ?args) = Inr nodes"
    and gate: "gate_enabled (featureGate ?args) FeatureGateVSphereMixedNodeEnv"
    using assms(9,10) gates by (simp_all add: check_args_def getCheckAPIDependency_def)
  have linux: "linux_node n" using n(1) assms(11) by blast
  note judged = hybrid_judged [OF may lister gate n(1) linux n(2)]
  have "upgrade_status (cluster_status ?api (judged rs)) = ConditionFalse"
    using judged(1,2) by (simp add: cluster_status_managed [OF assms(3)] split: CheckAction.split)
  then have up: "\<exists>reason m. reads w' (name w @ ''Upgradeable'') = Some (ConditionFalse, reason, m)"
    using says own_types_not_sc(1) by (simp add: says_def del: map_option_eq_Some)
  have "\<exists>m. reads w' ''VMwareVSphereOperatorCheckDegraded'' = Some (ConditionTrue, ''non_vsphere_node'', m)"
    if "\<forall>n \<in> set nodes. on_vsphere n \<longrightarrow> full_check ?args n = Returned MakeClusterCheckResultPass"
  proof -
    have j: "Action (judged rs) = CheckActionDegrade" "CheckStatus (judged rs) = CheckStatusNonVSphereNode"
      using judged(3) that by auto
    have "cluster_status ?api (judged rs) = ClusterCheckDegrade"
      by (simp add: cluster_status_managed [OF assms(3)] j)
    moreover have "''VMwareVSphereOperatorCheckDegraded'' \<notin> set sc_types"
      by (simp add: sc_types_def storageClassControllerName_def)
    ultimately show ?thesis
      using says r j(2) condition_types_distinct [of "name w"]
      by (simp add: says_def eq_commute del: map_option_eq_Some)
  qed
  with up show ?thesis by blast
qed

text \<open>
  The test counts every node, the operator only looks at Linux nodes: a cluster is hybrid for the test
  because of a node with another operating system, and its node check passes all the same.
\<close>
theorem other_systems_not_checked:
  assumes "NodeLister (apiClient args) = Inr nodes" and "NodeChecker_may_return args rs"
    and "categorizeNodesByPlatform (Inr nodes) = Inr (vs, os)" and "isHybridEnvironment vs os"
    and "\<forall>n \<in> set nodes. on_vsphere n \<longleftrightarrow> linux_node n"
    and "\<forall>n \<in> set nodes. on_vsphere n \<longrightarrow> full_check args n = Returned MakeClusterCheckResultPass"
  shows "rs = [MakeClusterCheckResultPass]"
proof -
  have listed: "ListLinuxNodes (apiClient args) = Inr (filter linux_node nodes)"
    by (simp add: ListLinuxNodes_def assms(1))
  then obtain s where "pool_reach args (filter linux_node nodes) s" "feeder_at s = Finished rs"
    using assms(2) by (auto simp: NodeChecker_may_return_def)
  from finished_results [OF this] show ?thesis
    using assms(5,6) by (cases rs) (auto simp: genuine_def check_simps)
qed

subsection \<open>A hybrid cluster\<close>

definition hybrid_checks :: "ClusterCheckResult list \<Rightarrow> CheckArgs \<Rightarrow> ClusterCheckResult list outcome" where
  "hybrid_checks ns args =
     (case VCenterChecker_Check args of
        Returned v \<Rightarrow>
          if NodeChecker_may_return args ns then Returned (CheckExistingDriver_Check args @ v @ ns)
          else Panicked []
      | Panicked m \<Rightarrow> Panicked m
      | Exited \<Rightarrow> Exited)"

definition hybrid_env :: "ClusterCheckResult list \<Rightarrow> list_server Env" where
  "hybrid_env ns = (lab_env True no_csidriver ''7.0.3'' [] 0)
     \<lparr>env_nodes := Inr hybrid_pair, env_checks := hybrid_checks ns\<rparr>"

definition hybrid_world :: "list_server World" where
  "hybrid_world = lab_world\<lparr>featureGates := [FeatureGateVSphereMixedNodeEnv]\<rparr>"

lemma hybrid_env_facts:
  "quiet_env (hybrid_env ns)" "lawful_checks (hybrid_env ns)"
  "managed_env (hybrid_env ns) [] lab_infra lab_driver False lab_config"
  using lab_quiet lab_managed [OF no_csidriver_absent, of True "''7.0.3''" "[]" 0]
  by (auto simp: hybrid_env_def quiet_env_def managed_env_def cloud_config_def lawful_checks_def
      hybrid_checks_def checkers_may_return_def split: outcome.splits if_splits)

lemma hybrid_pair_listed:
  assumes "NodeLister (apiClient args) = Inr hybrid_pair"
  shows "ListLinuxNodes (apiClient args) = Inr hybrid_pair"
  using assms by (simp add: ListLinuxNodes_def hybrid_pair_def linux_node_def labelled_node_def good_node_def)

text \<open>The labelled node passes: its machine and its host are found by the laboratory's vCenter.\<close>

lemma lab_no_panic:
  assumes "vmConnection args = [lab_connection True v]"
  shows "full_check args n \<noteq> Panicked m"
proof -
  have c: "Client (lab_connection True v) = Some (lab_client v)" by (simp add: lab_connection_def)
  have "\<exists>r. getVM args n = Returned r \<and> (\<forall>vm. r = Inr vm \<longrightarrow>
      vm_Config_Version vm \<noteq> None \<and> vm_Runtime_Host vm \<noteq> None)"
  proof -
    have dcs: "getVM_dcs (lab_client v) n u ds = Inr (Some vm) \<Longrightarrow>
        vm_Config_Version vm \<noteq> None \<and> vm_Runtime_Host vm \<noteq> None" for u ds vm
      by (induction ds) (auto simp: lab_client_def example_client_def split: sum.splits option.splits if_splits)
    show ?thesis
      using dcs by (auto simp: getVM_def assms c split: sum.splits option.splits)
  qed
  moreover have "check_host args h \<noteq> Panicked m" for h
    by (auto simp: check_host_def getHost_def assms c lab_client_def example_client_def split: option.split)
  ultimately show ?thesis
    by (auto simp: full_check_def check_node_vm_def Let_def obind_Panicked split: option.splits sum.splits if_splits)
qed

theorem hybrid_cluster_reported_witness:
  "\<exists>ns err w' reason m. controller_sync (hybrid_env ns) hybrid_world = Returned (err, w')
     \<and> reads w' ''VMwareVSphereControllerUpgradeable'' = Some (ConditionFalse, reason, m)"
proof -
  define pass where "pass = lab_login_result True"
  have idle: "vSphereConnections hybrid_world = []" "name hybrid_world = ''VMwareVSphereController''"
    "featureGates hybrid_world = [FeatureGateVSphereMixedNodeEnv]"
    by (simp_all add: hybrid_world_def lab_world_def)
  obtain w4 where l: "logs_in (lab_env True no_csidriver ''7.0.3'' [] 0) lab_infra lab_driver False lab_config
      hybrid_world pass w4" "vSphereConnections w4 = [lab_connection True ''7.0.3'']"
    unfolding pass_def by (rule lab_login [OF idle(1)])
  have env_eq: "getCheckAPIDependency (hybrid_env ns) infra =
      (getCheckAPIDependency good_env infra)\<lparr>NodeLister := Inr hybrid_pair\<rparr>" for ns infra
    by (simp add: getCheckAPIDependency_def hybrid_env_def)
  define args where "args = \<lparr>vmConnection = [lab_connection True ''7.0.3''],
    apiClient = getCheckAPIDependency (hybrid_env []) (full_infra lab_config lab_infra),
    featureGate = [FeatureGateVSphereMixedNodeEnv]\<rparr>"
  have listed: "ListLinuxNodes (apiClient args) = Inr hybrid_pair"
    by (rule hybrid_pair_listed) (simp add: args_def env_eq)
  obtain ns where may: "NodeChecker_may_return args ns"
    using NodeChecker_has_result [OF listed] lab_no_panic [of args]
    by (auto simp: args_def hybrid_pair_def workerCount_def)
  let ?env = "hybrid_env ns"
  have log: "logs_in ?env lab_infra lab_driver False lab_config hybrid_world pass w4"
    using l(1) by (simp add: logs_in_def login_def before_login_def hybrid_env_def)
  let ?n = "note_connection ?env pass [] w4"
  obtain conns where w4: "vSphereChecker w4 = vSphereChecker hybrid_world" "cloudConfig w4 = Some lab_config"
    "featureGates w4 = featureGates hybrid_world" "w_timers w4 = w_timers hybrid_world"
    using logs_in_world [OF log idle(1)] by metis
  have ok: "CheckError pass = None" by (simp add: pass_def lab_login_result_def MakeClusterCheckResultPass_def)
  have same_secret: "write_secret ?env infra d w = write_secret good_env infra d w" for infra d w
    by (simp add: write_secret_def hybrid_env_def cong: option.case_cong)
  obtain w2 where s: "write_secret ?env (full_infra lab_config lab_infra) lab_driver ?n = Returned (None, w2)"
    unfolding same_secret
    by (rule lab_secret [of ?n "''7.0.3''"]) (simp_all add: note_connection_same lab_full_infra l(2) w4(2))
  note sec = write_secret_same [OF s]
  have due: "nextCheck (vSphereChecker w2) < env_now_guard ?env"
    using w4(1) ok
    by (simp add: sec(8) note_connection_def Let_def hybrid_env_def lab_env_def
        hybrid_world_def lab_world_def newVSphereEnvironmentChecker_def)
  have args: "check_args ?env (full_infra lab_config lab_infra) w2 = args"
    using idle(3) w4(3) by (simp add: check_args_def args_def sec(6,7) note_connection_same l(2) env_eq)
  obtain vc where vc: "VCenterChecker_Check args = Returned vc"
    by (cases "vcenter_verdict (ApiVersion (lab_client ''7.0.3''))")
      (simp_all add: VCenterChecker_Check_def args_def lab_connection_def)
  have run: "env_checks ?env args = Returned (CheckExistingDriver_Check args @ vc @ ns)"
    using may vc by (simp add: hybrid_env_def hybrid_checks_def)
  have sc: "\<exists>e w5. syncStorageClassController ?env infra w1 = Returned (e, w5)" for infra w1
    using lab_storage [of True no_csidriver "''7.0.3''" "[]" 0 infra w1]
    by (simp add: syncStorageClassController_def write_status_def hybrid_env_def)
  obtain err w' where sync: "controller_sync ?env hybrid_world = Returned (err, w')"
    "w_timers w' \<noteq> w_timers hybrid_world"
    using due_sync_returns [OF hybrid_env_facts idle(1) log ok s due run [folded args] sc] by blast
  have pair: "env_nodes ?env = Inr hybrid_pair" "\<forall>n \<in> set hybrid_pair. linux_node n"
    by (simp_all add: hybrid_env_def hybrid_pair_def linux_node_def labelled_node_def good_node_def)
  have gate: "gate_enabled (featureGates hybrid_world) FeatureGateVSphereMixedNodeEnv"
    by (simp add: idle(3) gate_enabled_def)
  have hybrid: "isHybridEnvironment [''a''] [''metal'']" by (simp add: isHybridEnvironment_def)
  have "\<exists>reason m. reads w' ''VMwareVSphereControllerUpgradeable'' = Some (ConditionFalse, reason, m)"
    using hybrid_cluster_reported [OF hybrid_env_facts idle(1) log ok sync gate pair hybrid_pair_sorted hybrid]
      idle(2) by (simp del: map_option_eq_Some)
  with sync(1) show ?thesis by blast
qed

end
