(* ===== verification/Test_Objects.thy ===== *)
theory Test_Objects
  imports Controller_Sync
begin

text \<open>
  \<open>testlib/testlib.go\<close>: the objects the operator's own tests run on, and the stores they are put into.
  A store of an informer is keyed by namespace and name; adding an object replaces the one with its
  key. The listers the controllers read are functions of the stores. The embedded files of the
  package are a function of their name.
\<close>

subsection \<open>Objects and stores\<close>

record ConfigMap =
  cm_Name :: string
  cm_Namespace :: string
  cm_Data :: "string \<rightharpoonup> string"

datatype RuntimeObject =
  ObjConfigMap ConfigMap
| ObjSecret Secret
| ObjCSIDriver CSIDriver
| ObjCSINode CSINode
| ObjNode Node
| ObjClusterCSIDriver string ClusterCSIDriver \<comment> \<open>its name and itself\<close>
| ObjOther string \<comment> \<open>any other type, printed\<close>

record Stores =
  st_ConfigMaps :: "ConfigMap list"
  st_Secrets :: "Secret list"
  st_CSIDrivers :: "CSIDriver list"
  st_CSINodes :: "CSINode list"
  st_Nodes :: "Node list"
  st_ClusterCSIDrivers :: "(string \<times> ClusterCSIDriver) list"

definition empty_stores :: Stores where
  "empty_stores = \<lparr>st_ConfigMaps = [], st_Secrets = [], st_CSIDrivers = [], st_CSINodes = [], st_Nodes = [],
     st_ClusterCSIDrivers = []\<rparr>"

fun store_add :: "('a \<Rightarrow> 'k) \<Rightarrow> 'a \<Rightarrow> 'a list \<Rightarrow> 'a list" where
  "store_add key x [] = [x]"
| "store_add key x (y # ys) = (if key y = key x then x # ys else y # store_add key x ys)"

abbreviation "cm_key c \<equiv> (cm_Namespace c, cm_Name c)"
abbreviation "sec_key s \<equiv> (sec_Namespace s, sec_Name s)"

fun add_object :: "RuntimeObject \<Rightarrow> Stores \<Rightarrow> Stores result" where
  "add_object (ObjConfigMap c) s = Inr (s\<lparr>st_ConfigMaps := store_add cm_key c (st_ConfigMaps s)\<rparr>)"
| "add_object (ObjSecret c) s = Inr (s\<lparr>st_Secrets := store_add sec_key c (st_Secrets s)\<rparr>)"
| "add_object (ObjCSIDriver d) s = Inr (s\<lparr>st_CSIDrivers := store_add drv_Name d (st_CSIDrivers s)\<rparr>)"
| "add_object (ObjCSINode n) s = Inr (s\<lparr>st_CSINodes := store_add csinode_Name n (st_CSINodes s)\<rparr>)"
| "add_object (ObjNode n) s = Inr (s\<lparr>st_Nodes := store_add node_Name n (st_Nodes s)\<rparr>)"
| "add_object (ObjClusterCSIDriver n d) s =
     Inr (s\<lparr>st_ClusterCSIDrivers := store_add fst (n, d) (st_ClusterCSIDrivers s)\<rparr>)"
| "add_object (ObjOther obj) s = Inl (Failure (''Unknown initalObject type: '' @ obj))"

text \<open>The stores are changed in place, so what came before an unknown type stays added.\<close>

fun AddInitialObjects :: "RuntimeObject list \<Rightarrow> Stores \<Rightarrow> go_error option \<times> Stores" where
  "AddInitialObjects [] s = (None, s)"
| "AddInitialObjects (obj # objects) s =
     (case add_object obj s of Inl err \<Rightarrow> (Some err, s) | Inr s' \<Rightarrow> AddInitialObjects objects s')"

text \<open>What the listers answer from the stores.\<close>

definition store_get :: "('a \<Rightarrow> 'k) \<Rightarrow> 'k \<Rightarrow> string \<Rightarrow> 'a list \<Rightarrow> 'a result" where
  "store_get key k text xs =
     (case find (\<lambda>x. key x = k) xs of None \<Rightarrow> Inl (NotFound text) | Some x \<Rightarrow> Inr x)"

definition config_map_lister :: "Stores \<Rightarrow> ConfigMapLister" where
  "config_map_lister s ns n = rbind (store_get cm_key (ns, n) n (st_ConfigMaps s)) (\<lambda>c. Inr (cm_Data c))"

definition secret_lister :: "Stores \<Rightarrow> SecretLister" where
  "secret_lister s ns n = rbind (store_get sec_key (ns, n) n (st_Secrets s)) (\<lambda>c. Inr (sec_Data c))"

definition stores_api :: "Infrastructure \<Rightarrow> Stores \<Rightarrow> KubeAPI" where
  "stores_api infra s =
     \<lparr>api_Infrastructure = infra, NodeLister = Inr (st_Nodes s), CSINodeLister = Inr (st_CSINodes s),
      CSIDriverLister = (\<lambda>n. store_get drv_Name n n (st_CSIDrivers s)),
      ClusterCSIDriverLister = (\<lambda>n. rbind (store_get fst n n (st_ClusterCSIDrivers s)) (\<lambda>d. Inr (snd d)))\<rparr>"

lemma store_add_find:
  "find (\<lambda>y. key y = k) (store_add key x ys) = (if key x = k then Some x else find (\<lambda>y. key y = k) ys)"
  by (induction ys) auto

lemma store_add_keys:
  "map key (store_add key x ys) =
     (if key x \<in> key ` set ys then map key ys else map key ys @ [key x])"
  by (induction ys) auto

lemma store_add_distinct: "distinct (map key ys) \<Longrightarrow> distinct (map key (store_add key x ys))"
  by (simp add: store_add_keys)

lemma AddInitialObjects_append:
  "AddInitialObjects (xs @ ys) s =
     (case AddInitialObjects xs s of (Some err, s') \<Rightarrow> (Some err, s') | (None, s') \<Rightarrow> AddInitialObjects ys s')"
  by (induction xs arbitrary: s) (auto split: sum.split)

fun known_type :: "RuntimeObject \<Rightarrow> bool" where
  "known_type (ObjOther obj) = False"
| "known_type obj = True"

lemma add_object_known: "known_type obj \<longleftrightarrow> (\<exists>s'. add_object obj s = Inr s')"
  by (cases obj) simp_all

lemma AddInitialObjects_known:
  "fst (AddInitialObjects objects s) = None \<longleftrightarrow> (\<forall>obj \<in> set objects. known_type obj)"
proof (induction objects arbitrary: s)
  case (Cons obj objects)
  then show ?case
    using add_object_known [of obj s] by (cases "add_object obj s") auto
qed simp

text \<open>The object that was added last under a key is the one the listers find.\<close>

definition last_with :: "(RuntimeObject \<Rightarrow> 'a option) \<Rightarrow> ('a \<Rightarrow> 'k) \<Rightarrow> 'k \<Rightarrow> RuntimeObject list \<Rightarrow> 'a option" where
  "last_with pick key k objects = find (\<lambda>x. key x = k) (rev (List.map_filter pick objects))"

fun as_secret :: "RuntimeObject \<Rightarrow> Secret option" where
  "as_secret (ObjSecret s) = Some s"
| "as_secret obj = None"

fun as_config_map :: "RuntimeObject \<Rightarrow> ConfigMap option" where
  "as_config_map (ObjConfigMap c) = Some c"
| "as_config_map obj = None"

fun as_csi_driver :: "RuntimeObject \<Rightarrow> CSIDriver option" where
  "as_csi_driver (ObjCSIDriver d) = Some d"
| "as_csi_driver obj = None"

lemma find_append: "find P (xs @ ys) = (case find P xs of None \<Rightarrow> find P ys | Some x \<Rightarrow> Some x)"
  by (induction xs) auto

lemma last_with_Cons:
  "last_with pick key k (obj # objects) =
     (case last_with pick key k objects of
        Some x \<Rightarrow> Some x
      | None \<Rightarrow> (case pick obj of None \<Rightarrow> None | Some x \<Rightarrow> if key x = k then Some x else None))"
  by (simp add: last_with_def find_append List.map_filter_simps split: option.split)

lemma AddInitialObjects_finds:
  assumes "AddInitialObjects objects s = (None, s')"
  shows "find (\<lambda>x. sec_key x = k) (st_Secrets s') =
      (case last_with as_secret sec_key k objects of None \<Rightarrow> find (\<lambda>x. sec_key x = k) (st_Secrets s) | Some x \<Rightarrow> Some x)"
    and "find (\<lambda>x. cm_key x = k) (st_ConfigMaps s') =
      (case last_with as_config_map cm_key k objects of
         None \<Rightarrow> find (\<lambda>x. cm_key x = k) (st_ConfigMaps s) | Some x \<Rightarrow> Some x)"
    and "find (\<lambda>x. drv_Name x = n) (st_CSIDrivers s') =
      (case last_with as_csi_driver drv_Name n objects of
         None \<Rightarrow> find (\<lambda>x. drv_Name x = n) (st_CSIDrivers s) | Some x \<Rightarrow> Some x)"
  using assms
proof (induction objects arbitrary: s)
  case Nil
  { case 1 then show ?case by (simp add: last_with_def List.map_filter_simps)
  next case 2 then show ?case by (simp add: last_with_def List.map_filter_simps)
  next case 3 then show ?case by (simp add: last_with_def List.map_filter_simps) }
next
  case (Cons obj objects)
  { case 1 then show ?case
      using Cons.IH(1) by (cases obj) (auto simp: last_with_Cons store_add_find split: option.split)
  next case 2 then show ?case
      using Cons.IH(2) by (cases obj) (auto simp: last_with_Cons store_add_find split: option.split)
  next case 3 then show ?case
      using Cons.IH(3) by (cases obj) (auto simp: last_with_Cons store_add_find split: option.split) }
qed

lemma stored_listers:
  assumes "AddInitialObjects objects empty_stores = (None, s)"
  shows "store_get sec_key k t (st_Secrets s) =
      (case last_with as_secret sec_key k objects of None \<Rightarrow> Inl (NotFound t) | Some x \<Rightarrow> Inr x)"
    and "store_get cm_key k t (st_ConfigMaps s) =
      (case last_with as_config_map cm_key k objects of None \<Rightarrow> Inl (NotFound t) | Some x \<Rightarrow> Inr x)"
    and "store_get drv_Name n t (st_CSIDrivers s) =
      (case last_with as_csi_driver drv_Name n objects of None \<Rightarrow> Inl (NotFound t) | Some x \<Rightarrow> Inr x)"
  unfolding store_get_def AddInitialObjects_finds [OF assms]
  by (auto simp: empty_stores_def split: option.split)

text \<open>
  The fixture of the tests: objects are added in order until one has an unknown type, which is an
  error; without one, each lister finds the last object added under a name, and nothing else.
\<close>
theorem AddInitialObjects_listers:
  "(fst (AddInitialObjects objects empty_stores) = None \<longleftrightarrow> (\<forall>obj \<in> set objects. known_type obj))
   \<and> (\<forall>s. AddInitialObjects objects empty_stores = (None, s) \<longrightarrow>
        (\<forall>ns n. secret_lister s ns n =
           (case last_with as_secret sec_key (ns, n) objects of None \<Rightarrow> Inl (NotFound n) | Some x \<Rightarrow> Inr (sec_Data x)))
        \<and> (\<forall>ns n. config_map_lister s ns n =
           (case last_with as_config_map cm_key (ns, n) objects of None \<Rightarrow> Inl (NotFound n) | Some x \<Rightarrow> Inr (cm_Data x)))
        \<and> (\<forall>infra n. CSIDriverLister (stores_api infra s) n =
           (case last_with as_csi_driver drv_Name n objects of None \<Rightarrow> Inl (NotFound n) | Some x \<Rightarrow> Inr x)))"
  using AddInitialObjects_known [of objects empty_stores]
  by (simp add: secret_lister_def config_map_lister_def stores_api_def stored_listers split: option.split)

theorem AddInitialObjects_listers_witness:
  "let d = \<lparr>drv_Name = ''d'', drv_Annotations = Map.empty\<rparr>
   in \<exists>s. AddInitialObjects [ObjCSIDriver d] empty_stores = (None, s)
     \<and> CSIDriverLister (stores_api undefined s) ''d'' = Inr d"
  using AddInitialObjects_listers [of "[ObjCSIDriver \<lparr>drv_Name = ''d'', drv_Annotations = Map.empty\<rparr>]"]
  by (simp add: last_with_def List.map_filter_simps)

subsection \<open>The fixtures\<close>

definition credentialsSecretName :: string where
  "credentialsSecretName = ''vmware-vsphere-cloud-credentials''"

record FakeDriverInstance =
  fdi_Name :: string
  fdi_Generation :: "64 word"
  fdi_Spec :: OperatorSpec
  fdi_Status :: conditions

definition MakeFakeDriverInstance :: "(FakeDriverInstance \<Rightarrow> FakeDriverInstance) list \<Rightarrow> FakeDriverInstance" where
  "MakeFakeDriverInstance modifiers =
     fold (\<lambda>modifier i. modifier i) modifiers
       \<lparr>fdi_Name = ''cluster'', fdi_Generation = 0,
        fdi_Spec = \<lparr>Spec_ManagementState = Managed, Spec_LogLevel = OtherLevel [], Spec_ObservedConfig = []\<rparr>,
        fdi_Status = []\<rparr>"

definition GetMatchingCondition :: "conditions \<Rightarrow> string \<Rightarrow> OperatorCondition option" where
  "GetMatchingCondition status conditionType = find (\<lambda>c. cnd_Type c = conditionType) status"

definition no_driver_config :: ClusterCSIDriver where
  "no_driver_config = \<lparr>DriverType = [], DriverConfig_VSphere = None, Spec_StorageClassState = EmptyState\<rparr>"

definition GetClusterCSIDriver :: "bool \<Rightarrow> RuntimeObject" where
  "GetClusterCSIDriver hasTopology =
     ObjClusterCSIDriver ''csi.vsphere.vmware.com''
       (if \<not> hasTopology then no_driver_config
        else \<lparr>DriverType = VSphereDriverType,
              DriverConfig_VSphere = Some \<lparr>TopologyCategories = [''k8s-zone'', ''k8s-region''],
                GlobalMaxSnapshotsPerBlockVolume = None, GranularMaxSnapshotsPerBlockVolumeInVSAN = None,
                GranularMaxSnapshotsPerBlockVolumeInVVOL = None, MaxAllowedBlockVolumesPerNode = 0\<rparr>,
              Spec_StorageClassState = EmptyState\<rparr>)"

definition GetCSIDriver :: "bool \<Rightarrow> CSIDriver" where
  "GetCSIDriver withOCPAnnotation =
     \<lparr>drv_Name = VSphereDriverName,
      drv_Annotations = (if withOCPAnnotation then [OpenshiftCSIDriverAnnotationKey \<mapsto> ''true''] else Map.empty)\<rparr>"

definition GetCSINode :: CSINode where
  "GetCSINode = \<lparr>csinode_Name = ''node-abcd'', csinode_Drivers = [VSphereDriverName]\<rparr>"

definition infra_object :: "VSpherePlatformSpec option \<Rightarrow> string \<Rightarrow> Infrastructure" where
  "infra_object spec infraName =
     \<lparr>Platform_VSphere = spec, CloudConfig_Name = ''cloud-provider-config'', CloudConfig_Key = ''config'',
      InfrastructureName = infraName, PlatformStatus_Type = Some VSpherePlatformType,
      ControlPlaneTopology = []\<rparr>"

definition GetInfraObject :: Infrastructure where
  "GetInfraObject = infra_object (Some \<lparr>VCenters = [], FailureDomains = []\<rparr>) ''vsphere''"

definition GetInfraObjectWithEmptyPlatformSpec :: Infrastructure where
  "GetInfraObjectWithEmptyPlatformSpec = GetInfraObject\<lparr>Platform_VSphere := None\<rparr>"

definition us_east :: FailureDomainSpec where
  "us_east =
     \<lparr>fd_Name = ''us-east-1'', fd_Region = ''us-east'', fd_Zone = ''us-east-1a'', fd_Server = ''vcenter.lan'',
      fd_Datacenter = ''DC0'', fd_Folder = [], fd_ResourcePool = [], fd_Datastore = ''/DC0/datastore/LocalDS_0''\<rparr>"

definition us_west :: "string \<Rightarrow> FailureDomainSpec" where
  "us_west server =
     \<lparr>fd_Name = ''us-west-1'', fd_Region = ''us-west'', fd_Zone = ''us-west-1a'', fd_Server = server,
      fd_Datacenter = ''/F0/DC1'', fd_Folder = [], fd_ResourcePool = [],
      fd_Datastore = ''/F0/DC1/datastore/F0/LocalDS_0''\<rparr>"

definition GetSingleFailureDomainInfra :: Infrastructure where
  "GetSingleFailureDomainInfra =
     infra_object (Some \<lparr>VCenters = [\<lparr>vc_Server = ''vcenter.home.lan'', vc_Datacenters = [''dc0'']\<rparr>],
       FailureDomains = [us_east]\<rparr>) ''vsphere2''"

definition GetZonalInfra :: Infrastructure where
  "GetZonalInfra =
     infra_object (Some \<lparr>VCenters = [], FailureDomains = [us_east, us_west ''vcenter.lan'']\<rparr>) ''vsphere''"

definition GetZonalMultiVCenterInfra :: Infrastructure where
  "GetZonalMultiVCenterInfra =
     infra_object (Some
       \<lparr>VCenters = [\<lparr>vc_Server = ''vcenter.lan'', vc_Datacenters = [''DC0'']\<rparr>,
                    \<lparr>vc_Server = ''vcenter2.lan'', vc_Datacenters = [''DC1'']\<rparr>],
        FailureDomains = [us_east, us_west ''vcenter2.lan'']\<rparr>) ''vsphere''"

text \<open>Lines of a file, each ended by a newline.\<close>

definition lines_text :: "string list \<Rightarrow> string" where
  "lines_text ls = concat (map (\<lambda>l. l @ nl) ls)"

definition cloudProviderConfig :: string where
  "cloudProviderConfig = lines_text
     [''[Global]'', ''secret-name = '' @ quote ''vsphere-creds'', ''secret-namespace = '' @ quote ''kube-system'',
      ''insecure-flag = '' @ quote ''1'', [], ''[Workspace]'', ''server = '' @ quote ''localhost'',
      ''datacenter = '' @ quote ''DC0'', ''default-datastore = '' @ quote ''LocalDS_0'',
      ''folder = '' @ quote ''/DC0/vm'', [], ''[VirtualCenter '' @ quote ''dc0'' @ '']'',
      ''datacenters = '' @ quote ''DC0'']"

definition GetConfigMap :: ConfigMap where
  "GetConfigMap =
     \<lparr>cm_Name = ''cloud-provider-config'', cm_Namespace = cloudConfigNamespace,
      cm_Data = [''config'' \<mapsto> nl @ cloudProviderConfig]\<rparr>"

definition GetNewConfigMap :: ConfigMap where
  "GetNewConfigMap =
     \<lparr>cm_Name = ''cloud-provider-config'', cm_Namespace = cloudConfigNamespace,
      cm_Data = [''config'' \<mapsto> lines_text
        [[], ''global:'', ''  insecureFlag: true'', ''  secretName: vsphere-creds'',
         ''  secretNamespace: kube-system'', ''vcenter:'', ''  localhost:'', ''    server: localhost'',
         ''    port: 443'', ''    insecureFlag: true'', ''    datacenters:'', ''    - DC0'', ''labels:'',
         ''  zone: openshift-zone'', ''  region: openshift-region'']]\<rparr>"

definition credentials :: "(string \<rightharpoonup> string) \<Rightarrow> Secret" where
  "credentials data = \<lparr>sec_Name = credentialsSecretName, sec_Namespace = defaultNamespace, sec_Data = data\<rparr>"

definition GetSecret :: Secret where
  "GetSecret = credentials
     [''localhost.password'' \<mapsto> ''vsphere-password'', ''localhost.username'' \<mapsto> ''vsphere-user'']"

definition GetMultiVCSecret :: Secret where
  "GetMultiVCSecret = credentials
     [''foobar.lan.password'' \<mapsto> ''vsphere-password'', ''foobar.lan.username'' \<mapsto> ''vsphere-user'',
      ''foobaz.lan.password'' \<mapsto> ''vsphere-password'', ''foobaz.lan.username'' \<mapsto> ''vsphere-user'']"

definition GetDCSecret :: Secret where
  "GetDCSecret = credentials
     [''foobar.lan.password'' \<mapsto> ''vsphere-password'', ''foobar.lan.username'' \<mapsto> ''vsphere-user'',
      ''foobaz.lan.password'' \<mapsto> ''vsphere-password'', ''foobaz.lan.username'' \<mapsto> ''vsphere-user'']"

definition GetSecretWithPassword :: "string \<Rightarrow> string \<Rightarrow> Secret" where
  "GetSecretWithPassword username password = credentials
     [''foobar.lan.password'' \<mapsto> password, ''foobar.lan.username'' \<mapsto> username]"

definition GetTestClusterResult :: "CheckStatusType \<Rightarrow> ClusterCheckResult" where
  "GetTestClusterResult statusType =
     \<lparr>CheckError = Some (Failure ''some error''), CheckStatus = statusType, Action = CheckActionPass, Reason = []\<rparr>"

text \<open>The configuration of a test: the embedded file of this name, the simple one without a name.\<close>

definition getVSphereConfigString :: "(string \<Rightarrow> string result) \<Rightarrow> string \<Rightarrow> string outcome" where
  "getVSphereConfigString readFile fileName =
     (case readFile (if fileName = [] then ''simple_config.ini'' else fileName) of
        Inl err \<Rightarrow> Panicked (err_msg err)
      | Inr data \<Rightarrow> Returned data)"

definition GetVSphereConfig ::
  "(string \<Rightarrow> CloudConfig result) \<Rightarrow> (string \<Rightarrow> LegacyVSphereConfig result)
     \<Rightarrow> (string \<Rightarrow> string result) \<Rightarrow> string \<Rightarrow> VSphereConfig result outcome" where
  "GetVSphereConfig readConfig readLegacy readFile fileName =
     obind (getVSphereConfigString readFile fileName) (\<lambda>data.
       Returned (LoadConfig readConfig readLegacy data))"

text \<open>
  The clients of a test: the operator's own object, the Infrastructure object and a ClusterCSIDriver,
  which \<open>AddClusterCSIDriverClient\<close> replaces.
\<close>

record FakeClients =
  fk_Operator :: FakeDriverInstance
  fk_Core :: "RuntimeObject list"
  fk_Infra :: Infrastructure
  fk_Driver :: RuntimeObject

definition AddClusterCSIDriverClient :: "FakeClients \<Rightarrow> RuntimeObject \<Rightarrow> FakeClients" where
  "AddClusterCSIDriverClient clients obj = clients\<lparr>fk_Driver := obj\<rparr>"

definition NewFakeClients :: "RuntimeObject list \<Rightarrow> FakeDriverInstance \<Rightarrow> Infrastructure \<Rightarrow> FakeClients" where
  "NewFakeClients coreObjects operatorObject configObject =
     AddClusterCSIDriverClient
       \<lparr>fk_Operator = operatorObject, fk_Core = coreObjects, fk_Infra = configObject,
        fk_Driver = ObjOther []\<rparr> (GetClusterCSIDriver False)"

end
