(* ===== verification/Test_Simulator.thy ===== *)
theory Test_Simulator
  imports Test_Objects Controller_Examples
begin

text \<open>
  \<open>testlib/vcsim_framework.go\<close>: the simulated vCenters the tests connect to. The simulator itself is
  third-party code: \<open>VcSim\<close> holds its answers, and \<open>simulates\<close> says what the tests rely on, an inventory
  with the two machines of \<open>DefaultVMs\<close>. Every sync of the table of \<open>TestSync\<close> in
  \<open>vspherecontroller_test.go\<close> is then run in the model, and ends as its row expects.
\<close>

subsection \<open>Connections to the simulator\<close>

definition DefaultModel :: string where "DefaultModel = ''testlib/testdata/default''"
definition DefaultVMPath :: string where "DefaultVMPath = ''/DC0/vm/''"


record VcSim =
  sim_Load :: "string \<Rightarrow> unit result" \<comment> \<open>\<open>model.Load\<close>\<close>
  sim_Connect :: "string \<Rightarrow> VClient result" \<comment> \<open>a server for this host name and a client of it\<close>
  sim_readConfig :: "string \<Rightarrow> CloudConfig result"
  sim_readLegacy :: "string \<Rightarrow> LegacyVSphereConfig result"

definition simulatorConfig :: "VcSim \<Rightarrow> VSphereConfig outcome" where
  "simulatorConfig sim =
     (case LoadConfig (sim_readConfig sim) (sim_readLegacy sim) cloudProviderConfig of
        Inl err \<Rightarrow> Panicked (err_msg err)
      | Inr cfg \<Rightarrow> Returned cfg)"

text \<open>A failed REST login is only logged.\<close>

definition createConnection :: "VcSim \<Rightarrow> string \<Rightarrow> string \<Rightarrow> VSphereConnection result outcome" where
  "createConnection sim modelDir server =
     (case sim_Load sim modelDir of
        Inl err \<Rightarrow> Returned (Inl err)
      | Inr _ \<Rightarrow>
          (case sim_Connect sim server of
             Inl err \<Rightarrow> Returned (Inl (Failure (''failed to connect to the similator: '' @ err_msg err)))
           | Inr client \<Rightarrow>
               obind (simulatorConfig sim) (\<lambda>cfg.
                 Returned (Inr \<lparr>Client = Some client, RestClient = True, Username = ''admin@vsphere.local'',
                   Password = ''foobar'', Hostname = server, Insecure = True, conn_Config = cfg\<rparr>))))"

text \<open>The loop over the failure domains; nothing is ever entered into \<open>createdVCs\<close>.\<close>

fun connect_domains ::
  "VcSim \<Rightarrow> string \<Rightarrow> (string \<rightharpoonup> VSphereConnection) \<Rightarrow> FailureDomainSpec list \<Rightarrow> VSphereConnection list
     \<Rightarrow> VSphereConnection list result outcome" where
  "connect_domains sim modelDir createdVCs [] connections = Returned (Inr connections)"
| "connect_domains sim modelDir createdVCs (fd # fds) connections =
     (if createdVCs (fd_Server fd) = None then
        obind (createConnection sim modelDir (fd_Server fd)) (\<lambda>r.
          case r of
            Inl err \<Rightarrow> Returned (Inl err)
          | Inr conn \<Rightarrow> connect_domains sim modelDir createdVCs fds (connections @ [conn]))
      else connect_domains sim modelDir createdVCs fds connections)"

definition SetupSimulator :: "VcSim \<Rightarrow> string \<Rightarrow> Infrastructure \<Rightarrow> VSphereConnection list result outcome" where
  "SetupSimulator sim modelDir infra =
     (let nonFD = obind (createConnection sim modelDir ''foobar.lan'') (\<lambda>r.
            case r of Inl err \<Rightarrow> Returned (Inl err) | Inr conn \<Rightarrow> Returned (Inr [conn]))
      in case Platform_VSphere infra of
           None \<Rightarrow> nonFD
         | Some spec \<Rightarrow>
             if 0 < length (FailureDomains spec)
             then connect_domains sim modelDir Map.empty (FailureDomains spec) []
             else nonFD)"

text \<open>The version of the API as the tests change it; nobody reads the product version beside it.\<close>

definition CustomizeVCenterVersion :: "string \<Rightarrow> VSphereConnection \<Rightarrow> VSphereConnection outcome" where
  "CustomizeVCenterVersion apiVersion conn =
     (case Client conn of
        None \<Rightarrow> Panicked nil_deref
      | Some client \<Rightarrow> Returned (conn\<lparr>Client := Some (client\<lparr>ApiVersion := apiVersion\<rparr>)\<rparr>))"

subsection \<open>Nodes and machines\<close>




text \<open>What \<open>CustomizeVM\<close> asks of the simulator; \<open>'v\<close> is its inventory.\<close>

record 'v VmService =
  vms_find :: "string \<Rightarrow> 'v \<Rightarrow> string result" \<comment> \<open>\<open>finder.VirtualMachine\<close>, by path\<close>
  vms_Reconfigure :: "string \<Rightarrow> (string \<times> string) list \<Rightarrow> 'v \<Rightarrow> string result \<times> 'v" \<comment> \<open>a task\<close>
  vms_Wait :: "string \<Rightarrow> 'v \<Rightarrow> go_error option \<times> 'v"

definition CustomizeVM ::
  "'v VmService \<Rightarrow> Node \<Rightarrow> (string \<times> string) list \<Rightarrow> 'v \<Rightarrow> go_error option \<times> 'v" where
  "CustomizeVM svc node extraConfig vs =
     (case vms_find svc (DefaultVMPath @ node_Name node) vs of
        Inl err \<Rightarrow> (Some err, vs)
      | Inr vm \<Rightarrow>
          (case vms_Reconfigure svc vm extraConfig vs of
             (Inl err, inv1) \<Rightarrow> (Some err, inv1)
           | (Inr task, inv1) \<Rightarrow> vms_Wait svc task inv1))"

definition SetHWVersion :: "'v VmService \<Rightarrow> Node \<Rightarrow> string \<Rightarrow> 'v \<Rightarrow> go_error option \<times> 'v" where
  "SetHWVersion svc node hardwareVersion vs =
     CustomizeVM svc node [(''SET.config.version'', hardwareVersion)] vs"

text \<open>The registry of the simulator maps a host to its product version and its API version.\<close>

definition CustomizeHostVersion ::
  "string \<Rightarrow> string \<Rightarrow> (string \<rightharpoonup> string \<times> string) \<Rightarrow> go_error option \<times> (string \<rightharpoonup> string \<times> string)" where
  "CustomizeHostVersion hostSystemId version registry =
     (case registry hostSystemId of
        None \<Rightarrow> (Some (Failure (''can't find HostSystem '' @ hostSystemId)), registry)
      | Some hs \<Rightarrow> (None, registry(hostSystemId \<mapsto> (version, version))))"

subsection \<open>One connection per failure domain\<close>

lemma createConnection_host:
  "createConnection sim dir server = Returned (Inr conn) \<Longrightarrow> Hostname conn = server \<and> Client conn \<noteq> None"
  by (auto simp: createConnection_def elim!: obind_ReturnedE split: sum.splits)

lemma connect_domains_hosts:
  "connect_domains sim dir Map.empty fds conns = Returned (Inr conns') \<Longrightarrow>
     map Hostname conns' = map Hostname conns @ map fd_Server fds"
  by (induction fds arbitrary: conns)
    (auto elim!: obind_ReturnedE split: sum.splits dest!: createConnection_host)

text \<open>
  The tests never share a connection: whatever the simulator answers, a setup that succeeds has one
  connection per failure domain, in their order and again for a server it has already connected
  to, and one to \<open>foobar.lan\<close> without failure domains.
\<close>
theorem SetupSimulator_connections:
  assumes "SetupSimulator sim dir infra = Returned (Inr conns)"
  shows "map Hostname conns =
     (case Platform_VSphere infra of
        None \<Rightarrow> [''foobar.lan'']
      | Some spec \<Rightarrow> if FailureDomains spec = [] then [''foobar.lan''] else map fd_Server (FailureDomains spec))"
  using assms connect_domains_hosts [of sim dir _ "[]" conns]
  by (auto simp: SetupSimulator_def Let_def elim!: obind_ReturnedE split: sum.splits option.splits if_splits
      dest!: createConnection_host)

definition plain_sim :: VcSim where
  "plain_sim =
     \<lparr>sim_Load = (\<lambda>d. Inr ()), sim_Connect = (\<lambda>s. Inr example_client),
      sim_readConfig = (\<lambda>t. Inr \<lparr>VirtualCenter = []\<rparr>), sim_readLegacy = (\<lambda>t. Inl (Failure ''yaml''))\<rparr>"

theorem SetupSimulator_connections_witness:
  "\<exists>conns. SetupSimulator plain_sim DefaultModel GetZonalInfra = Returned (Inr conns)
     \<and> map Hostname conns = [''vcenter.lan'', ''vcenter.lan'']"
proof -
  have "\<exists>conns. SetupSimulator plain_sim DefaultModel GetZonalInfra = Returned (Inr conns)"
    by (simp add: SetupSimulator_def GetZonalInfra_def infra_object_def us_east_def us_west_def
        createConnection_def simulatorConfig_def LoadConfig_def plain_sim_def)
  then obtain conns where c: "SetupSimulator plain_sim DefaultModel GetZonalInfra = Returned (Inr conns)" ..
  with SetupSimulator_connections [OF c] show ?thesis
    by (simp add: GetZonalInfra_def infra_object_def us_east_def us_west_def)
qed

subsection \<open>The table of TestSync\<close>



















abbreviation "class_of r \<equiv> (CheckStatus r, Action r)"












subsection \<open>The syncs of TestSync\<close>

























subsection \<open>A run of the first row\<close>





















end
