(* ===== verification/Operand_Controllers.thy ===== *)
theory Operand_Controllers
  imports Operand_Hooks Operator_Spec
begin

text \<open>
  The two controllers of library-go that the main controller starts and that own the operands:
  \<open>DeploymentController\<close> and \<open>CSIDriverNodeServiceController\<close>, with the hooks of \<open>Operand_Hooks\<close>. Each holds a
  finalizer on the ClusterCSIDriver while its object exists. The locale \<open>operand_controller\<close> is
  their contract. The last section composes them with the main controller.
\<close>

subsection \<open>Objects and what a sync finds\<close>

record LiveDeployment =
  ld_Generation :: "64 word"
  ld_ObservedGeneration :: "64 word"
  ld_Replicas :: "32 word option"
  ld_UpdatedReplicas :: "32 word"
  ld_AvailableReplicas :: "32 word"
  ld_UnavailableReplicas :: "32 word"
  ld_Conditions :: "(string \<times> ConditionStatus \<times> string) list" \<comment> \<open>type, status and reason\<close>

record LiveDaemonSet =
  ls_Generation :: "64 word"
  ls_ObservedGeneration :: "64 word"
  ls_Annotations :: "(string \<rightharpoonup> string) option"
  ls_UpdatedNumberScheduled :: "32 word"
  ls_DesiredNumberScheduled :: "32 word"
  ls_NumberUnavailable :: "32 word"
  ls_NumberAvailable :: "32 word"

text \<open>
  The answers of the API server and of the caches to one sync: the operator's state, its deletion
  timestamp, the updates of its finalizers, and what applying or deleting the object gives.
\<close>
record 'd SyncEnv =
  sy_state :: "(OperatorSpec \<times> conditions) result"
  sy_deletion :: "bool result"
  sy_ensure :: "go_error option"
  sy_remove :: "go_error option"
  sy_operands :: OperandEnv
  sy_cached :: "'d result"
  sy_apply :: "Workload \<Rightarrow> 'd result"
  sy_delete :: "go_error option"
  sy_applyStatus :: "go_error option"
  sy_now :: int

record 'd OperandWorld =
  ow_finalizer :: bool \<comment> \<open>the finalizer of this controller on the ClusterCSIDriver\<close>
  ow_object :: "'d option" \<comment> \<open>the object in the API server\<close>
  ow_status :: conditions \<comment> \<open>the conditions applied last\<close>

subsection \<open>The sync\<close>

text \<open>
  Both controllers have the same \<open>sync\<close>; \<open>management.IsOperatorRemovable()\<close> is true, the operator never
  calls its setter.
\<close>
definition operand_sync ::
  "'d SyncEnv
     \<Rightarrow> (OperatorSpec \<Rightarrow> conditions \<Rightarrow> 'd OperandWorld \<Rightarrow> go_error option \<times> 'd OperandWorld)
     \<Rightarrow> (OperatorSpec \<Rightarrow> 'd OperandWorld \<Rightarrow> go_error option \<times> 'd OperandWorld)
     \<Rightarrow> 'd OperandWorld \<Rightarrow> go_error option \<times> 'd OperandWorld" where
  "operand_sync env syncManaged syncDeleting w =
     (case sy_state env of
        Inl err \<Rightarrow> if is_not_found err then (None, w) else (Some err, w)
      | Inr (opSpec, opStatus) \<Rightarrow>
          if Spec_ManagementState opSpec = Removed then syncDeleting opSpec w
          else if Spec_ManagementState opSpec \<noteq> Managed then (None, w)
          else (case sy_deletion env of
                  Inl err \<Rightarrow> (Some err, w)
                | Inr deleted \<Rightarrow> if deleted then syncDeleting opSpec w else syncManaged opSpec opStatus w))"

definition EnsureFinalizer :: "'d SyncEnv \<Rightarrow> 'd OperandWorld \<Rightarrow> go_error option \<times> 'd OperandWorld" where
  "EnsureFinalizer env w =
     (case sy_ensure env of Some err \<Rightarrow> (Some err, w) | None \<Rightarrow> (None, w\<lparr>ow_finalizer := True\<rparr>))"

definition RemoveFinalizer :: "'d SyncEnv \<Rightarrow> 'd OperandWorld \<Rightarrow> go_error option \<times> 'd OperandWorld" where
  "RemoveFinalizer env w =
     (case sy_remove env of Some err \<Rightarrow> (Some err, w) | None \<Rightarrow> (None, w\<lparr>ow_finalizer := False\<rparr>))"

text \<open>\<open>syncDeleting\<close>: the object is built only to learn its name; a missing one counts as deleted.\<close>

definition delete_operand ::
  "'d SyncEnv \<Rightarrow> (OperatorSpec \<Rightarrow> Workload result) \<Rightarrow> OperatorSpec \<Rightarrow> 'd OperandWorld
     \<Rightarrow> go_error option \<times> 'd OperandWorld" where
  "delete_operand env build opSpec w =
     (case build opSpec of
        Inl err \<Rightarrow> (Some err, w)
      | Inr required \<Rightarrow>
          (case sy_delete env of
             None \<Rightarrow> RemoveFinalizer env (w\<lparr>ow_object := None\<rparr>)
           | Some err \<Rightarrow>
               if \<not> is_not_found err then (Some err, w)
               else RemoveFinalizer env (w\<lparr>ow_object := None\<rparr>)))"

definition applied_condition :: "string \<Rightarrow> ConditionStatus \<Rightarrow> string \<Rightarrow> string \<Rightarrow> OperatorCondition" where
  "applied_condition t s msg reason =
     \<lparr>cnd_Type = t, cnd_Status = s, cnd_Reason = reason, cnd_Message = msg, cnd_LastTransitionTime = 0\<rparr>"

definition ApplyOperatorStatus ::
  "'d SyncEnv \<Rightarrow> conditions \<Rightarrow> 'd OperandWorld \<Rightarrow> go_error option \<times> 'd OperandWorld" where
  "ApplyOperatorStatus env conds w =
     (case sy_applyStatus env of Some err \<Rightarrow> (Some err, w) | None \<Rightarrow> (None, w\<lparr>ow_status := conds\<rparr>))"

subsection \<open>The Deployment\<close>

definition progressingConditionTimeout :: int where
  "progressingConditionTimeout = 15 * minute"

definition IsUpdatingTooLong :: "int \<Rightarrow> conditions \<Rightarrow> string \<Rightarrow> bool" where
  "IsUpdatingTooLong now opStatus progressingConditionType =
     (case lookup_condition opStatus progressingConditionType of
        None \<Rightarrow> False
      | Some progressing \<Rightarrow>
          cnd_Status progressing = ConditionTrue
          \<and> cnd_LastTransitionTime progressing + progressingConditionTimeout < now)"

definition hasFinishedProgressing :: "LiveDeployment \<Rightarrow> bool" where
  "hasFinishedProgressing d =
     (case find (\<lambda>(t, s, r). t = ''Progressing'') (ld_Conditions d) of
        None \<Rightarrow> False
      | Some (t, s, r) \<Rightarrow> s = ConditionTrue \<and> r = ''NewReplicaSetAvailable'')"

text \<open>\<open>isProgressing\<close>: the message when it is. Replica counts are signed.\<close>

definition deployment_isProgressing :: "LiveDeployment \<Rightarrow> string option" where
  "deployment_isProgressing d =
     (let expected = (case ld_Replicas d of None \<Rightarrow> 0 | Some r \<Rightarrow> r)
      in if ld_Generation d \<noteq> ld_ObservedGeneration d then Some ''Waiting for Deployment to act on changes''
         else if hasFinishedProgressing d then None
         else if 0 < sint (ld_UnavailableReplicas d) then Some ''Waiting for Deployment to deploy pods''
         else if sint (ld_UpdatedReplicas d) < sint expected then Some ''Waiting for Deployment to update pods''
         else if sint (ld_AvailableReplicas d) < sint expected then Some ''Waiting for Deployment to deploy pods''
         else None)"

definition controllerInstance :: string where
  "controllerInstance = ''VMwareVSphereDriverControllerServiceController''"

definition deployment_syncManaged ::
  "LiveDeployment SyncEnv \<Rightarrow> OperatorSpec \<Rightarrow> conditions \<Rightarrow> LiveDeployment OperandWorld
     \<Rightarrow> go_error option \<times> LiveDeployment OperandWorld" where
  "deployment_syncManaged env opSpec opStatus w =
     (case EnsureFinalizer env w of
        (Some err, w1) \<Rightarrow> (Some err, w1)
      | (None, w1) \<Rightarrow>
          (case getDeployment (sy_operands env) opSpec of
             Inl err \<Rightarrow> (Some err, w1)
           | Inr required \<Rightarrow>
               (case sy_apply env required of
                  Inl err \<Rightarrow> (Some err, w1)
                | Inr deployment \<Rightarrow>
                    (let w2 = w1\<lparr>ow_object := Some deployment\<rparr>;
                         available = (if 0 < sint (ld_AvailableReplicas deployment)
                           then applied_condition (controllerInstance @ ''Available'') ConditionTrue
                                  ''Deployment is available'' ''AsExpected''
                           else applied_condition (controllerInstance @ ''Available'') ConditionFalse
                                  ''Waiting for Deployment'' ''Deploying'')
                     in case deployment_isProgressing deployment of
                          Some msg \<Rightarrow>
                            if IsUpdatingTooLong (sy_now env) opStatus (controllerInstance @ ''Progressing'')
                            then (Some (Failure ''Deployment was progressing too long''), w2)
                            else ApplyOperatorStatus env [available,
                                   applied_condition (controllerInstance @ ''Progressing'') ConditionTrue
                                     msg ''Deploying''] w2
                        | None \<Rightarrow> ApplyOperatorStatus env [available,
                                   applied_condition (controllerInstance @ ''Progressing'') ConditionFalse
                                     ''Deployment is not progressing'' ''AsExpected''] w2))))"

definition deployment_sync ::
  "LiveDeployment SyncEnv \<Rightarrow> LiveDeployment OperandWorld \<Rightarrow> go_error option \<times> LiveDeployment OperandWorld" where
  "deployment_sync env =
     operand_sync env (deployment_syncManaged env) (delete_operand env (getDeployment (sy_operands env)))"

subsection \<open>The DaemonSet\<close>

definition stableGenerationAnnotationName :: string where
  "stableGenerationAnnotationName = ''storage.openshift.io/stable-generation''"

definition noted_generation :: "LiveDaemonSet \<Rightarrow> string" where
  "noted_generation d =
     (case made_map (ls_Annotations d) stableGenerationAnnotationName of None \<Rightarrow> [] | Some g \<Rightarrow> g)"

definition daemonset_isProgressing :: "LiveDaemonSet \<Rightarrow> string option" where
  "daemonset_isProgressing d =
     (if noted_generation d = format_int (sint (ls_Generation d)) then None
      else if ls_Generation d \<noteq> ls_ObservedGeneration d then Some ''Waiting for DaemonSet to act on changes''
      else if sint (ls_UpdatedNumberScheduled d) < sint (ls_DesiredNumberScheduled d)
      then Some (''Waiting for DaemonSet to update '' @ format_int (sint (ls_DesiredNumberScheduled d)) @ '' node pods'')
      else if 0 < sint (ls_NumberUnavailable d) then Some ''Waiting for DaemonSet to deploy node pods''
      else None)"

definition updateLastStableGeneration :: "LiveDaemonSet result \<Rightarrow> Workload \<Rightarrow> Workload result" where
  "updateLastStableGeneration cached required =
     (case cached of
        Inl err \<Rightarrow> if is_not_found err then Inr required else Inl err
      | Inr d \<Rightarrow>
          (let cachedGeneration = format_int (sint (ls_Generation d))
           in if noted_generation d = cachedGeneration then Inr required
              else if daemonset_isProgressing d \<noteq> None then Inr required
              else Inr (required\<lparr>wl_Annotations :=
                     Some ((made_map (wl_Annotations required))(stableGenerationAnnotationName \<mapsto> cachedGeneration))\<rparr>)))"

definition nodeInstance :: string where
  "nodeInstance = ''VMwareVSphereDriverNodeServiceController''"

definition daemonset_syncManaged ::
  "LiveDaemonSet SyncEnv \<Rightarrow> OperatorSpec \<Rightarrow> conditions \<Rightarrow> LiveDaemonSet OperandWorld
     \<Rightarrow> go_error option \<times> LiveDaemonSet OperandWorld" where
  "daemonset_syncManaged env opSpec opStatus w =
     (case EnsureFinalizer env w of
        (Some err, w1) \<Rightarrow> (Some err, w1)
      | (None, w1) \<Rightarrow>
          (case rbind (getDaemonSet (sy_operands env) opSpec) (updateLastStableGeneration (sy_cached env)) of
             Inl err \<Rightarrow> (Some err, w1)
           | Inr required \<Rightarrow>
               (case sy_apply env required of
                  Inl err \<Rightarrow> (Some err, w1)
                | Inr daemonSet \<Rightarrow>
                    (let available = (if 0 < sint (ls_NumberAvailable daemonSet)
                           then applied_condition (nodeInstance @ ''Available'') ConditionTrue
                                  ''DaemonSet is available'' ''AsExpected''
                           else applied_condition (nodeInstance @ ''Available'') ConditionFalse
                                  ''Waiting for the DaemonSet to deploy the CSI Node Service'' ''Deploying'');
                         progressing = (case daemonset_isProgressing daemonSet of
                             Some msg \<Rightarrow> applied_condition (nodeInstance @ ''Progressing'') ConditionTrue
                                  msg ''Deploying''
                           | None \<Rightarrow> applied_condition (nodeInstance @ ''Progressing'') ConditionFalse
                                  ''DaemonSet is not progressing'' ''AsExpected'')
                     in ApplyOperatorStatus env [available, progressing] (w1\<lparr>ow_object := Some daemonSet\<rparr>)))))"

definition daemonset_sync ::
  "LiveDaemonSet SyncEnv \<Rightarrow> LiveDaemonSet OperandWorld \<Rightarrow> go_error option \<times> LiveDaemonSet OperandWorld" where
  "daemonset_sync env =
     operand_sync env (daemonset_syncManaged env) (delete_operand env (getDaemonSet (sy_operands env)))"

subsection \<open>The contract of an operand controller\<close>

text \<open>What the user asks of the operand in the state a sync finds.\<close>

definition wants_operand :: "'d SyncEnv \<Rightarrow> bool" where
  "wants_operand env \<longleftrightarrow>
     (case sy_state env of
        Inl err \<Rightarrow> False | Inr (opSpec, st) \<Rightarrow> Spec_ManagementState opSpec = Managed \<and> sy_deletion env = Inr False)"

definition wants_removal :: "'d SyncEnv \<Rightarrow> bool" where
  "wants_removal env \<longleftrightarrow>
     (case sy_state env of
        Inl err \<Rightarrow> False
      | Inr (opSpec, st) \<Rightarrow> Spec_ManagementState opSpec = Removed
          \<or> Spec_ManagementState opSpec = Managed \<and> sy_deletion env = Inr True)"

definition kept_by_finalizer :: "'d OperandWorld \<Rightarrow> bool" where
  "kept_by_finalizer w \<longleftrightarrow> ow_object w \<noteq> None \<longrightarrow> ow_finalizer w"

locale operand_controller =
  fixes sync :: "'d SyncEnv \<Rightarrow> 'd OperandWorld \<Rightarrow> go_error option \<times> 'd OperandWorld"
  assumes creates: "wants_operand env \<Longrightarrow> sync env w = (None, w') \<Longrightarrow> ow_finalizer w' \<and> ow_object w' \<noteq> None"
    and removes: "wants_removal env \<Longrightarrow> sync env w = (None, w') \<Longrightarrow> \<not> ow_finalizer w' \<and> ow_object w' = None"
    and idles: "\<not> wants_operand env \<Longrightarrow> \<not> wants_removal env \<Longrightarrow> snd (sync env w) = w"
    and keeps: "kept_by_finalizer w \<Longrightarrow> kept_by_finalizer (snd (sync env w))"
begin

abbreviation run :: "'d SyncEnv list \<Rightarrow> 'd OperandWorld \<Rightarrow> 'd OperandWorld" where
  "run \<equiv> fold (\<lambda>env w. snd (sync env w))"

lemma run_keeps: "kept_by_finalizer w \<Longrightarrow> kept_by_finalizer (run envs w)"
  by (induction envs arbitrary: w) (simp_all add: keeps)

lemma run_idle:
  "\<forall>env \<in> set envs. \<not> wants_operand env \<and> \<not> wants_removal env \<Longrightarrow> run envs w = w"
  by (induction envs arbitrary: w) (simp_all add: idles)

text \<open>The last sync that was asked for something and met no error decides.\<close>

lemma settled:
  assumes "fst (sync env (run before w)) = None"
    and "\<forall>e \<in> set after. \<not> wants_operand e \<and> \<not> wants_removal e"
  shows "wants_operand env \<Longrightarrow> ow_finalizer (run (before @ env # after) w) \<and> ow_object (run (before @ env # after) w) \<noteq> None"
    and "wants_removal env \<Longrightarrow> \<not> ow_finalizer (run (before @ env # after) w) \<and> ow_object (run (before @ env # after) w) = None"
proof -
  obtain w' where s: "sync env (run before w) = (None, w')" using assms(1) by (metis prod.collapse)
  have "run (before @ env # after) w = w'" using run_idle [OF assms(2)] by (simp add: s)
  then show "wants_operand env \<Longrightarrow> ow_finalizer (run (before @ env # after) w) \<and> ow_object (run (before @ env # after) w) \<noteq> None"
    "wants_removal env \<Longrightarrow> \<not> ow_finalizer (run (before @ env # after) w) \<and> ow_object (run (before @ env # after) w) = None"
    using creates [OF _ s] removes [OF _ s] by simp_all
qed

end

lemma delete_operand_cases:
  "delete_operand env build opSpec w = (e, w') \<Longrightarrow>
     (e = None \<longrightarrow> \<not> ow_finalizer w' \<and> ow_object w' = None)
     \<and> (e \<noteq> None \<longrightarrow> w' = w \<or> w' = w\<lparr>ow_object := None\<rparr>)"
  by (auto simp: delete_operand_def RemoveFinalizer_def split: sum.splits option.splits if_splits)

lemma ApplyOperatorStatus_same:
  "ApplyOperatorStatus env cs w = (e, w') \<Longrightarrow> ow_finalizer w' = ow_finalizer w \<and> ow_object w' = ow_object w"
  by (auto simp: ApplyOperatorStatus_def split: option.splits)

lemma deployment_syncManaged_cases:
  "deployment_syncManaged env opSpec st w = (e, w') \<Longrightarrow>
     (e = None \<longrightarrow> ow_finalizer w' \<and> ow_object w' \<noteq> None) \<and> (w' = w \<or> ow_finalizer w')"
  by (auto simp: deployment_syncManaged_def EnsureFinalizer_def Let_def
      split: sum.splits option.splits if_splits dest!: ApplyOperatorStatus_same)

lemma daemonset_syncManaged_cases:
  "daemonset_syncManaged env opSpec st w = (e, w') \<Longrightarrow>
     (e = None \<longrightarrow> ow_finalizer w' \<and> ow_object w' \<noteq> None) \<and> (w' = w \<or> ow_finalizer w')"
  by (auto simp: daemonset_syncManaged_def EnsureFinalizer_def Let_def
      split: sum.splits option.splits dest!: ApplyOperatorStatus_same)

text \<open>Both interpretations rest on the common skeleton.\<close>

lemma operand_sync_cases:
  assumes "operand_sync env syncManaged syncDeleting w = (e, w')"
  obtains
    (idle) "\<not> wants_operand env" and "\<not> wants_removal env" and "w' = w"
  | (deleting) opSpec where "\<not> wants_operand env" and "wants_removal env" and "syncDeleting opSpec w = (e, w')"
  | (managing) opSpec st where "wants_operand env" and "\<not> wants_removal env" and "syncManaged opSpec st w = (e, w')"
  using assms
  by (auto simp: operand_sync_def wants_operand_def wants_removal_def split: sum.splits prod.splits if_splits)

lemma operand_sync_lawful:
  assumes managed: "\<And>opSpec st w e w'. syncManaged opSpec st w = (e, w') \<Longrightarrow>
      (e = None \<longrightarrow> ow_finalizer w' \<and> ow_object w' \<noteq> None) \<and> (w' = w \<or> ow_finalizer w')"
    and s: "operand_sync env syncManaged (delete_operand env build) w = (e, w')"
  shows "wants_operand env \<Longrightarrow> e = None \<Longrightarrow> ow_finalizer w' \<and> ow_object w' \<noteq> None"
    and "wants_removal env \<Longrightarrow> e = None \<Longrightarrow> \<not> ow_finalizer w' \<and> ow_object w' = None"
    and "\<not> wants_operand env \<Longrightarrow> \<not> wants_removal env \<Longrightarrow> w' = w"
    and "kept_by_finalizer w \<Longrightarrow> kept_by_finalizer w'"
  using s by (cases rule: operand_sync_cases;
      use managed delete_operand_cases in \<open>fastforce simp: kept_by_finalizer_def\<close>)+

interpretation deployment: operand_controller deployment_sync
proof unfold_locales
  fix env w w'
  show "wants_operand env \<Longrightarrow> deployment_sync env w = (None, w') \<Longrightarrow> ow_finalizer w' \<and> ow_object w' \<noteq> None"
    "wants_removal env \<Longrightarrow> deployment_sync env w = (None, w') \<Longrightarrow> \<not> ow_finalizer w' \<and> ow_object w' = None"
    unfolding deployment_sync_def
    by (rule operand_sync_lawful [OF deployment_syncManaged_cases]; assumption?; rule refl)+
  show "\<not> wants_operand env \<Longrightarrow> \<not> wants_removal env \<Longrightarrow> snd (deployment_sync env w) = w"
    "kept_by_finalizer w \<Longrightarrow> kept_by_finalizer (snd (deployment_sync env w))"
    unfolding deployment_sync_def
    by (rule operand_sync_lawful [OF deployment_syncManaged_cases prod.collapse [symmetric]]; assumption)+
qed

interpretation daemonset: operand_controller daemonset_sync
proof unfold_locales
  fix env w w'
  show "wants_operand env \<Longrightarrow> daemonset_sync env w = (None, w') \<Longrightarrow> ow_finalizer w' \<and> ow_object w' \<noteq> None"
    "wants_removal env \<Longrightarrow> daemonset_sync env w = (None, w') \<Longrightarrow> \<not> ow_finalizer w' \<and> ow_object w' = None"
    unfolding daemonset_sync_def
    by (rule operand_sync_lawful [OF daemonset_syncManaged_cases]; assumption?; rule refl)+
  show "\<not> wants_operand env \<Longrightarrow> \<not> wants_removal env \<Longrightarrow> snd (daemonset_sync env w) = w"
    "kept_by_finalizer w \<Longrightarrow> kept_by_finalizer (snd (daemonset_sync env w))"
    unfolding daemonset_sync_def
    by (rule operand_sync_lawful [OF daemonset_syncManaged_cases prod.collapse [symmetric]]; assumption)+
qed

definition deployment_syncs :: "LiveDeployment SyncEnv list \<Rightarrow> LiveDeployment OperandWorld \<Rightarrow> LiveDeployment OperandWorld" where
  "deployment_syncs = fold (\<lambda>env w. snd (deployment_sync env w))"

definition daemonset_syncs :: "LiveDaemonSet SyncEnv list \<Rightarrow> LiveDaemonSet OperandWorld \<Rightarrow> LiveDaemonSet OperandWorld" where
  "daemonset_syncs = fold (\<lambda>env w. snd (daemonset_sync env w))"

text \<open>
  C35: the operands follow the user. In any sequence of syncs with any errors in between, an object of the
  driver exists only while its controller holds its finalizer on the ClusterCSIDriver; and the last
  sync that is asked for something and meets no error decides: a managed operator that is not being
  deleted has the object and the finalizer afterwards, a removed or deleted one has neither.
\<close>
theorem operands_converge:
  assumes "kept_by_finalizer w" and "kept_by_finalizer v"
    and "fst (deployment_sync env (deployment_syncs before w)) = None"
    and "\<forall>e \<in> set after. \<not> wants_operand e \<and> \<not> wants_removal e"
    and "w' = deployment_syncs (before @ env # after) w"
    and "fst (daemonset_sync denv (daemonset_syncs dbefore v)) = None"
    and "\<forall>e \<in> set dafter. \<not> wants_operand e \<and> \<not> wants_removal e"
    and "v' = daemonset_syncs (dbefore @ denv # dafter) v"
  shows "(ow_object w' \<noteq> None \<longrightarrow> ow_finalizer w') \<and> (ow_object v' \<noteq> None \<longrightarrow> ow_finalizer v')
     \<and> (wants_operand env \<longrightarrow> ow_finalizer w' \<and> ow_object w' \<noteq> None)
     \<and> (wants_removal env \<longrightarrow> \<not> ow_finalizer w' \<and> ow_object w' = None)
     \<and> (wants_operand denv \<longrightarrow> ow_finalizer v' \<and> ow_object v' \<noteq> None)
     \<and> (wants_removal denv \<longrightarrow> \<not> ow_finalizer v' \<and> ow_object v' = None)"
proof -
  have "kept_by_finalizer w'" "kept_by_finalizer v'"
    unfolding assms(5,8) deployment_syncs_def daemonset_syncs_def
    by (rule deployment.run_keeps [OF assms(1)], rule daemonset.run_keeps [OF assms(2)])
  moreover note deployment.settled [OF assms(3) [unfolded deployment_syncs_def] assms(4)]
    daemonset.settled [OF assms(6) [unfolded daemonset_syncs_def] assms(7)]
  ultimately show ?thesis
    unfolding assms(5,8) deployment_syncs_def daemonset_syncs_def kept_by_finalizer_def by blast
qed

text \<open>
  Removal needs everything creation needs. \<open>syncDeleting\<close> builds the whole object to learn its name, so
  when a hook fails (an unreadable Infrastructure object or configuration Secret) nothing is deleted: the object
  and the finalizer stay and the sync reports the hook's error, on every retry until the hook works.
\<close>
theorem failing_hook_blocks_removal:
  assumes "wants_removal env" and "sy_state env = Inr (opSpec, st)"
    and "getDeployment (sy_operands env) opSpec = Inl e"
    and "wants_removal denv" and "sy_state denv = Inr (opSpec', st')"
    and "getDaemonSet (sy_operands denv) opSpec' = Inl e'"
  shows "deployment_sync env w = (Some e, w) \<and> ((\<lambda>w. snd (deployment_sync env w)) ^^ n) w = w
     \<and> daemonset_sync denv v = (Some e', v) \<and> ((\<lambda>v. snd (daemonset_sync denv v)) ^^ n) v = v"
proof -
  have "deployment_sync env w = (Some e, w)" "daemonset_sync denv v = (Some e', v)"
    using assms
    by (auto simp: deployment_sync_def daemonset_sync_def operand_sync_def delete_operand_def wants_removal_def)
  moreover from this have "((\<lambda>w. snd (deployment_sync env w)) ^^ n) w = w"
    "((\<lambda>v. snd (daemonset_sync denv v)) ^^ n) v = v"
    by (induction n) simp_all
  ultimately show ?thesis by simp
qed

subsection \<open>The operands beside the main controller\<close>

text \<open>
  The ClusterCSIDriver's management state, the process with its main controller, and the two operands. The
  operand controllers run only in a process whose main controller has started them. A step is one
  sync of one controller, a change by the user, or a new process in place of the old one (which may
  have exited or crashed). The main controller deletes the objects themselves, never a finalizer.
\<close>
record 's Cluster =
  cl_spec :: ManagementState
  cl_main :: "'s World"
  cl_deployment :: "LiveDeployment OperandWorld"
  cl_daemonSet :: "LiveDaemonSet OperandWorld"

definition finds :: "(OperatorSpec \<times> conditions) result \<Rightarrow> ManagementState \<Rightarrow> bool" where
  "finds r s \<longleftrightarrow> (\<forall>sp st. r = Inr (sp, st) \<longrightarrow> Spec_ManagementState sp = s)"

definition drop_object :: "bool \<Rightarrow> 'd OperandWorld \<Rightarrow> 'd OperandWorld" where
  "drop_object b w = (if b then w\<lparr>ow_object := None\<rparr> else w)"

inductive cluster_step :: "'s Cluster \<Rightarrow> 's Cluster \<Rightarrow> bool" where
  main: "finds (env_state env) (cl_spec c) \<Longrightarrow> controller_sync env (cl_main c) = Returned (err, w') \<Longrightarrow>
     b = (w_removed w' \<noteq> w_removed (cl_main c) \<and> env_deleteAsset env ''controller.yaml'' = None) \<Longrightarrow>
     b' = (w_removed w' \<noteq> w_removed (cl_main c) \<and> env_deleteAsset env ''node.yaml'' = None) \<Longrightarrow>
     cluster_step c (c\<lparr>cl_main := w', cl_deployment := drop_object b (cl_deployment c),
                      cl_daemonSet := drop_object b' (cl_daemonSet c)\<rparr>)"
| deployment: "finds (sy_state senv) (cl_spec c) \<Longrightarrow> operandControllerStarted (cl_main c) \<Longrightarrow>
     cluster_step c (c\<lparr>cl_deployment := snd (deployment_sync senv (cl_deployment c))\<rparr>)"
| daemonSet: "finds (sy_state denv) (cl_spec c) \<Longrightarrow> operandControllerStarted (cl_main c) \<Longrightarrow>
     cluster_step c (c\<lparr>cl_daemonSet := snd (daemonset_sync denv (cl_daemonSet c))\<rparr>)"
| restart: "booted w0 \<Longrightarrow> cluster_step c (c\<lparr>cl_main := w0\<rparr>)"
| user: "cluster_step c (c\<lparr>cl_spec := s\<rparr>)"

inductive_cases cluster_stepE: "cluster_step c c'"

text \<open>A run in which the user never manages the operator.\<close>

inductive unmanaged_run :: "'s Cluster \<Rightarrow> 's Cluster \<Rightarrow> bool" for c :: "'s Cluster" where
  start: "unmanaged_run c c"
| step: "unmanaged_run c d \<Longrightarrow> cluster_step d d' \<Longrightarrow> cl_spec d' \<noteq> Managed \<Longrightarrow> unmanaged_run c d'"

lemma booted_stopped: "booted w \<Longrightarrow> \<not> operandControllerStarted w"
  by (auto simp: booted_def NewVSphereController_def VSphereController.truncate_def)

lemma unmanaged_sync_stopped:
  assumes "controller_sync env w = Returned (err, w')" and "finds (env_state env) s" and "s \<noteq> Managed"
  shows "operandControllerStarted w' = operandControllerStarted w"
  using assms(1)
proof (cases rule: controller_sync_cases)
  case (removed sp st)
  then show ?thesis using removeOperands_keeps(1) by blast
next
  case (managed sp st infra d)
  then show ?thesis using assms(2,3) by (simp add: finds_def)
qed simp_all

lemma unmanaged_run_stuck:
  assumes "unmanaged_run c d" and "\<not> operandControllerStarted (cl_main c)" and "cl_spec c \<noteq> Managed"
  shows "\<not> operandControllerStarted (cl_main d) \<and> cl_spec d \<noteq> Managed
     \<and> ow_finalizer (cl_deployment d) = ow_finalizer (cl_deployment c)
     \<and> ow_finalizer (cl_daemonSet d) = ow_finalizer (cl_daemonSet c)"
  using assms(1)
proof (induction rule: unmanaged_run.induct)
  case start
  then show ?case using assms(2,3) by simp
next
  case (step d d')
  from step.hyps(2) show ?case
  proof (cases rule: cluster_step.cases)
    case (main env err w1 b b')
    then show ?thesis
      using step.IH unmanaged_sync_stopped [of env "cl_main d" err w1 "cl_spec d"] by (simp add: drop_object_def)
  next
    case (restart w0)
    then show ?thesis using step.IH booted_stopped by simp
  next
    case (user s)
    then show ?thesis using step.IH step.hyps(3) by simp
  qed (use step.IH in simp_all)
qed

text \<open>
  C8: a finalizer can be left behind for ever. When the user removes a managed operator whose driver runs,
  its controllers race: if the main controller's sync comes first, the process exits, and in every
  run of the processes after it in which the user does not manage the operator again no controller is started that would
  release the finalizers, so a deletion of the ClusterCSIDriver never completes. If the
  operand's own sync comes first and succeeds, its finalizer is gone.
\<close>
theorem removed_operator_keeps_finalizers:
  assumes "currentManagmentState (cl_main c) = Some Managed"
    and "env_state env = Inr (sp, st)" and "Spec_ManagementState sp = Removed"
    and "env_infras env infraGlobalName = Inr infra" and "PlatformStatus_Type infra = Some VSpherePlatformType"
    and "booted w0"
  shows "controller_sync env (cl_main c) = Exited
     \<and> (\<forall>d. unmanaged_run (c\<lparr>cl_spec := Removed, cl_main := w0\<rparr>) d \<longrightarrow>
          ow_finalizer (cl_deployment d) = ow_finalizer (cl_deployment c)
          \<and> ow_finalizer (cl_daemonSet d) = ow_finalizer (cl_daemonSet c))
     \<and> (\<forall>senv. (\<exists>sp' st'. sy_state senv = Inr (sp', st') \<and> Spec_ManagementState sp' = Removed) \<longrightarrow>
          fst (deployment_sync senv (cl_deployment c)) = None \<longrightarrow>
          \<not> ow_finalizer (snd (deployment_sync senv (cl_deployment c))))"
proof -
  have "controller_sync env (cl_main c) = Exited"
    using assms(1-5) by (simp add: controller_sync_def)
  moreover have "\<not> operandControllerStarted w0" by (rule booted_stopped [OF assms(6)])
  then have "ow_finalizer (cl_deployment d) = ow_finalizer (cl_deployment c)
      \<and> ow_finalizer (cl_daemonSet d) = ow_finalizer (cl_daemonSet c)"
    if "unmanaged_run (c\<lparr>cl_spec := Removed, cl_main := w0\<rparr>) d" for d
    using unmanaged_run_stuck [OF that] by simp
  moreover have "\<not> ow_finalizer (snd (deployment_sync senv (cl_deployment c)))"
    if "sy_state senv = Inr (sp', st')" "Spec_ManagementState sp' = Removed"
      "fst (deployment_sync senv (cl_deployment c)) = None" for senv sp' st'
    using deployment.removes [of senv "cl_deployment c" "snd (deployment_sync senv (cl_deployment c))"] that
    by (simp add: wants_removal_def prod_eq_iff)
  ultimately show ?thesis by blast
qed

subsection \<open>Examples\<close>

definition spec_of :: "ManagementState \<Rightarrow> OperatorSpec" where
  "spec_of s = \<lparr>Spec_ManagementState = s, Spec_LogLevel = Normal, Spec_ObservedConfig = ''{}''\<rparr>"

definition calm_env :: "'d \<Rightarrow> ManagementState \<Rightarrow> 'd SyncEnv" where
  "calm_env d s =
     \<lparr>sy_state = Inr (spec_of s, []), sy_deletion = Inr False, sy_ensure = None, sy_remove = None,
      sy_operands = example_operands ''conf'', sy_cached = Inl (NotFound ''node''), sy_apply = (\<lambda>w. Inr d),
      sy_delete = None, sy_applyStatus = None, sy_now = 0\<rparr>"

definition rolled_out :: LiveDeployment where
  "rolled_out = \<lparr>ld_Generation = 1, ld_ObservedGeneration = 1, ld_Replicas = Some 2, ld_UpdatedReplicas = 2,
     ld_AvailableReplicas = 2, ld_UnavailableReplicas = 0, ld_Conditions = []\<rparr>"

definition rolled_out_nodes :: LiveDaemonSet where
  "rolled_out_nodes = \<lparr>ls_Generation = 1, ls_ObservedGeneration = 1, ls_Annotations = None,
     ls_UpdatedNumberScheduled = 3, ls_DesiredNumberScheduled = 3, ls_NumberUnavailable = 0, ls_NumberAvailable = 3\<rparr>"

definition nothing_yet :: "'d OperandWorld" where
  "nothing_yet = \<lparr>ow_finalizer = False, ow_object = None, ow_status = []\<rparr>"

lemma operand_examples_built:
  "\<exists>d. getDeployment (example_operands t) opSpec = Inr d"
  "\<exists>d. getDaemonSet (example_operands t) opSpec = Inr d"
proof -
  have "proxy_config (example_operands t) opSpec = Inr (Some [(''HTTP_PROXY'', ''b'')])"
    by (simp add: proxy_config_def example_operands_def)
  then have "list_all2 (\<lambda>h ok. \<forall>w. readable (h opSpec w) \<longleftrightarrow> ok)
      (controller_hooks (example_operands t)) (replicate 9 True)"
    "list_all2 (\<lambda>h ok. \<forall>w. readable (h opSpec w) \<longleftrightarrow> ok) (node_hooks (example_operands t)) (replicate 5 True)"
    by (simp_all add: example_operands_simps controller_hooks_def node_hooks_def hooks_return numeral_eq_Suc)
  from run_hooks_readable [OF this(1)] run_hooks_readable [OF this(2)]
  show "\<exists>d. getDeployment (example_operands t) opSpec = Inr d" "\<exists>d. getDaemonSet (example_operands t) opSpec = Inr d"
    by (simp_all add: getDeployment_def getDaemonSet_def example_operands_simps list_all_iff flip: readable_iff)
qed

text \<open>Managed, then removed: the object and the finalizer come and go.\<close>

lemma calm_wants:
  "wants_operand (calm_env d Managed)" "wants_removal (calm_env d Removed)"
  by (simp_all add: wants_operand_def wants_removal_def calm_env_def spec_of_def)

lemma calm_syncs:
  "fst (deployment_sync (calm_env rolled_out s) w) = None"
  "fst (daemonset_sync (calm_env rolled_out_nodes s) v) = None"
proof -
  obtain d n where "getDeployment (example_operands ''conf'') (spec_of s) = Inr d"
    "getDaemonSet (example_operands ''conf'') (spec_of s) = Inr n"
    using operand_examples_built by metis
  then show "fst (deployment_sync (calm_env rolled_out s) w) = None"
    "fst (daemonset_sync (calm_env rolled_out_nodes s) v) = None"
    by (auto simp: deployment_sync_def daemonset_sync_def operand_sync_def delete_operand_def
        deployment_syncManaged_def daemonset_syncManaged_def EnsureFinalizer_def RemoveFinalizer_def
        ApplyOperatorStatus_def IsUpdatingTooLong_def updateLastStableGeneration_def calm_env_def Let_def
        lookup_simps split: option.split)
qed

theorem operands_converge_witness:
  "let w = deployment_syncs [calm_env rolled_out Managed, calm_env rolled_out Removed] nothing_yet;
       v = daemonset_syncs [calm_env rolled_out_nodes Removed, calm_env rolled_out_nodes Managed] nothing_yet
   in \<not> ow_finalizer w \<and> ow_object w = None \<and> ow_finalizer v \<and> ow_object v \<noteq> None"
proof -
  have n: "kept_by_finalizer (nothing_yet :: LiveDeployment OperandWorld)"
    "kept_by_finalizer (nothing_yet :: LiveDaemonSet OperandWorld)"
    by (simp_all add: kept_by_finalizer_def nothing_yet_def)
  let ?e = "calm_env rolled_out" and ?d = "calm_env rolled_out_nodes"
  from operands_converge [of nothing_yet nothing_yet "?e Removed" "[?e Managed]" "[]"
      "deployment_syncs ([?e Managed] @ ?e Removed # []) nothing_yet" "?d Managed" "[?d Removed]" "[]"
      "daemonset_syncs ([?d Removed] @ ?d Managed # []) nothing_yet", OF n calm_syncs(1) _ refl calm_syncs(2) _ refl]
  show ?thesis unfolding Let_def append_Cons append_Nil by (simp add: calm_wants)
qed

text \<open>An Infrastructure object that cannot be read, and a configuration Secret that cannot.\<close>

definition broken_env :: "'d \<Rightarrow> 'd SyncEnv" where
  "broken_env d = (calm_env d Removed)\<lparr>sy_operands := (example_operands ''conf'')
     \<lparr>oe_infras := (\<lambda>n. Inl (Failure ''cache'')), oe_secrets := (\<lambda>ns n. Inl (Failure ''cache''))\<rparr>\<rparr>"

lemma broken_hooks:
  "\<exists>e. getDeployment (sy_operands (broken_env d)) opSpec = Inl e"
  "\<exists>e. getDaemonSet (sy_operands (broken_env d)) opSpec = Inl e"
proof -
  let ?env = "sy_operands (broken_env d)"
  have "proxy_config ?env opSpec = Inr (Some [(''HTTP_PROXY'', ''b'')])"
    by (simp add: proxy_config_def broken_env_def example_operands_def)
  then have "list_all2 (\<lambda>h ok. \<forall>w. readable (h opSpec w) \<longleftrightarrow> ok) (controller_hooks ?env)
      [False, True, True, False, True, True, False, False, False]"
    "list_all2 (\<lambda>h ok. \<forall>w. readable (h opSpec w) \<longleftrightarrow> ok) (node_hooks ?env) [True, True, True, False, True]"
    by (simp_all add: broken_env_def example_operands_def controller_hooks_def node_hooks_def hooks_return
        gate_enabled_def)
  from run_hooks_readable [OF this(1), of 0 example_manifest] run_hooks_readable [OF this(2), of 0 example_manifest]
  have "\<not> readable (getDeployment ?env opSpec)" "\<not> readable (getDaemonSet ?env opSpec)"
    by (simp_all add: getDeployment_def getDaemonSet_def broken_env_def example_operands_def)
  then show "\<exists>e. getDeployment ?env opSpec = Inl e" "\<exists>e. getDaemonSet ?env opSpec = Inl e"
    by (metis readable_iff sumE)+
qed

theorem failing_hook_blocks_removal_witness:
  "let w = \<lparr>ow_finalizer = True, ow_object = Some rolled_out, ow_status = []\<rparr>
   in ((\<lambda>w. snd (deployment_sync (broken_env rolled_out) w)) ^^ 100) w = w"
proof -
  obtain e e' where "getDeployment (sy_operands (broken_env rolled_out)) (spec_of Removed) = Inl e"
    "getDaemonSet (sy_operands (broken_env rolled_out_nodes)) (spec_of Removed) = Inl e'"
    using broken_hooks by metis
  moreover have broken: "wants_removal (broken_env d)" "sy_state (broken_env d) = Inr (spec_of Removed, [])" for d
    by (simp_all add: wants_removal_def broken_env_def calm_env_def spec_of_def)
  ultimately show ?thesis
    unfolding Let_def
    using failing_hook_blocks_removal [OF broken [of rolled_out] _ broken [of rolled_out_nodes]] by blast
qed

text \<open>A cluster whose driver runs, and the user removes the operator.\<close>

definition removing_env :: "list_server Env" where
  "removing_env = (lab_env True no_csidriver ''7.0.3'' [] 0)\<lparr>env_state := Inr (spec_of Removed, [])\<rparr>"

definition running_cluster :: "list_server Cluster" where
  "running_cluster =
     \<lparr>cl_spec = Managed,
      cl_main = lab_world\<lparr>currentManagmentState := Some Managed, operandControllerStarted := True\<rparr>,
      cl_deployment = \<lparr>ow_finalizer = True, ow_object = Some rolled_out, ow_status = []\<rparr>,
      cl_daemonSet = \<lparr>ow_finalizer = True, ow_object = Some rolled_out_nodes, ow_status = []\<rparr>\<rparr>"

theorem removed_operator_keeps_finalizers_witness:
  "controller_sync removing_env (cl_main running_cluster) = Exited
   \<and> {d. unmanaged_run (running_cluster\<lparr>cl_spec := Removed, cl_main := lab_world\<rparr>) d}
        \<subseteq> {d. ow_finalizer (cl_deployment d) \<and> ow_finalizer (cl_daemonSet d)}
   \<and> \<not> ow_finalizer (snd (deployment_sync (calm_env rolled_out Removed) (cl_deployment running_cluster)))"
proof -
  have env: "currentManagmentState (cl_main running_cluster) = Some Managed"
    "env_state removing_env = Inr (spec_of Removed, [])" "Spec_ManagementState (spec_of Removed) = Removed"
    "env_infras removing_env infraGlobalName = Inr lab_infra"
    "PlatformStatus_Type lab_infra = Some VSpherePlatformType"
    by (simp_all add: running_cluster_def removing_env_def lab_env_def spec_of_def lab_infra_def example_infra_def
        VSpherePlatformType_def)
  have held: "ow_finalizer (cl_deployment running_cluster)" "ow_finalizer (cl_daemonSet running_cluster)"
    by (simp_all add: running_cluster_def)
  have "sy_state (calm_env rolled_out Removed) = Inr (spec_of Removed, [])" by (simp add: calm_env_def)
  with removed_operator_keeps_finalizers [OF env lab_booted] held calm_syncs(1) env(3)
  show ?thesis by (simp add: subset_iff)
qed

end
