(* ===== verification/Resource_Controllers.thy ===== *)
theory Resource_Controllers
  imports Operand_Controllers
begin

text \<open>
  What else \<open>createCSIDriver\<close> starts: library-go's static resource controllers with the conditional groups of
  \<open>Driver_Starter\<close>, the one of the ServiceMonitor, the log level and the management state controller. The last section
  runs them, and the feature controller, beside the main controller's removal.
\<close>

subsection \<open>Objects by their file\<close>

text \<open>
  An object stands for the file it is read from. A sync reads the operator's state up to three times: once
  itself, and once in each function that decides on a group.
\<close>
record ResourceEnv =
  re_state :: "OperatorSpec result"
  re_create_state :: "OperatorSpec result"
  re_delete_state :: "OperatorSpec result"
  re_crd :: "go_error option" \<comment> \<open>the lookup of the VolumeSnapshotClass definition\<close>
  re_apply :: "string \<Rightarrow> go_error option"
  re_delete :: "string \<Rightarrow> go_error option"
  re_type :: "string \<Rightarrow> string"
  re_applyStatus :: "go_error option"

record ResourceWorld =
  rw_present :: "string \<Rightarrow> bool"
  rw_status :: "string \<rightharpoonup> OperatorCondition" \<comment> \<open>what each controller applied last\<close>

datatype resource_controller = GroupController resource_group | ServiceMonitorController

fun instanceName :: "resource_controller \<Rightarrow> string" where
  "instanceName (GroupController StaticResources) = ''VMwareVSphereDriverStaticResourcesController''"
| "instanceName (GroupController SnapshotClass) = ''VMwareVSphereDriverConditionalStaticResourcesController''"
| "instanceName (GroupController WebhookResources) = ''VMwareVSphereDriverWebhookRemovalStaticResourcesController''"
| "instanceName ServiceMonitorController = ''VMWareVSphereDriverServiceMonitorController''"

fun ignoreNotFoundOnCreate :: "resource_controller \<Rightarrow> bool" where
  "ignoreNotFoundOnCreate (GroupController g) = False"
| "ignoreNotFoundOnCreate ServiceMonitorController = True"

text \<open>
  \<open>WithConditionalResources\<close>: create, delete and files of each entry. The constructor's own entry has no
  condition, so it is always created; for the conditional groups it has no files.
\<close>
fun manifests :: "resource_controller \<Rightarrow> ResourceEnv \<Rightarrow> (bool \<times> bool \<times> string list) list" where
  "manifests (GroupController g) env =
     [(True, False, []),
      (should_create g (re_create_state env) (re_crd env), should_delete g (re_delete_state env), group_assets g)]"
| "manifests ServiceMonitorController env = [(True, False, [''servicemonitor.yaml''])]"

definition IsOperatorManaged :: "ManagementState \<Rightarrow> bool" where
  "IsOperatorManaged s \<longleftrightarrow> s \<noteq> Removed \<and> s \<noteq> Unmanaged"

text \<open>\<open>ApplyDirectly\<close> and \<open>DeleteAll\<close> try every file; an object that is missing counts as deleted.\<close>

definition ApplyDirectly :: "ResourceEnv \<Rightarrow> string list \<Rightarrow> ResourceWorld
    \<Rightarrow> (string \<times> go_error option) list \<times> ResourceWorld" where
  "ApplyDirectly env files w =
     (map (\<lambda>f. (f, re_apply env f)) files,
      w\<lparr>rw_present := (\<lambda>f. rw_present w f \<or> f \<in> set files \<and> re_apply env f = None)\<rparr>)"

definition DeleteAll :: "ResourceEnv \<Rightarrow> string list \<Rightarrow> ResourceWorld
    \<Rightarrow> (string \<times> go_error option) list \<times> ResourceWorld" where
  "DeleteAll env files w =
     (map (\<lambda>f. (f, re_delete env f)) files,
      w\<lparr>rw_present := (\<lambda>f. rw_present w f \<and> \<not> (f \<in> set files \<and> re_delete env f = None))\<rparr>)"

definition result_error :: "ResourceEnv \<Rightarrow> string \<times> go_error option \<Rightarrow> go_error option" where
  "result_error env r = map_option (\<lambda>err. Failure (quote (fst r) @ '' ('' @ re_type env (fst r) @ ''): '' @ err_msg err)) (snd r)"

definition not_found_result :: "string \<times> go_error option \<Rightarrow> bool" where
  "not_found_result r \<longleftrightarrow> (\<exists>m. snd r = Some (NotFound m))"

text \<open>One entry: the errors so far, how many of them are "not found", and the world.\<close>

fun sync_manifest :: "ResourceEnv \<Rightarrow> bool \<times> bool \<times> string list
    \<Rightarrow> go_error list \<times> nat \<times> ResourceWorld \<Rightarrow> go_error list \<times> nat \<times> ResourceWorld" where
  "sync_manifest env (shouldCreate, shouldDelete, files) (errors, notFound, w) =
     (if \<not> shouldCreate \<and> \<not> shouldDelete then (errors, notFound, w)
      else if shouldCreate \<and> shouldDelete
      then (errors @ [Failure (''cannot create and delete '' @ join '', '' files @ '' at the same time, skipping'')],
            notFound, w)
      else case (if shouldCreate then ApplyDirectly env files w else DeleteAll env files w) of
             (outs, w1) \<Rightarrow>
               (errors @ List.map_filter (result_error env) outs,
                notFound + length (filter not_found_result outs), w1))"

definition resource_condition :: "resource_controller \<Rightarrow> go_error list \<Rightarrow> nat \<Rightarrow> OperatorCondition" where
  "resource_condition ctl errors notFound =
     (if 0 < length errors
      then applied_condition (instanceName ctl @ ''Degraded'')
             (if ignoreNotFoundOnCreate ctl \<and> length errors = notFound then ConditionFalse else ConditionTrue)
             (concat (map (\<lambda>err. err_msg err @ nl) errors)) ''SyncError''
      else applied_condition (instanceName ctl @ ''Degraded'') ConditionFalse [] ''AsExpected'')"

text \<open>\<open>StaticResourceController.Sync\<close>; its only precondition is the default one, which is ready.\<close>

definition resource_Sync ::
  "resource_controller \<Rightarrow> ResourceEnv \<Rightarrow> ResourceWorld \<Rightarrow> go_error option \<times> ResourceWorld" where
  "resource_Sync ctl env w =
     (case re_state env of
        Inl err \<Rightarrow> (Some err, w)
      | Inr operatorSpec \<Rightarrow>
          if \<not> IsOperatorManaged (Spec_ManagementState operatorSpec) \<and> Spec_ManagementState operatorSpec \<noteq> Removed
          then (None, w)
          else (case fold (sync_manifest env) (manifests ctl env) ([], 0, w) of
                  (errors, notFound, w1) \<Rightarrow>
                    (case re_applyStatus env of
                       None \<Rightarrow> (NewAggregate errors,
                         w1\<lparr>rw_status := (rw_status w1)(instanceName ctl \<mapsto> resource_condition ctl errors notFound)\<rparr>)
                     | Some err \<Rightarrow> (NewAggregate (errors @ [err]), w1))))"

subsection \<open>The log level\<close>

text \<open>The verbosity of klog is the state; \<open>operatorLogLevel\<close> is a field of the spec of its own.\<close>

definition GetLogLevel :: "nat \<Rightarrow> LogLevel \<times> bool" where
  "GetLogLevel verbosity =
     (if 8 \<le> verbosity then (TraceAll, False)
      else if 6 \<le> verbosity then (Trace, False)
      else if 4 \<le> verbosity then (Debug, False)
      else if 2 \<le> verbosity then (Normal, False)
      else (Normal, True))"

fun ValidLogLevel :: "LogLevel \<Rightarrow> bool" where
  "ValidLogLevel (OtherLevel s) = (s = [])"
| "ValidLogLevel _ = True"

definition defaulted :: "LogLevel \<Rightarrow> LogLevel" where
  "defaulted level = (if level = OtherLevel [] \<or> \<not> ValidLogLevel level then Normal else level)"

text \<open>The error, the new verbosity and whether the change is announced by an event.\<close>

definition LogLevel_sync ::
  "LogLevel result \<Rightarrow> (nat \<Rightarrow> go_error option) \<Rightarrow> nat \<Rightarrow> go_error option \<times> nat \<times> bool" where
  "LogLevel_sync state setLevel verbosity =
     (case state of
        Inl err \<Rightarrow> if is_not_found err then (None, verbosity, False) else (Some err, verbosity, False)
      | Inr operatorLogLevel \<Rightarrow>
          (case GetLogLevel verbosity of
             (currentLogLevel, isUnknown) \<Rightarrow>
               (let desiredLogLevel = defaulted operatorLogLevel
                in if \<not> isUnknown \<and> currentLogLevel = desiredLogLevel then (None, verbosity, False)
                   else (case setLevel (LogLevelToVerbosity desiredLogLevel) of
                           Some err \<Rightarrow> (Some err, verbosity, False)
                         | None \<Rightarrow> (None, LogLevelToVerbosity desiredLogLevel, \<not> isUnknown)))))"

subsection \<open>The management state\<close>

fun state_text :: "ManagementState \<Rightarrow> string" where
  "state_text Managed = ''Managed''"
| "state_text Unmanaged = ''Unmanaged''"
| "state_text Removed = ''Removed''"
| "state_text Force = ''Force''"

definition IsOperatorUnknownState :: "ManagementState \<Rightarrow> bool" where
  "IsOperatorUnknownState s \<longleftrightarrow> s \<notin> {Managed, Removed, Unmanaged}"

text \<open>This operator supports every state, so only an unknown one degrades it.\<close>

definition ManagementState_sync ::
  "OperatorSpec result \<Rightarrow> go_error option \<Rightarrow> go_error option \<times> OperatorCondition option" where
  "ManagementState_sync state applyStatus =
     (case state of
        Inl err \<Rightarrow> if is_not_found err then (None, None) else (Some err, None)
      | Inr detailedSpec \<Rightarrow>
          (let s = Spec_ManagementState detailedSpec;
               cond = (if IsOperatorUnknownState s
                       then applied_condition ''ManagementStateDegraded'' ConditionTrue
                              (''Unsupported management state '' @ quote (state_text s)
                                 @ '' for vmware-vsphere-csi-driver operator'') ''Unknown''
                       else applied_condition ''ManagementStateDegraded'' ConditionFalse [] [])
           in case applyStatus of Some err \<Rightarrow> (Some err, None) | None \<Rightarrow> (None, Some cond)))"

subsection \<open>The controllers of the driver\<close>

datatype csi_controller =
    LogLevelController
  | ManagementStateController
  | ResourceController resource_controller
  | ConfigObserverController
  | ControllerServiceController
  | NodeServiceController

text \<open>What \<open>CSIControllerSet.Run\<close> starts, in its order; nil controllers are skipped.\<close>

definition controller_set :: "csi_controller list" where
  "controller_set =
     [LogLevelController, ManagementStateController, ConfigObserverController, ControllerServiceController,
      NodeServiceController, ResourceController ServiceMonitorController,
      ResourceController (GroupController StaticResources), ResourceController (GroupController SnapshotClass),
      ResourceController (GroupController WebhookResources)]"

datatype conditional_controller =
  CSIControllerSet string "csi_controller list" | RemoveStaleConditionsController string "string list"

definition createCSIDriver_controllers :: "conditional_controller list" where
  "createCSIDriver_controllers =
     [CSIControllerSet ''vmware-vsphere-csi-driver'' controller_set,
      RemoveStaleConditionsController ''VMwareVSphereDriverWebhookConditionRemover'' webhook_conditions]"

subsection \<open>Where the resources settle\<close>

fun files_of :: "resource_controller \<Rightarrow> string list" where
  "files_of (GroupController g) = group_assets g"
| "files_of ServiceMonitorController = [''servicemonitor.yaml'']"

text \<open>Whether the controller wants its objects, in a state in which it acts.\<close>

fun target :: "resource_controller \<Rightarrow> ManagementState \<Rightarrow> bool" where
  "target (GroupController StaticResources) s = (s = Managed)"
| "target (GroupController SnapshotClass) s = True"
| "target (GroupController WebhookResources) s = False"
| "target ServiceMonitorController s = True"

definition reads_state :: "ResourceEnv \<Rightarrow> ManagementState \<Rightarrow> bool" where
  "reads_state env s \<longleftrightarrow>
     (\<forall>r \<in> {re_state env, re_create_state env, re_delete_state env}. \<exists>sp. r = Inr sp \<and> Spec_ManagementState sp = s)"

lemma files_disjoint: "c \<noteq> c' \<Longrightarrow> set (files_of c) \<inter> set (files_of c') = {}"
  by (cases c; cases c'; (cases "case c of GroupController g \<Rightarrow> g | _ \<Rightarrow> StaticResources");
      (cases "case c' of GroupController g \<Rightarrow> g | _ \<Rightarrow> StaticResources")) auto

definition entry :: "resource_controller \<Rightarrow> ResourceEnv \<Rightarrow> bool \<times> bool \<times> string list" where
  "entry ctl env = last (manifests ctl env)"

lemma entry_simps:
  "entry (GroupController g) env =
     (should_create g (re_create_state env) (re_crd env), should_delete g (re_delete_state env), group_assets g)"
  "entry ServiceMonitorController env = (True, False, [''servicemonitor.yaml''])"
  by (simp_all add: entry_def)

lemma fold_manifests: "fold (sync_manifest env) (manifests ctl env) ([], 0, w) = sync_manifest env (entry ctl env) ([], 0, w)"
  by (cases ctl) (simp_all add: entry_def ApplyDirectly_def map_filter_simps del: should_create.simps should_delete.simps)

lemma result_errors: "List.map_filter (result_error env) (map (\<lambda>f. (f, r f)) files) = [] \<longleftrightarrow> (\<forall>f \<in> set files. r f = None)"
  by (induction files) (auto simp: map_filter_simps result_error_def split: option.splits)

lemma sync_manifest_present:
  assumes "sync_manifest env (create, delete, files) ([], 0, w) = (errors, n, w')"
  shows "rw_present w' f =
     (if create \<and> \<not> delete \<and> f \<in> set files \<and> re_apply env f = None then True
      else if delete \<and> \<not> create \<and> f \<in> set files \<and> re_delete env f = None then False
      else rw_present w f)"
    and "rw_status w' = rw_status w"
    and "errors = [] \<Longrightarrow> \<not> (create \<and> delete) \<and> (create \<longrightarrow> (\<forall>f \<in> set files. re_apply env f = None))
       \<and> (delete \<longrightarrow> (\<forall>f \<in> set files. re_delete env f = None))"
  using assms result_errors [of env _ files]
  by (auto simp: ApplyDirectly_def DeleteAll_def split: if_splits)

text \<open>One sync, from the outside.\<close>

lemma resource_Sync_present:
  assumes "resource_Sync ctl env w = (err, w')" and "entry ctl env = (create, delete, files)"
  shows "rw_present w' f = rw_present w f \<or>
     (\<exists>sp. re_state env = Inr sp) \<and> f \<in> set files \<and> create \<noteq> delete \<and> rw_present w' f = create"
proof (cases "re_state env")
  case (Inr sp)
  obtain errors n w1 where step: "sync_manifest env (create, delete, files) ([], 0, w) = (errors, n, w1)"
    by (metis prod_cases3)
  then have "w' = w \<or> rw_present w' = rw_present w1"
    using assms by (auto simp: resource_Sync_def Inr fold_manifests split: if_splits option.splits)
  with sync_manifest_present(1) [OF step, of f] show ?thesis
    using Inr by (auto split: if_splits)
qed (use assms in \<open>simp add: resource_Sync_def\<close>)

lemma entry_files: "entry ctl env = (create, delete, files) \<Longrightarrow> files = files_of ctl"
  by (cases ctl) (auto simp: entry_simps)

lemma resource_Sync_own:
  assumes "resource_Sync ctl env w = (err, w')" and "f \<notin> set (files_of ctl)"
  shows "rw_present w' f = rw_present w f"
proof -
  obtain create delete files where "entry ctl env = (create, delete, files)" by (metis prod_cases3)
  with resource_Sync_present [OF assms(1) this, of f] assms(2) entry_files [OF this] show ?thesis by simp
qed

lemma entry_target:
  assumes "reads_state env s" and "s = Managed \<or> s = Removed" and "entry ctl env = (create, delete, files)"
  shows "create \<noteq> delete \<and> create = target ctl s
     \<or> ctl = GroupController SnapshotClass \<and> re_crd env \<noteq> None \<and> \<not> create \<and> \<not> delete"
proof (cases ctl)
  case (GroupController g)
  then show ?thesis
    using assms by (cases g) (auto simp: entry_simps reads_state_def getOperatorSyncState_def)
qed (use assms in \<open>auto simp: entry_simps\<close>)

lemma resource_Sync_stable:
  assumes "reads_state env s" and "s = Managed \<or> s = Removed"
    and "resource_Sync ctl env w = (err, w')" and "f \<in> set (files_of c)" and "rw_present w f = target c s"
  shows "rw_present w' f = target c s"
proof (cases "ctl = c")
  case True
  obtain create delete files where e: "entry ctl env = (create, delete, files)" by (metis prod_cases3)
  from resource_Sync_present [OF assms(3) e, of f] entry_target [OF assms(1,2) e] True assms(5) show ?thesis
    by auto
next
  case False
  then have "f \<notin> set (files_of ctl)" using files_disjoint [of ctl c] assms(4) by blast
  from resource_Sync_own [OF assms(3) this] assms(5) show ?thesis by simp
qed

lemma resource_Sync_settles:
  assumes "reads_state env s" and "s = Managed \<or> s = Removed"
    and "fst (resource_Sync ctl env w) = None" and "ctl = GroupController SnapshotClass \<longrightarrow> re_crd env = None"
    and "f \<in> set (files_of ctl)"
  shows "rw_present (snd (resource_Sync ctl env w)) f = target ctl s"
proof -
  obtain create delete files where e: "entry ctl env = (create, delete, files)" by (metis prod_cases3)
  obtain errors n w1 where step: "sync_manifest env (create, delete, files) ([], 0, w) = (errors, n, w1)"
    by (metis prod_cases3)
  obtain sp where sp: "re_state env = Inr sp" "Spec_ManagementState sp = s"
    using assms(1) by (auto simp: reads_state_def)
  have run: "errors = []" "rw_present (snd (resource_Sync ctl env w)) = rw_present w1"
    using assms(2,3) sp step by (auto simp: resource_Sync_def fold_manifests e IsOperatorManaged_def split: option.splits)
  have "create \<noteq> delete" "create = target ctl s" "f \<in> set files"
    using entry_target [OF assms(1,2) e] assms(4,5) entry_files [OF e] by auto
  with sync_manifest_present(1) [OF step, of f] sync_manifest_present(3) [OF step run(1)] show ?thesis
    by (auto simp: run(2))
qed

definition resource_run :: "(resource_controller \<times> ResourceEnv) list \<Rightarrow> ResourceWorld \<Rightarrow> ResourceWorld" where
  "resource_run = fold (\<lambda>(ctl, env) w. snd (resource_Sync ctl env w))"

lemma resource_run_stable:
  assumes "s = Managed \<or> s = Removed" and "f \<in> set (files_of c)"
  shows "\<forall>(ctl, env) \<in> set run. reads_state env s \<Longrightarrow> rw_present w f = target c s \<Longrightarrow>
     rw_present (resource_run run w) f = target c s"
proof (induction run arbitrary: w)
  case (Cons x run)
  obtain ctl env where x: "x = (ctl, env)" by fastforce
  obtain err w' where "resource_Sync ctl env w = (err, w')" by fastforce
  with Cons resource_Sync_stable [OF _ assms(1) this assms(2)] show ?case
    by (simp add: resource_run_def x)
qed (simp add: resource_run_def)

text \<open>
  C34: the static resources follow the operator's state. While the operator is managed, or while it is
  removed, the four resource controllers may sync in any order and with any errors: once one of them has
  had a sync without an error, each of its objects is there or gone as it wants, and stays so. A removed
  operator thus loses its service accounts, roles and the objects of the former webhook, while
  the snapshot class (if its definition is there) and the ServiceMonitor are still created as long as
  the controllers run.
\<close>
theorem resources_converge:
  assumes "s = Managed \<or> s = Removed" and "\<forall>(c, e) \<in> set (before @ (ctl, env) # after). reads_state e s"
    and "fst (resource_Sync ctl env (resource_run before w)) = None"
    and "ctl = GroupController SnapshotClass \<longrightarrow> re_crd env = None" and "f \<in> set (files_of ctl)"
  shows "rw_present (resource_run (before @ (ctl, env) # after) w) f \<longleftrightarrow>
     ctl = GroupController StaticResources \<and> s = Managed
       \<or> ctl = GroupController SnapshotClass \<or> ctl = ServiceMonitorController"
proof -
  have "reads_state env s" using assms(2) by auto
  from resource_Sync_settles [OF this assms(1,3,4,5)]
  have "rw_present (resource_run after (snd (resource_Sync ctl env (resource_run before w)))) f = target ctl s"
    using resource_run_stable [OF assms(1,5), of after] assms(2) by simp
  then show ?thesis
    by (cases ctl; cases "case ctl of GroupController g \<Rightarrow> g | _ \<Rightarrow> StaticResources") (auto simp: resource_run_def)
qed

subsection \<open>Beside the main controller's removal\<close>

text \<open>
  The objects of all files, the main controller and the user's choice. The main controller deletes the objects
  of its list when it removes and applies the Secret when it is managed; the feature controller is started by
  \<open>RunOperator\<close>, the others by the main controller. Of the Deployment's and the DaemonSet's controllers this model only says that they
  may create or delete their objects.
\<close>
record 's Site =
  si_spec :: ManagementState
  si_main :: "'s World"
  si_resources :: ResourceWorld

definition after_main :: "'s Env \<Rightarrow> 's World \<Rightarrow> 's World \<Rightarrow> ResourceWorld \<Rightarrow> ResourceWorld" where
  "after_main env w w' r = r\<lparr>rw_present := (\<lambda>f.
     if w_removed w' \<noteq> w_removed w
     then rw_present r f \<and> \<not> (f \<in> set assetsToBeDeleted \<and> env_deleteAsset env f = None)
     else rw_present r f \<or> f = ''vsphere_cloud_config_secret.yaml'' \<and> w_secrets w' \<noteq> w_secrets w)\<rparr>"

definition sees :: "OperatorSpec result \<Rightarrow> ManagementState \<Rightarrow> bool" where
  "sees r s \<longleftrightarrow> (\<forall>sp. r = Inr sp \<longrightarrow> Spec_ManagementState sp = s)"

inductive site_step :: "'s Site \<Rightarrow> 's Site \<Rightarrow> bool" where
  main: "finds (env_state env) (si_spec c) \<Longrightarrow> controller_sync env (si_main c) = Returned (err, w') \<Longrightarrow>
     site_step c (c\<lparr>si_main := w', si_resources := after_main env (si_main c) w' (si_resources c)\<rparr>)"
| resources: "operandControllerStarted (si_main c) \<Longrightarrow>
     sees (re_state renv) (si_spec c) \<and> sees (re_create_state renv) (si_spec c) \<and> sees (re_delete_state renv) (si_spec c) \<Longrightarrow>
     site_step c (c\<lparr>si_resources := snd (resource_Sync ctl renv (si_resources c))\<rparr>)"
| operands: "operandControllerStarted (si_main c) \<Longrightarrow> f \<in> {''controller.yaml'', ''node.yaml''} \<Longrightarrow>
     site_step c (c\<lparr>si_resources := (si_resources c)\<lparr>rw_present := (rw_present (si_resources c))(f := b)\<rparr>\<rparr>)"
| features: "sees state (si_spec c) \<Longrightarrow> Features_Sync state drivers infras manifest applyMap = (None, Some d) \<Longrightarrow>
     site_step c (c\<lparr>si_resources := (si_resources c)\<lparr>rw_present :=
       (rw_present (si_resources c))(''vsphere_features_config.yaml'' := True)\<rparr>\<rparr>)"
| restart: "booted w0 \<Longrightarrow> site_step c (c\<lparr>si_main := w0\<rparr>)"
| user: "site_step c (c\<lparr>si_spec := s\<rparr>)"

inductive site_run :: "'s Site \<Rightarrow> 's Site \<Rightarrow> bool" for c :: "'s Site" where
  start: "site_run c c"
| step: "site_run c d \<Longrightarrow> site_step d d' \<Longrightarrow> site_run c d'"

text \<open>The part of a run in which the user does not manage the operator.\<close>

inductive removed_run :: "'s Site \<Rightarrow> 's Site \<Rightarrow> bool" for c :: "'s Site" where
  start: "removed_run c c"
| step: "removed_run c d \<Longrightarrow> site_step d d' \<Longrightarrow> si_spec d' \<noteq> Managed \<Longrightarrow> removed_run c d'"

text \<open>A process whose driver runs has been managed, which is why it ends when it is removed.\<close>

definition started_managed :: "'s World \<Rightarrow> bool" where
  "started_managed w \<longleftrightarrow> (operandControllerStarted w \<longrightarrow> currentManagmentState w = Some Managed)"

lemma booted_started_managed: "booted w \<Longrightarrow> started_managed w"
  by (simp add: started_managed_def booted_stopped)

lemma sync_managed_state:
  assumes "sync_managed env infra d st w = Returned (err, w')" and "vSphereConnections w = []"
  shows "currentManagmentState w' = currentManagmentState w" "w_removed w' = w_removed w"
proof -
  have "currentManagmentState w' = currentManagmentState w \<and> w_removed w' = w_removed w"
    using assms(1)
  proof (cases rule: sync_managed_cases)
    case (connected found cfg conn w4 w5)
    have "vSphereConnections (before_login env infra d found cfg w) = []" using assms(2) by (simp add: before_login_keeps)
    with connected(3) obtain conns where
      w4: "w4 = (before_login env infra d found cfg w)\<lparr>vSphereConnections := conns,
        w_sessions := w_sessions (before_login env infra d found cfg w) @ concat (map held conns)\<rparr>"
      by (rule login_cases)
    have "w_removed (before_login env infra d found cfg w) = w_removed w"
      by (simp add: before_login_def start_operand_def Let_def)
    with sync_connected_progressed [OF connected(4)] w4 connected(5) show ?thesis
      by (simp add: progressed_def deferred_logout_def before_login_keeps)
  qed (auto simp: start_operand_def)
  then show "currentManagmentState w' = currentManagmentState w" "w_removed w' = w_removed w" by simp_all
qed

lemma controller_sync_started_managed:
  assumes "controller_sync env w = Returned (err, w')" and "started_managed w" and "vSphereConnections w = []"
  shows "started_managed w'"
  using assms(1)
proof (cases rule: controller_sync_cases)
  case idle
  with assms(2) show ?thesis by simp
next
  case (removed sp st)
  note k = removeOperands_keeps [OF removed(4)]
  show ?thesis using assms(2) by (simp add: started_managed_def k)
next
  case (no_driver e)
  then show ?thesis by (simp add: started_managed_def)
next
  case (managed sp st infra d)
  from sync_managed_state(1) [OF managed(6)] assms(3) show ?thesis by (simp add: started_managed_def)
qed

lemma site_step_inv:
  assumes "site_step c d" and "ctl_inv (si_main c) \<and> started_managed (si_main c)"
  shows "ctl_inv (si_main d) \<and> started_managed (si_main d)"
  using assms
proof (cases rule: site_step.cases)
  case (main env err w')
  then show ?thesis
    using assms(2) controller_sync_inv [OF main(3)] controller_sync_started_managed [OF main(3)]
    by (simp add: ctl_inv_def)
qed (auto intro: booted_inv booted_started_managed)

lemma site_run_inv:
  "site_run c d \<Longrightarrow> booted (si_main c) \<Longrightarrow> ctl_inv (si_main d) \<and> started_managed (si_main d)"
proof (induction rule: site_run.induct)
  case start
  then show ?case by (simp add: booted_inv booted_started_managed)
next
  case (step d d')
  then show ?case using site_step_inv by blast
qed

lemma unmanaged_main:
  assumes "controller_sync env w = Returned (err, w')" and "finds (env_state env) s" and "s \<noteq> Managed"
    and "\<not> rw_present r f" and "f \<in> set assetsToBeDeleted"
  shows "\<not> rw_present (after_main env w w' r) f"
  using assms(1)
proof (cases rule: controller_sync_cases)
  case (removed sp st)
  then show ?thesis using removeOperands_keeps(8) [OF removed(4)] assms(4) by (simp add: after_main_def)
next
  case (managed sp st infra d)
  then show ?thesis using assms(2,3) by (simp add: finds_def)
qed (use assms(4) in \<open>simp_all add: after_main_def\<close>)

lemma removed_run_clean:
  assumes "removed_run c d" and "\<not> operandControllerStarted (si_main c)" and "si_spec c \<noteq> Managed"
    and "\<forall>f \<in> set assetsToBeDeleted. \<not> rw_present (si_resources c) f"
  shows "\<not> operandControllerStarted (si_main d) \<and> si_spec d \<noteq> Managed
     \<and> (\<forall>f \<in> set assetsToBeDeleted. \<not> rw_present (si_resources d) f)"
  using assms(1)
proof (induction rule: removed_run.induct)
  case start
  then show ?case using assms(2-4) by simp
next
  case (step d d')
  from step.hyps(2) show ?case
  proof (cases rule: site_step.cases)
    case (main env err w')
    then show ?thesis
      using step.IH unmanaged_sync_stopped [OF main(3,2)] unmanaged_main [OF main(3,2)] by simp
  next
    case (features state drivers infras manifest applyMap dd)
    then show ?thesis using step.IH
      by (auto simp: Features_Sync_def sees_def split: sum.splits if_splits)
  next
    case (restart w0)
    then show ?thesis using step.IH booted_stopped by simp
  next
    case (user s)
    then show ?thesis using step.IH step.hyps(3) by simp
  qed (use step.IH in simp_all)
qed

lemma removed_once:
  assumes "controller_sync env w = Returned (None, w')" and "env_state env = Inr (sp, st)"
    and "Spec_ManagementState sp = Removed" and "env_infras env infraGlobalName = Inr infra"
    and "PlatformStatus_Type infra = Some VSpherePlatformType" and "f \<in> set assetsToBeDeleted"
  shows "\<not> rw_present (after_main env w w' r) f" and "currentManagmentState w \<noteq> Some Managed"
    and "operandControllerStarted w' = operandControllerStarted w"
proof -
  have sync: "currentManagmentState w \<noteq> Some Managed" "removeOperands env st w = (None, w')"
    using assms(1-5) by (auto simp: controller_sync_def split: if_splits)
  have "\<not> (\<exists>a \<in> set assetsToBeDeleted. env_deleteAsset env a \<noteq> None)"
    using sync(2) map_filter_nonempty [of "env_deleteAsset env" assetsToBeDeleted]
    by (auto simp: removeOperands_def Let_def split: if_splits)
  moreover have "w_removed w' \<noteq> w_removed w"
    using removeOperands_keeps(7) [OF sync(2)] by (simp add: assetsToBeDeleted_def)
  ultimately show "\<not> rw_present (after_main env w w' r) f" using assms(6) by (simp add: after_main_def)
  show "currentManagmentState w \<noteq> Some Managed" by (rule sync(1))
  show "operandControllerStarted w' = operandControllerStarted w" by (rule removeOperands_keeps(1) [OF sync(2)])
qed

text \<open>
  C28: what is removed stays removed. Whatever the user and all controllers did before, in any interleaving and
  with any restarts: once the main controller has had a removing sync without an error, no object of a
  deleted file exists, and none comes back as long as the user does not manage the operator again. The
  controllers that would create some of them again do not run then: a process that has started them ends when it is
  to remove.
\<close>
theorem removed_stays_removed:
  assumes "site_run c0 c" and "booted (si_main c0)" and "si_spec c = Removed"
    and "controller_sync env (si_main c) = Returned (None, w')" and "env_state env = Inr (sp, st)"
    and "Spec_ManagementState sp = Removed" and "env_infras env infraGlobalName = Inr infra"
    and "PlatformStatus_Type infra = Some VSpherePlatformType"
    and "removed_run (c\<lparr>si_main := w', si_resources := after_main env (si_main c) w' (si_resources c)\<rparr>) d"
    and "f \<in> set assetsToBeDeleted"
  shows "\<not> rw_present (si_resources d) f \<and> \<not> operandControllerStarted (si_main d)"
proof -
  note gone = removed_once [OF assms(4-8)]
  have "\<not> operandControllerStarted (si_main c)"
    using site_run_inv [OF assms(1,2)] gone(2) [OF assms(10)] by (simp add: started_managed_def)
  with removed_run_clean [OF assms(9)] gone(1) gone(3) [OF assms(10)] assms(3,10) show ?thesis by simp
qed

subsection \<open>The other controllers\<close>

text \<open>
  A sync that meets no error leaves the verbosity at the wanted level or, if the operator was started with
  a verbosity between two levels, at the one that counts as this level; the next one changes nothing.
\<close>
lemma LogLevel_sync_settles:
  assumes "LogLevel_sync (Inr level) setLevel v = (None, v', event)"
  shows "GetLogLevel v' = (defaulted level, False) \<and> LogLevel_sync (Inr level) setLevel v' = (None, v', False)"
proof -
  have "GetLogLevel (LogLevelToVerbosity (defaulted level)) = (defaulted level, False)"
    by (cases level) (auto simp: defaulted_def GetLogLevel_def)
  then show ?thesis
    using assms by (auto simp: LogLevel_sync_def Let_def split: prod.splits if_splits option.splits)
qed

lemma ManagementState_degrades:
  "(\<exists>c. ManagementState_sync (Inr sp) None = (None, Some c) \<and> cnd_Status c = ConditionTrue) \<longleftrightarrow>
     Spec_ManagementState sp = Force"
  by (cases "Spec_ManagementState sp")
    (simp_all add: ManagementState_sync_def IsOperatorUnknownState_def applied_condition_def Let_def)

text \<open>A state that changes between the reads of one sync: nothing is touched, and the controller is degraded.\<close>

lemma conflicting_reads:
  assumes "re_state env = Inr sp" and "Spec_ManagementState sp = Managed \<or> Spec_ManagementState sp = Removed"
    and "sees (re_create_state env) Managed" and "sees (re_delete_state env) Removed"
    and "re_create_state env = Inr sp1" and "re_delete_state env = Inr sp2"
    and "re_applyStatus env = None" and "resource_Sync (GroupController StaticResources) env w = (err, w')"
  shows "err \<noteq> None \<and> rw_present w' = rw_present w
     \<and> map_option cnd_Status (rw_status w' ''VMwareVSphereDriverStaticResourcesController'') = Some ConditionTrue"
  using assms
  by (auto simp: resource_Sync_def fold_manifests entry_simps IsOperatorManaged_def getOperatorSyncState_def sees_def
      resource_condition_def applied_condition_def NewAggregate_def simp del: manifests.simps group_assets.simps)

subsection \<open>Examples\<close>

definition resource_env :: "ManagementState \<Rightarrow> go_error option \<Rightarrow> ResourceEnv" where
  "resource_env s err =
     \<lparr>re_state = Inr (spec_of s), re_create_state = Inr (spec_of s), re_delete_state = Inr (spec_of s), re_crd = None,
      re_apply = (\<lambda>f. err), re_delete = (\<lambda>f. err), re_type = (\<lambda>f. ''object''), re_applyStatus = None\<rparr>"

definition everything :: ResourceWorld where
  "everything = \<lparr>rw_present = (\<lambda>f. True), rw_status = Map.empty\<rparr>"

lemma resource_env_reads: "reads_state (resource_env s err) s"
  by (simp add: reads_state_def resource_env_def spec_of_def)

lemma resource_env_simps:
  "re_state (resource_env s err) = Inr (spec_of s)" "re_crd (resource_env s err) = None"
  "re_apply (resource_env s err) = (\<lambda>f. err)" "re_delete (resource_env s err) = (\<lambda>f. err)"
  "re_applyStatus (resource_env s err) = None"
  by (simp_all add: resource_env_def)

theorem resources_converge_witness:
  "let w = resource_run
       [(GroupController StaticResources, resource_env Removed (Some (Failure ''down''))),
        (GroupController StaticResources, resource_env Removed None),
        (ServiceMonitorController, resource_env Removed None)] everything
   in \<not> rw_present w ''csidriver.yaml'' \<and> rw_present w ''servicemonitor.yaml''"
proof -
  let ?s = "GroupController StaticResources"
  have settled: "fst (resource_Sync c (resource_env Removed None) v) = None" for c v
  proof -
    obtain create delete files where e: "entry c (resource_env Removed None) = (create, delete, files)"
      by (metis prod_cases3)
    from entry_target [OF resource_env_reads _ e] have "create \<noteq> delete" by (simp add: resource_env_simps)
    with result_errors [of "resource_env Removed None" "\<lambda>f. None" files] show ?thesis
      by (auto simp: resource_Sync_def fold_manifests e resource_env_simps IsOperatorManaged_def spec_of_def
          ApplyDirectly_def DeleteAll_def)
  qed
  have run: "\<forall>(c, e) \<in> set ([(?s, resource_env Removed (Some (Failure ''down'')))]
      @ (?s, resource_env Removed None) # [(ServiceMonitorController, resource_env Removed None)]). reads_state e Removed"
    "\<forall>(c, e) \<in> set ([(?s, resource_env Removed (Some (Failure ''down''))), (?s, resource_env Removed None)]
      @ (ServiceMonitorController, resource_env Removed None) # []). reads_state e Removed"
    by (simp_all add: resource_env_reads)
  from resources_converge [OF _ run(1) settled, of "''csidriver.yaml''" everything]
    resources_converge [OF _ run(2) settled, of "''servicemonitor.yaml''" everything]
  show ?thesis by simp
qed

lemma removing_sync: "\<exists>w'. controller_sync removing_env lab_world = Returned (None, w')"
  by (auto simp: controller_sync_def removing_env_def lab_env_def lab_world_def lab_infra_def example_infra_def
      VSpherePlatformType_def spec_of_def removeOperands_def map_filter_nonempty List.map_filter_def SyncRemove_def
      example_env_def write_status_def removeConditions_def UpdateStatus_quiet Let_def
      split: prod.splits)

definition full_site :: "list_server Site" where
  "full_site = \<lparr>si_spec = Removed, si_main = lab_world, si_resources = everything\<rparr>"

theorem removed_stays_removed_witness:
  "\<exists>w' d. controller_sync removing_env lab_world = Returned (None, w')
     \<and> removed_run (full_site\<lparr>si_main := w',
         si_resources := after_main removing_env lab_world w' (si_resources full_site)\<rparr>) d
     \<and> si_main d = lab_world \<and> \<not> rw_present (si_resources d) ''csidriver.yaml''"
proof -
  obtain w' where sync: "controller_sync removing_env lab_world = Returned (None, w')" using removing_sync by blast
  let ?c = "full_site\<lparr>si_main := w', si_resources := after_main removing_env lab_world w' (si_resources full_site)\<rparr>"
  have site: "si_main full_site = lab_world" "si_spec full_site = Removed" by (simp_all add: full_site_def)
  have env: "env_state removing_env = Inr (spec_of Removed, [])" "Spec_ManagementState (spec_of Removed) = Removed"
    "env_infras removing_env infraGlobalName = Inr lab_infra" "PlatformStatus_Type lab_infra = Some VSpherePlatformType"
    by (simp_all add: removing_env_def lab_env_def spec_of_def lab_infra_def example_infra_def VSpherePlatformType_def)
  have run: "removed_run ?c (?c\<lparr>si_main := lab_world\<rparr>)"
    by (rule removed_run.step [OF removed_run.start site_step.restart [OF lab_booted]]) (simp add: site)
  have "''csidriver.yaml'' \<in> set assetsToBeDeleted" by (simp add: assetsToBeDeleted_def)
  from removed_stays_removed [OF site_run.start _ site(2) _ env, unfolded site, OF lab_booted sync _ this] run sync
  have "\<not> rw_present (si_resources (?c\<lparr>si_main := lab_world\<rparr>)) ''csidriver.yaml''" by blast
  with sync run show ?thesis by fastforce
qed

end
