(* ===== verification/Manifest_Hooks.thy ===== *)
theory Manifest_Hooks
  imports Operand_Hooks
begin

text \<open>
  The manifest hooks of library-go: how the text of \<open>controller.yaml\<close> and \<open>node.yaml\<close> is completed before
  it is decoded and the hooks of \<open>Operand_Hooks\<close> see it
  (\<open>csidrivercontrollerservicecontroller/helpers.go\<close> and \<open>replacePlaceholders\<close> of the node controller). The
  second half proves the passes equal to one substitution on the lines and placeholders of a manifest.
\<close>

subsection \<open>Package strings and bytes\<close>

text \<open>
  \<open>strings.NewReplacer(pairs...).Replace\<close>: at each position the first pair that matches, without a second
  look at what was inserted. The patterns of this program are not empty.
\<close>
function replacer :: "(string \<times> string) list \<Rightarrow> string \<Rightarrow> string" where
  "replacer pairs [] = []"
| "replacer pairs (c # s) =
     (case find (\<lambda>(old, new). has_prefix (c # s) old) pairs of
        None \<Rightarrow> c # replacer pairs s
      | Some (old, new) \<Rightarrow> new @ replacer pairs (drop (length old - 1) s))"
  by pat_completeness auto
termination
  by (relation "measure (\<lambda>(pairs, s). length s)") auto

text \<open>\<open>bytes.Contains\<close> and \<open>bytes.SplitAfter\<close>.\<close>

fun contains :: "string \<Rightarrow> string \<Rightarrow> bool" where
  "contains [] p = (p = [])"
| "contains (c # s) p = (has_prefix (c # s) p \<or> contains s p)"

fun split_after :: "char \<Rightarrow> string \<Rightarrow> string list" where
  "split_after d [] = [[]]"
| "split_after d (c # s) =
     (if c = d then [c] # split_after d s
      else (case split_after d s of [] \<Rightarrow> [[c]] | p # ps \<Rightarrow> (c # p) # ps))"

subsection \<open>The hooks\<close>

text \<open>The parsed configuration, as \<open>NestedStringSlice\<close> and \<open>NestedString\<close> look a path up in it.\<close>

record ObservedConfig =
  oc_slice :: "string list \<Rightarrow> string list option result"
  oc_string :: "string list \<Rightarrow> string option result"

record ManifestEnv = OperandEnv +
  me_unmarshal :: "string \<Rightarrow> ObservedConfig result"
  me_controller_yaml :: string
  me_node_yaml :: string
  me_read :: "string \<Rightarrow> Workload option" \<comment> \<open>the decoder behind \<open>ReadDeploymentV1OrDie\<close>\<close>

type_synonym manifest_hook = "OperatorSpec \<Rightarrow> string \<Rightarrow> string result"

definition hole :: "string \<Rightarrow> string" where
  "hole n = ''${'' @ n @ ''}''"

text \<open>A variable that is unset or empty adds no pair.\<close>

definition image_pair :: "(string \<rightharpoonup> string) \<Rightarrow> string \<Rightarrow> (string \<times> string) list" where
  "image_pair environ n =
     (case environ n of None \<Rightarrow> [] | Some v \<Rightarrow> if v \<noteq> [] then [(hole n, v)] else [])"

definition WithPlaceholdersHook :: "'e ManifestEnv_scheme \<Rightarrow> manifest_hook" where
  "WithPlaceholdersHook env spec manifest =
     rbind (oe_infras env InfraGlobalName) (\<lambda>infra.
       let images = concat (map (image_pair (oe_environ env))
             [''DRIVER_IMAGE'', ''PROVISIONER_IMAGE'', ''ATTACHER_IMAGE'', ''RESIZER_IMAGE'',
              ''SNAPSHOTTER_IMAGE'', ''LIVENESS_PROBE_IMAGE'', ''KUBE_RBAC_PROXY_IMAGE'', ''TOOLS_IMAGE'']);
           pairs = images @ [(hole ''CLUSTER_ID'', InfrastructureName infra),
             (hole ''LOG_LEVEL'', nat_to_dec (LogLevelToVerbosity (Spec_LogLevel spec)))]
       in Inr (replacer pairs manifest))"

definition CipherSuitesPath :: "string list" where
  "CipherSuitesPath = [''targetcsiconfig'', ''servingInfo'', ''cipherSuites'']"

definition MinTLSVersionPath :: "string list" where
  "MinTLSVersionPath = [''targetcsiconfig'', ''servingInfo'', ''minTLSVersion'']"

definition CurvePreferencesPath :: "string list" where
  "CurvePreferencesPath = [''targetcsiconfig'', ''servingInfo'', ''curvePreferences'']"

definition defaultMinTLSVersion :: string where
  "defaultMinTLSVersion = ''VersionTLS12''"

text \<open>\<open>tlsGroupToCurveID\<close>, with the numbers of \<open>crypto/tls\<close>.\<close>

definition TLSGroupToCurveID :: "string \<rightharpoonup> nat" where
  "TLSGroupToCurveID = map_of
     [(''X25519'', 29), (''secp256r1'', 23), (''secp384r1'', 24), (''secp521r1'', 25), (''X25519MLKEM768'', 4588),
      (''SecP256r1MLKEM768'', 4587), (''SecP384r1MLKEM1024'', 4589)]"

definition TLSGroupsToCurvePreferences :: "string list \<Rightarrow> nat list" where
  "TLSGroupsToCurvePreferences groups = List.map_filter TLSGroupToCurveID groups"

definition remove_argument :: "string \<Rightarrow> string \<Rightarrow> string" where
  "remove_argument argument manifest =
     concat (filter (\<lambda>line. trim_space line \<noteq> argument) (split_after CHR ''\<newline>'' manifest))"

definition removeCipherSuitesArgument :: "string \<Rightarrow> string" where
  "removeCipherSuitesArgument = remove_argument (''- --tls-cipher-suites='' @ hole ''TLS_CIPHER_SUITES'')"

definition removeCurvePreferencesArgument :: "string \<Rightarrow> string" where
  "removeCurvePreferencesArgument =
     remove_argument (''- --tls-curve-preferences='' @ hole ''TLS_CURVE_PREFERENCES'')"

definition WithServingInfo :: "'e ManifestEnv_scheme \<Rightarrow> manifest_hook" where
  "WithServingInfo env opSpec manifest =
     (if Spec_ObservedConfig opSpec = [] then Inr manifest
      else
        rbind (map_err (\<lambda>m. ''failed to unmarshal the observedConfig: '' @ m)
            (me_unmarshal env (Spec_ObservedConfig opSpec))) (\<lambda>config.
        rbind (map_err (\<lambda>m. ''couldn't get the servingInfo.cipherSuites config from observed config: '' @ m)
            (oc_slice config CipherSuitesPath)) (\<lambda>suites.
        if suites = None \<and> contains manifest (hole ''TLS_CIPHER_SUITES'')
        then Inl (Failure ''could not find the servingInfo.cipherSuites config from observed config'')
        else
        rbind (map_err (\<lambda>m. ''couldn't get the servingInfo.minTLSVersion config from observed config: '' @ m)
            (oc_string config MinTLSVersionPath)) (\<lambda>version.
        if version = None \<and> contains manifest (hole ''TLS_MIN_VERSION'')
        then Inl (Failure ''could not find the servingInfo.minTLSVersion config from observed config'')
        else
        let minTLSVersion = (case version of None \<Rightarrow> [] | Some v \<Rightarrow> if v = [] then defaultMinTLSVersion else v);
            cipherSuites = (case suites of None \<Rightarrow> [] | Some l \<Rightarrow> l)
        in
        rbind (if 0 < length cipherSuites
               then Inr ([(hole ''TLS_CIPHER_SUITES'', join '','' cipherSuites)], manifest)
               else if minTLSVersion = ''VersionTLS13'' then Inr ([], removeCipherSuitesArgument manifest)
               else Inl (Failure ''empty servingInfo.cipherSuites config is only supported with TLS 1.3''))
          (\<lambda>(pairs, manifest1).
        let pairs1 = pairs @ (if version \<noteq> None then [(hole ''TLS_MIN_VERSION'', minTLSVersion)] else [])
        in
        rbind (map_err (\<lambda>m. ''couldn't get the servingInfo.curvePreferences config from observed config: '' @ m)
            (oc_slice config CurvePreferencesPath)) (\<lambda>groups.
        let curvePreferences = TLSGroupsToCurvePreferences (case groups of None \<Rightarrow> [] | Some l \<Rightarrow> l)
        in Inr (if 0 < length curvePreferences
             then replacer (pairs1 @ [(hole ''TLS_CURVE_PREFERENCES'', join '','' (map nat_to_dec curvePreferences))])
                    manifest1
             else replacer pairs1 (removeCurvePreferencesArgument manifest1))))))))"

text \<open>\<open>LeaderElectionDefaulting\<close> of an empty configuration, in seconds.\<close>

definition WithLeaderElectionReplacerHook :: manifest_hook where
  "WithLeaderElectionReplacerHook spec manifest =
     Inr (replacer
       [(hole ''LEADER_ELECTION_LEASE_DURATION'', nat_to_dec 137 @ ''s''),
        (hole ''LEADER_ELECTION_RENEW_DEADLINE'', nat_to_dec 107 @ ''s''),
        (hole ''LEADER_ELECTION_RETRY_PERIOD'', nat_to_dec 26 @ ''s'')] manifest)"

definition replacePlaceholders :: "'e ManifestEnv_scheme \<Rightarrow> string \<Rightarrow> OperatorSpec \<Rightarrow> string" where
  "replacePlaceholders env manifest spec =
     replacer (concat (map (image_pair (oe_environ env))
         [''DRIVER_IMAGE'', ''NODE_DRIVER_REGISTRAR_IMAGE'', ''LIVENESS_PROBE_IMAGE'', ''KUBE_RBAC_PROXY_IMAGE''])
       @ [(hole ''LOG_LEVEL'', nat_to_dec (LogLevelToVerbosity (Spec_LogLevel spec)))]) manifest"

fun run_manifest_hooks :: "string \<Rightarrow> int \<Rightarrow> manifest_hook list \<Rightarrow> manifest_hook" where
  "run_manifest_hooks what i [] opSpec manifest = Inr manifest"
| "run_manifest_hooks what i (h # hs) opSpec manifest =
     rbind (map_err (\<lambda>m. ''error running '' @ what @ '' (index='' @ format_int i @ ''): '' @ m) (h opSpec manifest))
       (run_manifest_hooks what (i + 1) hs opSpec)"

definition deployment_manifest :: "'e ManifestEnv_scheme \<Rightarrow> OperatorSpec \<Rightarrow> string result" where
  "deployment_manifest env opSpec =
     run_manifest_hooks ''hook function'' 0
       [WithPlaceholdersHook env, WithServingInfo env, WithLeaderElectionReplacerHook] opSpec (me_controller_yaml env)"

definition daemonset_manifest :: "'e ManifestEnv_scheme \<Rightarrow> OperatorSpec \<Rightarrow> string result" where
  "daemonset_manifest env opSpec =
     run_manifest_hooks ''manifest hook'' 0 [WithServingInfo env] opSpec
       (replacePlaceholders env (me_node_yaml env) opSpec)"

text \<open>The whole of \<open>getDeployment\<close> and \<open>getDaemonSet\<close>: the decoder panics on a text it cannot read.\<close>

definition decode ::
  "'e ManifestEnv_scheme \<Rightarrow> string result \<Rightarrow> (Workload \<Rightarrow> Workload result) \<Rightarrow> Workload result outcome" where
  "decode env text hooks =
     (case text of
        Inl err \<Rightarrow> Returned (Inl err)
      | Inr manifest \<Rightarrow>
          (case me_read env manifest of
             None \<Rightarrow> Panicked ''cannot decode the manifest''
           | Some required \<Rightarrow> Returned (hooks required)))"

definition built_deployment :: "ManifestEnv \<Rightarrow> OperatorSpec \<Rightarrow> Workload result outcome" where
  "built_deployment env opSpec =
     decode env (deployment_manifest env opSpec) (run_hooks 0 (controller_hooks (OperandEnv.truncate env)) opSpec)"

definition built_daemonset :: "ManifestEnv \<Rightarrow> OperatorSpec \<Rightarrow> Workload result outcome" where
  "built_daemonset env opSpec =
     decode env (daemonset_manifest env opSpec) (run_hooks 0 (node_hooks (OperandEnv.truncate env)) opSpec)"

subsection \<open>One pass over the placeholders\<close>

text \<open>Literal text may hold a dollar sign, but not one that opens a placeholder or ends the text.\<close>

fun calm :: "string \<Rightarrow> bool" where
  "calm [] = True"
| "calm (c # s) = ((c = CHR ''$'' \<longrightarrow> s \<noteq> [] \<and> hd s \<noteq> CHR ''{'') \<and> calm s)"

fun sound_piece :: "piece \<Rightarrow> bool" where
  "sound_piece (Lit s) = calm s"
| "sound_piece (Hole n) = ok_piece (Hole n)"

lemma hole_text: "hole n = piece_text (Hole n)"
  by (simp add: hole_def)

lemma calm_no_dollar: "no_dollar s \<Longrightarrow> calm s"
  by (induction s) auto

lemma calm_append: "calm s \<Longrightarrow> calm t \<Longrightarrow> calm (s @ t)"
  by (induction s rule: calm.induct) auto

lemma hole_prefix_calm: "calm (c # s) \<Longrightarrow> \<not> has_prefix (c # s @ t) (piece_text (Hole n))"
  by (cases s) (auto simp: has_prefix_def)

lemma hole_prefix_hole:
  assumes "ok_piece (Hole m)" and "ok_piece (Hole n)"
  shows "has_prefix (piece_text (Hole m) @ t) (piece_text (Hole n)) \<longleftrightarrow> m = n"
  using assms braces_inj [of m n t] by (auto simp: has_prefix_iff)

lemma render_Cons: "render (p # ps) = piece_text p @ render ps"
  by (simp add: render_def)

lemma render_append: "render (ps @ qs) = render ps @ render qs"
  by (simp add: render_def)

lemma find_none_hole_pairs:
  "\<forall>n \<in> set (keys nvs). \<not> has_prefix s (piece_text (Hole n)) \<Longrightarrow>
   find (\<lambda>(old, new). has_prefix s old) (hole_pairs nvs) = None"
  by (auto simp: find_None_iff hole_pairs_def)

lemma replacer_calm:
  "calm s \<Longrightarrow> replacer (hole_pairs nvs) (s @ t) = s @ replacer (hole_pairs nvs) t"
proof (induction s)
  case (Cons c s)
  have "find (\<lambda>(old, new). has_prefix (c # s @ t) old) (hole_pairs nvs) = None"
    using hole_prefix_calm [OF Cons.prems] by (intro find_none_hole_pairs) simp
  with Cons show ?case by simp
qed simp

lemma find_hole_pairs:
  assumes "ok_piece (Hole n)"
  shows "\<forall>m \<in> set (keys nvs). ok_piece (Hole m) \<Longrightarrow>
     find (\<lambda>(old, new). has_prefix (piece_text (Hole n) @ t) old) (hole_pairs nvs) =
     map_option (\<lambda>v. (piece_text (Hole n), v)) (map_of nvs n)"
proof (induction nvs)
  case (Cons nv nvs)
  obtain m v where nv: "nv = (m, v)" by fastforce
  have IH: "find (\<lambda>(old, new). has_prefix (piece_text (Hole n) @ t) old) (hole_pairs nvs) =
     map_option (\<lambda>v. (piece_text (Hole n), v)) (map_of nvs n)"
    using Cons by simp
  have "hole_pairs (nv # nvs) = (piece_text (Hole m), v) # hole_pairs nvs"
    by (simp add: hole_pairs_def nv)
  moreover have "has_prefix (piece_text (Hole n) @ t) (piece_text (Hole m)) \<longleftrightarrow> n = m"
    using Cons.prems assms by (intro hole_prefix_hole) (simp_all add: nv)
  ultimately show ?case
    using IH by (auto simp: nv simp del: piece_text.simps)
qed (simp add: hole_pairs_def)

lemma replacer_hole:
  assumes "ok_piece (Hole n)" and "\<forall>m \<in> set (keys nvs). ok_piece (Hole m)"
  shows "replacer (hole_pairs nvs) (piece_text (Hole n) @ t) =
     (case map_of nvs n of None \<Rightarrow> piece_text (Hole n) | Some v \<Rightarrow> v) @ replacer (hole_pairs nvs) t"
proof -
  have eq: "piece_text (Hole n) @ t = CHR ''$'' # (CHR ''{'' # n @ ''}'') @ t" by simp
  note found = find_hole_pairs [OF assms, of t, unfolded eq]
  show ?thesis
  proof (cases "map_of nvs n")
    case None
    have "calm (CHR ''{'' # n @ ''}'')" using assms(1) by (intro calm_no_dollar) simp
    from replacer_calm [OF this, of nvs t] show ?thesis
      using found None by (subst eq) simp
  next
    case (Some v)
    have "drop (length (piece_text (Hole n)) - 1) ((CHR ''{'' # n @ ''}'') @ t) = t" by simp
    then show ?thesis
      using found Some by (subst eq, subst replacer.simps(2)) (simp del: piece_text.simps append_Cons)
  qed
qed

lemma replacer_render:
  assumes "\<forall>m \<in> set (keys nvs). ok_piece (Hole m)"
  shows "\<forall>p \<in> set ps. sound_piece p \<Longrightarrow>
     replacer (hole_pairs nvs) (render ps) = render (fill_all (map_of nvs) ps)"
proof (induction ps)
  case (Cons p ps)
  then have IH: "replacer (hole_pairs nvs) (render ps) = render (fill_all (map_of nvs) ps)" by simp
  show ?case
  proof (cases p)
    case (Lit s)
    then show ?thesis using Cons.prems IH replacer_calm [of s nvs "render ps"]
      by (simp add: render_Cons fill_all_def)
  next
    case (Hole n)
    then have "ok_piece (Hole n)" using Cons.prems by simp
    from replacer_hole [OF this assms, of "render ps"] show ?thesis
      by (cases "map_of nvs n") (simp_all add: Hole render_Cons IH fill_all_def del: piece_text.simps(2))
  qed
qed (simp add: render_def fill_all_def)

subsection \<open>Manifests as lines of pieces\<close>

type_synonym doc = "piece list list"

definition doc_text :: "doc \<Rightarrow> string" where
  "doc_text d = concat (map (\<lambda>l. render l @ nl) d)"

definition sound_line :: "piece list \<Rightarrow> bool" where
  "sound_line l \<longleftrightarrow> CHR ''\<newline>'' \<notin> set (render l) \<and> (\<forall>p \<in> set l. sound_piece p)"

definition one_line :: "string \<Rightarrow> bool" where
  "one_line v \<longleftrightarrow> calm v \<and> CHR ''\<newline>'' \<notin> set v"

definition placeholders :: "doc \<Rightarrow> string set" where
  "placeholders d = {n. \<exists>l \<in> set d. Hole n \<in> set l}"

lemma doc_text_render: "doc_text d = render (concat (map (\<lambda>l. l @ [Lit nl]) d))"
  by (induction d) (simp_all add: doc_text_def render_append render_Cons, simp add: render_def)

lemma fill_all_append: "fill_all m (ps @ qs) = fill_all m ps @ fill_all m qs"
  by (simp add: fill_all_def)

lemma fill_all_concat:
  "fill_all m (concat (map (\<lambda>l. l @ [Lit nl]) d)) = concat (map (\<lambda>l. l @ [Lit nl]) (map (fill_all m) d))"
  by (induction d) (simp_all add: fill_all_append, simp_all add: fill_all_def)

lemma replacer_doc:
  assumes "\<forall>m \<in> set (keys nvs). ok_piece (Hole m)" and "\<forall>l \<in> set d. sound_line l"
  shows "replacer (hole_pairs nvs) (doc_text d) = doc_text (map (fill_all (map_of nvs)) d)"
proof -
  have "\<forall>p \<in> set (concat (map (\<lambda>l. l @ [Lit nl]) d)). sound_piece p"
    using assms(2) by (auto simp: sound_line_def nl_def)
  from replacer_render [OF assms(1) this] show ?thesis
    by (simp add: doc_text_render fill_all_concat)
qed

lemma fill_all_Cons:
  "fill_all m [] = []" "fill_all m (Lit t # ps) = Lit t # fill_all m ps"
  "fill_all m (Hole n # ps) = (case m n of None \<Rightarrow> Hole n | Some v \<Rightarrow> Lit v) # fill_all m ps"
  by (simp_all add: fill_all_def)

lemma fill_all_twice: "fill_all m2 (fill_all m1 ps) = fill_all (m2 ++ m1) ps"
proof (induction ps)
  case (Cons p ps)
  then show ?case by (cases p) (simp_all add: fill_all_Cons map_add_def split: option.split)
qed (simp add: fill_all_Cons)

lemma fill_all_hole: "Hole n \<in> set (fill_all m l) \<longleftrightarrow> Hole n \<in> set l \<and> m n = None"
proof (induction l)
  case (Cons p ps)
  then show ?case by (cases p) (auto simp: fill_all_Cons split: option.split)
qed (simp add: fill_all_Cons)

lemma sound_line_Cons: "sound_line [] = True"
  "sound_line (p # ps) \<longleftrightarrow> CHR ''\<newline>'' \<notin> set (piece_text p) \<and> sound_piece p \<and> sound_line ps"
  by (auto simp: sound_line_def render_Cons) (simp add: render_def)

lemma sound_fill:
  assumes "\<forall>v \<in> ran m. one_line v"
  shows "sound_line l \<Longrightarrow> sound_line (fill_all m l)"
proof (induction l)
  case (Cons p ps)
  then show ?case using assms
    by (cases p) (auto simp: fill_all_Cons sound_line_Cons one_line_def ranI split: option.split)
qed (simp add: fill_all_Cons)

subsection \<open>Looking for a placeholder\<close>

lemma contains_iff: "contains s p \<longleftrightarrow> (\<exists>a b. s = a @ p @ b)"
proof (induction s)
  case (Cons c s)
  have "(\<exists>a b. c # s = a @ p @ b) \<longleftrightarrow> (\<exists>b. c # s = p @ b) \<or> (\<exists>a b. s = a @ p @ b)"
    by (metis append_Cons append_Nil list.exhaust_sel list.inject list.sel(1) list.sel(3))
  with Cons.IH show ?case by (simp add: has_prefix_iff)
qed simp

lemma contains_calm: "calm s \<Longrightarrow> contains (s @ t) (piece_text (Hole n)) \<longleftrightarrow> contains t (piece_text (Hole n))"
proof (induction s)
  case (Cons c s)
  with hole_prefix_calm [OF Cons.prems, of t n] show ?case by simp
qed simp

lemma contains_render:
  assumes "ok_piece (Hole n)"
  shows "\<forall>p \<in> set ps. sound_piece p \<Longrightarrow> contains (render ps) (piece_text (Hole n)) \<longleftrightarrow> Hole n \<in> set ps"
proof (induction ps)
  case (Cons p ps)
  then have IH: "contains (render ps) (piece_text (Hole n)) \<longleftrightarrow> Hole n \<in> set ps" by simp
  show ?case
  proof (cases p)
    case (Lit s)
    then show ?thesis using Cons.prems IH contains_calm [of s "render ps" n]
      by (simp add: render_Cons del: piece_text.simps(2))
  next
    case (Hole m)
    then have ok: "ok_piece (Hole m)" using Cons.prems by simp
    then have "calm (CHR ''{'' # m @ ''}'')" by (intro calm_no_dollar) simp
    from contains_calm [OF this, of "render ps" n] hole_prefix_hole [OF ok assms, of "render ps"] IH
    show ?thesis by (auto simp: Hole render_Cons)
  qed
qed (simp add: render_def)

lemma contains_doc:
  assumes "ok_piece (Hole n)" and "\<forall>l \<in> set d. sound_line l"
  shows "contains (doc_text d) (hole n) \<longleftrightarrow> n \<in> placeholders d"
proof -
  have "\<forall>p \<in> set (concat (map (\<lambda>l. l @ [Lit nl]) d)). sound_piece p"
    using assms(2) by (auto simp: sound_line_def nl_def)
  from contains_render [OF assms(1) this] show ?thesis
    unfolding doc_text_render hole_text placeholders_def by auto
qed

subsection \<open>Removing a line\<close>

lemma split_after_line:
  "d \<notin> set s \<Longrightarrow> split_after d (s @ d # t) = (s @ [d]) # split_after d t"
  by (induction s) auto

definition is_argument :: "string \<Rightarrow> string \<Rightarrow> piece list \<Rightarrow> bool" where
  "is_argument flag n l \<longleftrightarrow> trim_space (render l @ nl) = ''- --'' @ flag @ ''='' @ hole n"

lemma remove_argument_doc:
  "\<forall>l \<in> set d. sound_line l \<Longrightarrow>
   remove_argument (''- --'' @ flag @ ''='' @ hole n) (doc_text d) = doc_text (filter (\<lambda>l. \<not> is_argument flag n l) d)"
proof (induction d)
  case Nil
  show ?case by (simp add: remove_argument_def doc_text_def trim_space_def trim_def)
next
  case (Cons l d)
  have "split_after CHR ''\<newline>'' (doc_text (l # d)) =
      (render l @ nl) # split_after CHR ''\<newline>'' (doc_text d)"
    using Cons.prems split_after_line [of "CHR ''\<newline>''" "render l" "doc_text d"]
    by (simp add: doc_text_def sound_line_def nl_def)
  moreover have "doc_text (l # e) = (render l @ nl) @ doc_text e" for e
    by (simp add: doc_text_def)
  ultimately show ?case
    using Cons by (simp add: remove_argument_def is_argument_def)
qed

lemma trim_inside: "\<exists>a b. s = a @ trim s cs @ b"
proof -
  have drop: "\<exists>a. x = a @ dropWhile P x" for x :: string and P
    by (metis takeWhile_dropWhile_id)
  obtain a where a: "s = a @ dropWhile (\<lambda>c. c \<in> set cs) s" using drop by blast
  obtain b where "rev (dropWhile (\<lambda>c. c \<in> set cs) s) =
      b @ dropWhile (\<lambda>c. c \<in> set cs) (rev (dropWhile (\<lambda>c. c \<in> set cs) s))" using drop by blast
  then have "dropWhile (\<lambda>c. c \<in> set cs) s = trim s cs @ rev b"
    unfolding trim_def by (metis rev_append rev_rev_ident)
  with a show ?thesis by metis
qed

lemma argument_has_hole:
  assumes "is_argument flag n l" and "sound_line l" and "ok_piece (Hole n)"
  shows "Hole n \<in> set l"
proof -
  obtain a b where "render l @ nl = a @ trim_space (render l @ nl) @ b"
    using trim_inside unfolding trim_space_def by blast
  then have "render (l @ [Lit nl]) = (a @ ''- --'' @ flag @ ''='') @ piece_text (Hole n) @ b"
    using assms(1) by (simp add: is_argument_def hole_text render_append render_Cons del: piece_text.simps(2))
      (simp add: render_def)
  then have "contains (render (l @ [Lit nl])) (piece_text (Hole n))"
    unfolding contains_iff by blast
  moreover have "\<forall>p \<in> set (l @ [Lit nl]). sound_piece p"
    using assms(2) by (auto simp: sound_line_def nl_def)
  ultimately have "Hole n \<in> set (l @ [Lit nl])" using contains_render [OF assms(3)] by blast
  then show ?thesis by simp
qed

subsection \<open>What the passes insert\<close>

definition image_values :: "(string \<rightharpoonup> string) \<Rightarrow> string list \<Rightarrow> (string \<times> string) list" where
  "image_values environ ns =
     concat (map (\<lambda>n. case environ n of None \<Rightarrow> [] | Some v \<Rightarrow> if v \<noteq> [] then [(n, v)] else []) ns)"

definition controller_values :: "'e ManifestEnv_scheme \<Rightarrow> Infrastructure \<Rightarrow> OperatorSpec \<Rightarrow> (string \<times> string) list" where
  "controller_values env infra spec =
     image_values (oe_environ env)
       [''DRIVER_IMAGE'', ''PROVISIONER_IMAGE'', ''ATTACHER_IMAGE'', ''RESIZER_IMAGE'',
        ''SNAPSHOTTER_IMAGE'', ''LIVENESS_PROBE_IMAGE'', ''KUBE_RBAC_PROXY_IMAGE'', ''TOOLS_IMAGE'']
     @ [(''CLUSTER_ID'', InfrastructureName infra), (''LOG_LEVEL'', nat_to_dec (LogLevelToVerbosity (Spec_LogLevel spec)))]"

definition node_values :: "'e ManifestEnv_scheme \<Rightarrow> OperatorSpec \<Rightarrow> (string \<times> string) list" where
  "node_values env spec =
     image_values (oe_environ env)
       [''DRIVER_IMAGE'', ''NODE_DRIVER_REGISTRAR_IMAGE'', ''LIVENESS_PROBE_IMAGE'', ''KUBE_RBAC_PROXY_IMAGE'']
     @ [(''LOG_LEVEL'', nat_to_dec (LogLevelToVerbosity (Spec_LogLevel spec)))]"

definition leader_values :: "(string \<times> string) list" where
  "leader_values =
     [(''LEADER_ELECTION_LEASE_DURATION'', nat_to_dec 137 @ ''s''),
      (''LEADER_ELECTION_RENEW_DEADLINE'', nat_to_dec 107 @ ''s''),
      (''LEADER_ELECTION_RETRY_PERIOD'', nat_to_dec 26 @ ''s'')]"

abbreviation slice :: "string list option \<Rightarrow> string list" where
  "slice l \<equiv> (case l of None \<Rightarrow> [] | Some xs \<Rightarrow> xs)"

definition tls_values :: "string list option \<Rightarrow> string option \<Rightarrow> string list option \<Rightarrow> (string \<times> string) list" where
  "tls_values suites version groups =
     (if slice suites = [] then [] else [(''TLS_CIPHER_SUITES'', join '','' (slice suites))])
     @ (case version of None \<Rightarrow> []
        | Some v \<Rightarrow> [(''TLS_MIN_VERSION'', if v = [] then defaultMinTLSVersion else v)])
     @ (if TLSGroupsToCurvePreferences (slice groups) = [] then []
        else [(''TLS_CURVE_PREFERENCES'', join '','' (map nat_to_dec (TLSGroupsToCurvePreferences (slice groups))))])"

abbreviation suites_line :: "piece list \<Rightarrow> bool" where
  "suites_line \<equiv> is_argument ''tls-cipher-suites'' ''TLS_CIPHER_SUITES''"

abbreviation curves_line :: "piece list \<Rightarrow> bool" where
  "curves_line \<equiv> is_argument ''tls-curve-preferences'' ''TLS_CURVE_PREFERENCES''"

definition kept_lines :: "string list option \<Rightarrow> string list option \<Rightarrow> doc \<Rightarrow> doc" where
  "kept_lines suites groups d =
     filter (\<lambda>l. \<not> (slice suites = [] \<and> suites_line l)
       \<and> \<not> (TLSGroupsToCurvePreferences (slice groups) = [] \<and> curves_line l)) d"

text \<open>What the observed configuration says about serving, and whether a manifest can be served by it.\<close>

definition observed ::
  "'e ManifestEnv_scheme \<Rightarrow> OperatorSpec \<Rightarrow> string list option \<Rightarrow> string option \<Rightarrow> string list option \<Rightarrow> bool" where
  "observed env opSpec suites version groups \<longleftrightarrow>
     (\<exists>config. me_unmarshal env (Spec_ObservedConfig opSpec) = Inr config
        \<and> oc_slice config CipherSuitesPath = Inr suites \<and> oc_string config MinTLSVersionPath = Inr version
        \<and> oc_slice config CurvePreferencesPath = Inr groups)"

definition servable :: "doc \<Rightarrow> string list option \<Rightarrow> string option \<Rightarrow> bool" where
  "servable d suites version \<longleftrightarrow>
     (suites = None \<longrightarrow> ''TLS_CIPHER_SUITES'' \<notin> placeholders d)
     \<and> (version = None \<longrightarrow> ''TLS_MIN_VERSION'' \<notin> placeholders d)
     \<and> (slice suites \<noteq> [] \<or> version = Some ''VersionTLS13'')"

lemma hole_pairs_append: "hole_pairs (xs @ ys) = hole_pairs xs @ hole_pairs ys"
  by (simp add: hole_pairs_def)

lemma hole_pairs_Cons: "hole_pairs [] = []" "hole_pairs ((n, v) # xs) = (hole n, v) # hole_pairs xs"
  by (simp_all add: hole_pairs_def hole_def)

lemma hole_pairs_images: "hole_pairs (image_values environ ns) = concat (map (image_pair environ) ns)"
  by (induction ns)
    (auto simp: image_values_def hole_pairs_append hole_pairs_Cons image_pair_def split: option.split)

lemma image_values_keys: "set (keys (image_values environ ns)) \<subseteq> set ns"
  by (auto simp: image_values_def split: option.splits if_splits)

lemma tls_values_keys:
  "set (keys (tls_values suites version groups)) \<subseteq>
     {''TLS_CIPHER_SUITES'', ''TLS_MIN_VERSION'', ''TLS_CURVE_PREFERENCES''}"
  by (auto simp: tls_values_def split: option.splits)

lemma controller_values_keys:
  "set (keys (controller_values env infra spec)) \<subseteq>
     {''DRIVER_IMAGE'', ''PROVISIONER_IMAGE'', ''ATTACHER_IMAGE'', ''RESIZER_IMAGE'', ''SNAPSHOTTER_IMAGE'',
      ''LIVENESS_PROBE_IMAGE'', ''KUBE_RBAC_PROXY_IMAGE'', ''TOOLS_IMAGE'', ''CLUSTER_ID'', ''LOG_LEVEL''}"
  unfolding controller_values_def map_append set_append
  by (intro Un_least order.trans [OF image_values_keys]) auto

lemma node_values_keys:
  "set (keys (node_values env spec)) \<subseteq>
     {''DRIVER_IMAGE'', ''NODE_DRIVER_REGISTRAR_IMAGE'', ''LIVENESS_PROBE_IMAGE'', ''KUBE_RBAC_PROXY_IMAGE'', ''LOG_LEVEL''}"
  unfolding node_values_def map_append set_append
  by (intro Un_least order.trans [OF image_values_keys]) auto

lemma sound_names:
  "\<forall>m \<in> set (keys (tls_values suites version groups)). ok_piece (Hole m)"
  "\<forall>m \<in> set (keys (controller_values env infra spec)). ok_piece (Hole m)"
  "\<forall>m \<in> set (keys (node_values env spec)). ok_piece (Hole m)"
  "\<forall>m \<in> set (keys leader_values). ok_piece (Hole m)"
proof -
  show "\<forall>m \<in> set (keys (tls_values suites version groups)). ok_piece (Hole m)"
    using tls_values_keys [of suites version groups] by auto
  show "\<forall>m \<in> set (keys (controller_values env infra spec)). ok_piece (Hole m)"
    using controller_values_keys [of env infra spec] by (fastforce dest: subsetD)
  show "\<forall>m \<in> set (keys (node_values env spec)). ok_piece (Hole m)"
    using node_values_keys [of env spec] by (fastforce dest: subsetD)
qed (simp add: leader_values_def)

subsection \<open>Each pass on a document\<close>

lemma placeholders_hook:
  assumes "oe_infras env InfraGlobalName = Inr infra" and "\<forall>l \<in> set d. sound_line l"
  shows "WithPlaceholdersHook env spec (doc_text d) =
     Inr (doc_text (map (fill_all (map_of (controller_values env infra spec))) d))"
  using replacer_doc [OF sound_names(2) [of env infra spec] assms(2)] assms(1)
  by (simp add: WithPlaceholdersHook_def controller_values_def hole_pairs_append hole_pairs_images hole_pairs_Cons
      Let_def)

lemma replacePlaceholders_doc:
  assumes "\<forall>l \<in> set d. sound_line l"
  shows "replacePlaceholders env (doc_text d) spec = doc_text (map (fill_all (map_of (node_values env spec))) d)"
  using replacer_doc [OF sound_names(3) [of env spec] assms]
  by (simp add: replacePlaceholders_def node_values_def hole_pairs_append hole_pairs_images hole_pairs_Cons)

lemma leader_hook:
  assumes "\<forall>l \<in> set d. sound_line l"
  shows "WithLeaderElectionReplacerHook spec (doc_text d) = Inr (doc_text (map (fill_all (map_of leader_values)) d))"
  using replacer_doc [OF sound_names(4) assms]
  by (simp add: WithLeaderElectionReplacerHook_def leader_values_def hole_pairs_Cons)

lemma sound_kept: "\<forall>l \<in> set d. sound_line l \<Longrightarrow> \<forall>l \<in> set (kept_lines suites groups d). sound_line l"
  by (simp add: kept_lines_def)

lemma serving_hook:
  assumes "Spec_ObservedConfig opSpec \<noteq> []" and "observed env opSpec suites version groups"
    and "servable d suites version" and "\<forall>l \<in> set d. sound_line l"
  shows "WithServingInfo env opSpec (doc_text d) =
     Inr (doc_text (map (fill_all (map_of (tls_values suites version groups))) (kept_lines suites groups d)))"
proof -
  obtain config where config: "me_unmarshal env (Spec_ObservedConfig opSpec) = Inr config"
    "oc_slice config CipherSuitesPath = Inr suites" "oc_string config MinTLSVersionPath = Inr version"
    "oc_slice config CurvePreferencesPath = Inr groups"
    using assms(2) by (auto simp: observed_def)
  have names: "ok_piece (Hole ''TLS_CIPHER_SUITES'')" "ok_piece (Hole ''TLS_MIN_VERSION'')" by simp_all
  note found = contains_doc [OF names(1) assms(4)] contains_doc [OF names(2) assms(4)]
  have removal: "removeCipherSuitesArgument (doc_text e) = doc_text (filter (\<lambda>l. \<not> suites_line l) e)"
    "removeCurvePreferencesArgument (doc_text e) = doc_text (filter (\<lambda>l. \<not> curves_line l) e)"
    if "\<forall>l \<in> set e. sound_line l" for e
    using remove_argument_doc [OF that, of "''tls-cipher-suites''" "''TLS_CIPHER_SUITES''"]
      remove_argument_doc [OF that, of "''tls-curve-preferences''" "''TLS_CURVE_PREFERENCES''"]
    by (simp_all add: removeCipherSuitesArgument_def removeCurvePreferencesArgument_def)
  have cut: "(if slice suites = [] then removeCipherSuitesArgument (doc_text d) else doc_text d) =
      doc_text (filter (\<lambda>l. \<not> (slice suites = [] \<and> suites_line l)) d)" (is "?m = doc_text ?e")
    using removal(1) [OF assms(4)] by simp
  have "\<forall>l \<in> set ?e. sound_line l" using assms(4) by simp
  note cut2 = removal(2) [OF this, folded cut]
  have kept: "kept_lines suites groups d =
      (if TLSGroupsToCurvePreferences (slice groups) = [] then filter (\<lambda>l. \<not> curves_line l) ?e else ?e)"
    by (simp add: kept_lines_def conj_commute)
  have tls13: "version = Some ''VersionTLS13''" if "slice suites = []"
    using assms(3) that by (simp add: servable_def)
  have given: "\<not> (suites = None \<and> contains (doc_text d) (hole ''TLS_CIPHER_SUITES''))"
    "\<not> (version = None \<and> contains (doc_text d) (hole ''TLS_MIN_VERSION''))"
    using assms(3) by (auto simp: servable_def found)
  have "WithServingInfo env opSpec (doc_text d) =
      Inr (replacer (hole_pairs (tls_values suites version groups)) (doc_text (kept_lines suites groups d)))"
    using assms(1) given tls13 cut cut2 kept
    by (cases "slice suites = []"; cases "TLSGroupsToCurvePreferences (slice groups) = []"; cases version)
      (simp_all add: WithServingInfo_def config tls_values_def hole_pairs_append hole_pairs_Cons
        Let_def)
  also note replacer_doc [OF sound_names(1) sound_kept [OF assms(4)], of suites version groups suites groups]
  finally show ?thesis .
qed

lemma serving_hook_iff:
  assumes "\<forall>l \<in> set d. sound_line l"
  shows "(\<exists>t. WithServingInfo env opSpec (doc_text d) = Inr t) \<longleftrightarrow> Spec_ObservedConfig opSpec = []
     \<or> (\<exists>suites version groups. observed env opSpec suites version groups \<and> servable d suites version)"
proof (cases "Spec_ObservedConfig opSpec = []")
  case True
  then show ?thesis by (simp add: WithServingInfo_def)
next
  case False
  have found: "contains (doc_text d) (hole ''TLS_CIPHER_SUITES'') \<longleftrightarrow> ''TLS_CIPHER_SUITES'' \<in> placeholders d"
    "contains (doc_text d) (hole ''TLS_MIN_VERSION'') \<longleftrightarrow> ''TLS_MIN_VERSION'' \<in> placeholders d"
    using contains_doc [OF _ assms] by simp_all
  have "\<exists>suites version groups. observed env opSpec suites version groups \<and> servable d suites version"
    if "WithServingInfo env opSpec (doc_text d) = Inr t" for t
  proof -
    from that False obtain config suites version where c: "me_unmarshal env (Spec_ObservedConfig opSpec) = Inr config"
      "oc_slice config CipherSuitesPath = Inr suites" "oc_string config MinTLSVersionPath = Inr version"
      by (auto simp: WithServingInfo_def rbind_Inr split: if_splits)
    with that False obtain groups where g: "oc_slice config CurvePreferencesPath = Inr groups"
      by (auto simp: WithServingInfo_def rbind_Inr Let_def split: if_splits)
    have "servable d suites version"
      using that False
      by (cases version) (auto simp: WithServingInfo_def c g found servable_def defaultMinTLSVersion_def Let_def
          split: if_splits option.splits)
    then show ?thesis using c g by (auto simp: observed_def)
  qed
  then show ?thesis using False serving_hook [OF False _ _ assms] by blast
qed

subsection \<open>Three passes as one\<close>

text \<open>
  What holds of \<open>controller.yaml\<close> and \<open>node.yaml\<close>: a placeholder of an argument that may be removed
  stands alone on the line of this argument.
\<close>
definition well_formed :: "doc \<Rightarrow> bool" where
  "well_formed d \<longleftrightarrow> (\<forall>l \<in> set d. sound_line l
     \<and> (Hole ''TLS_CIPHER_SUITES'' \<in> set l \<longrightarrow> suites_line l \<and> (\<forall>n. Hole n \<in> set l \<longrightarrow> n = ''TLS_CIPHER_SUITES''))
     \<and> (Hole ''TLS_CURVE_PREFERENCES'' \<in> set l \<longrightarrow>
          curves_line l \<and> (\<forall>n. Hole n \<in> set l \<longrightarrow> n = ''TLS_CURVE_PREFERENCES'')))"

definition completed :: "(string \<times> string) list \<Rightarrow> string list option \<Rightarrow> string list option \<Rightarrow> doc \<Rightarrow> doc" where
  "completed vals suites groups d = map (fill_all (map_of vals)) (kept_lines suites groups d)"

abbreviation tls_names :: "string set" where
  "tls_names \<equiv> {''TLS_CIPHER_SUITES'', ''TLS_MIN_VERSION'', ''TLS_CURVE_PREFERENCES''}"

lemma fill_all_id: "\<forall>n. Hole n \<in> set l \<longrightarrow> m n = None \<Longrightarrow> fill_all m l = l"
proof (induction l)
  case (Cons p ps)
  then show ?case by (cases p) (auto simp: fill_all_Cons)
qed (simp add: fill_all_Cons)

lemma argument_fill:
  assumes "sound_line l" and "ok_piece (Hole n)" and "\<forall>v \<in> ran m. one_line v" and "m n = None"
    and "Hole n \<in> set l \<longrightarrow> (\<forall>k. Hole k \<in> set l \<longrightarrow> k = n)"
  shows "is_argument flag n (fill_all m l) \<longleftrightarrow> is_argument flag n l"
proof (cases "Hole n \<in> set l")
  case True
  then have "fill_all m l = l" using assms(4,5) by (intro fill_all_id) blast
  then show ?thesis by simp
next
  case False
  then have "Hole n \<notin> set (fill_all m l)" by (simp add: fill_all_hole)
  with False show ?thesis
    using argument_has_hole [OF _ assms(1,2)] argument_has_hole [OF _ sound_fill [OF assms(3,1)] assms(2)] by blast
qed

lemma kept_fill:
  assumes "well_formed d" and "\<forall>v \<in> ran m. one_line v"
    and "m ''TLS_CIPHER_SUITES'' = None" and "m ''TLS_CURVE_PREFERENCES'' = None"
  shows "kept_lines suites groups (map (fill_all m) d) = map (fill_all m) (kept_lines suites groups d)"
proof -
  have "suites_line (fill_all m l) \<longleftrightarrow> suites_line l" "curves_line (fill_all m l) \<longleftrightarrow> curves_line l"
    if "l \<in> set d" for l
    using that assms by (simp_all add: argument_fill well_formed_def)
  then show ?thesis by (simp add: kept_lines_def filter_map comp_def cong: filter_cong)
qed

lemma placeholders_fill: "placeholders (map (fill_all m) d) = placeholders d - dom m"
  by (auto simp: placeholders_def fill_all_hole)

lemma dom_map_of: "dom (map_of vals) = set (keys vals)"
  by (simp add: dom_map_of_conv_image_fst)

lemma placeholders_kept:
  assumes "well_formed d" and "n \<notin> {''TLS_CIPHER_SUITES'', ''TLS_CURVE_PREFERENCES''}"
  shows "n \<in> placeholders (kept_lines suites groups d) \<longleftrightarrow> n \<in> placeholders d"
proof -
  have "\<not> suites_line l \<and> \<not> curves_line l" if "l \<in> set d" "Hole n \<in> set l" for l
    using that assms argument_has_hole [of _ _ l] by (fastforce simp: well_formed_def)
  then show ?thesis by (auto simp: placeholders_def kept_lines_def)
qed

lemma placeholders_dropped:
  assumes "well_formed d"
  shows "slice suites = [] \<Longrightarrow> ''TLS_CIPHER_SUITES'' \<notin> placeholders (kept_lines suites groups d)"
    "TLSGroupsToCurvePreferences (slice groups) = [] \<Longrightarrow>
       ''TLS_CURVE_PREFERENCES'' \<notin> placeholders (kept_lines suites groups d)"
  using assms by (auto simp: placeholders_def kept_lines_def well_formed_def)

lemma placeholders_completed:
  assumes "well_formed d" and "servable d suites version"
    and "vals = before @ tls_values suites version groups @ after"
  shows "placeholders (completed vals suites groups d) =
     placeholders d - tls_names - set (keys before) - set (keys after)"
proof -
  let ?p = "placeholders (kept_lines suites groups d)"
  have "n \<in> placeholders (completed vals suites groups d) \<longleftrightarrow>
      n \<in> ?p \<and> n \<notin> set (keys before) \<and> n \<notin> set (keys after) \<and> n \<notin> set (keys (tls_values suites version groups))" for n
    by (auto simp: completed_def placeholders_fill dom_map_of assms(3))
  moreover have "n \<in> ?p \<and> n \<notin> set (keys (tls_values suites version groups)) \<longleftrightarrow> n \<in> placeholders d - tls_names" for n
  proof (cases "n \<in> tls_names")
    case True
    have "''TLS_CIPHER_SUITES'' \<in> ?p \<Longrightarrow> ''TLS_CIPHER_SUITES'' \<in> set (keys (tls_values suites version groups))"
      using placeholders_dropped(1) [OF assms(1), of suites groups] by (auto simp: tls_values_def)
    moreover have "''TLS_CURVE_PREFERENCES'' \<in> ?p \<Longrightarrow>
        ''TLS_CURVE_PREFERENCES'' \<in> set (keys (tls_values suites version groups))"
      using placeholders_dropped(2) [OF assms(1), of groups suites] by (auto simp: tls_values_def)
    moreover have "''TLS_MIN_VERSION'' \<in> ?p \<Longrightarrow> ''TLS_MIN_VERSION'' \<in> set (keys (tls_values suites version groups))"
      using placeholders_kept [OF assms(1), of "''TLS_MIN_VERSION''" suites groups] assms(2)
      by (cases version) (simp_all add: tls_values_def servable_def)
    ultimately have "n \<in> ?p \<Longrightarrow> n \<in> set (keys (tls_values suites version groups))"
      using True by blast
    with True show ?thesis by auto
  next
    case False
    then have "n \<notin> set (keys (tls_values suites version groups))"
      using tls_values_keys [of suites version groups] by blast
    with False placeholders_kept [OF assms(1), of n suites groups] show ?thesis by simp
  qed
  ultimately show ?thesis by blast
qed

lemma servable_fill:
  assumes "dom m \<inter> tls_names = {}"
  shows "servable (map (fill_all m) d) suites version \<longleftrightarrow> servable d suites version"
  using assms by (auto simp: servable_def placeholders_fill)

lemma fresh_values:
  "dom (map_of (controller_values env infra spec)) \<inter> tls_names = {}"
  "dom (map_of (node_values env spec)) \<inter> tls_names = {}"
  using controller_values_keys [of env infra spec] node_values_keys [of env spec]
  unfolding dom_map_of by fastforce+

lemma log_level_one_line: "one_line (nat_to_dec (LogLevelToVerbosity level))"
  by (cases level) (simp_all add: one_line_def digit_char_def nat_to_dec.simps [of 2] nat_to_dec.simps [of 4]
      nat_to_dec.simps [of 6] nat_to_dec.simps [of 8])

lemma ran_map_of: "\<forall>(n, v) \<in> set xs. P v \<Longrightarrow> \<forall>v \<in> ran (map_of xs). P v"
  by (auto simp: ran_def dest!: map_of_SomeD)

lemma image_values_one_line:
  assumes "\<forall>v \<in> ran environ. one_line v"
  shows "\<forall>(n, v) \<in> set (image_values environ ns). one_line v"
  using assms by (auto simp: image_values_def ranI split: option.splits if_splits)

lemma values_one_line:
  assumes "\<forall>v \<in> ran (oe_environ env). one_line v"
  shows "one_line (InfrastructureName infra) \<Longrightarrow> \<forall>v \<in> ran (map_of (controller_values env infra spec)). one_line v"
    and "\<forall>v \<in> ran (map_of (node_values env spec)). one_line v"
proof -
  show "one_line (InfrastructureName infra) \<Longrightarrow> \<forall>v \<in> ran (map_of (controller_values env infra spec)). one_line v"
    by (rule ran_map_of) (use image_values_one_line [OF assms] log_level_one_line in \<open>auto simp: controller_values_def\<close>)
  show "\<forall>v \<in> ran (map_of (node_values env spec)). one_line v"
    by (rule ran_map_of) (use image_values_one_line [OF assms] log_level_one_line in \<open>auto simp: node_values_def\<close>)
qed

lemma well_formed_sound: "well_formed d \<Longrightarrow> \<forall>l \<in> set d. sound_line l"
  by (simp add: well_formed_def)

text \<open>The passes before and after the serving hook, whatever they insert.\<close>

lemma serving_after_fill:
  assumes "Spec_ObservedConfig opSpec \<noteq> []" and "observed env opSpec suites version groups"
    and "servable d suites version" and "well_formed d"
    and "\<forall>v \<in> ran m. one_line v" and "dom m \<inter> tls_names = {}"
  shows "WithServingInfo env opSpec (doc_text (map (fill_all m) d)) =
     Inr (doc_text (map (fill_all (map_of (tls_values suites version groups) ++ m)) (kept_lines suites groups d)))"
proof -
  have "\<forall>l \<in> set (map (fill_all m) d). sound_line l"
    using sound_fill [OF assms(5)] well_formed_sound [OF assms(4)] by simp
  from serving_hook [OF assms(1,2) _ this] show ?thesis
    using assms(3,6) kept_fill [OF assms(4,5)]
    by (auto simp: servable_fill fill_all_twice comp_def)
qed

lemma map_of_completed: "map_of ys ++ map_of xs = map_of (xs @ ys)"
  by simp

lemma deployment_manifest_doc:
  assumes "oe_infras env InfraGlobalName = Inr infra" and "me_controller_yaml env = doc_text d"
    and "Spec_ObservedConfig opSpec \<noteq> []" and "observed env opSpec suites version groups"
    and "servable d suites version" and "well_formed d"
    and "\<forall>v \<in> ran (oe_environ env). one_line v" and "one_line (InfrastructureName infra)"
    and "\<forall>(n, v) \<in> set (tls_values suites version groups). one_line v"
  shows "deployment_manifest env opSpec = Inr (doc_text (completed
     (controller_values env infra opSpec @ tls_values suites version groups @ leader_values) suites groups d))"
proof -
  let ?c = "controller_values env infra opSpec" and ?t = "tls_values suites version groups"
  note lines = values_one_line(1) [OF assms(7,8), of opSpec]
  have "\<forall>v \<in> ran (map_of ?t ++ map_of ?c). one_line v"
    using lines ran_map_of [OF assms(9)] by (auto simp: ran_def map_add_Some_iff simp del: map_of_append)
  then have "\<forall>l \<in> set (map (fill_all (map_of ?t ++ map_of ?c)) (kept_lines suites groups d)). sound_line l"
    using sound_kept [OF well_formed_sound [OF assms(6)]] by (simp add: sound_fill)
  note leader = leader_hook [OF this, of opSpec]
  show ?thesis
    using placeholders_hook [OF assms(1) well_formed_sound [OF assms(6)]] leader
      serving_after_fill [OF assms(3-6) lines fresh_values(1)]
    by (simp add: deployment_manifest_def assms(2) completed_def fill_all_twice comp_def)
qed

lemma daemonset_manifest_doc:
  assumes "me_node_yaml env = doc_text d"
    and "Spec_ObservedConfig opSpec \<noteq> []" and "observed env opSpec suites version groups"
    and "servable d suites version" and "well_formed d" and "\<forall>v \<in> ran (oe_environ env). one_line v"
  shows "daemonset_manifest env opSpec = Inr (doc_text (completed
     (node_values env opSpec @ tls_values suites version groups) suites groups d))"
  using serving_after_fill [OF assms(2-5) values_one_line(2) [OF assms(6)] fresh_values(2)]
  by (simp add: daemonset_manifest_def assms(1) completed_def replacePlaceholders_doc [OF well_formed_sound [OF assms(5)]])

text \<open>
  C29: the operands' manifests are completed as documented. Once the observed configuration serves both
  manifests, the successive textual passes over \<open>controller.yaml\<close> and \<open>node.yaml\<close> amount to one
  substitution: every placeholder with a value gets it, the TLS arguments without a value go with their lines, nothing else
  changes, and what remains are the placeholders of images that are not configured and those that
  no pass knows. No value can smuggle in a placeholder that a later pass would replace, as long as values hold no
  \<open>${\<close> and no line break.
\<close>
theorem manifests_completed:
  assumes "oe_infras env InfraGlobalName = Inr infra" and "Spec_ObservedConfig opSpec \<noteq> []"
    and "observed env opSpec suites version groups"
    and "me_controller_yaml env = doc_text c" and "servable c suites version" and "well_formed c"
    and "me_node_yaml env = doc_text d" and "servable d suites version" and "well_formed d"
    and "\<forall>v \<in> ran (oe_environ env). one_line v" and "one_line (InfrastructureName infra)"
    and "\<forall>(n, v) \<in> set (tls_values suites version groups). one_line v"
    and "c' = completed (controller_values env infra opSpec @ tls_values suites version groups @ leader_values) suites groups c"
    and "d' = completed (node_values env opSpec @ tls_values suites version groups) suites groups d"
  shows "deployment_manifest env opSpec = Inr (doc_text c') \<and> daemonset_manifest env opSpec = Inr (doc_text d')
     \<and> placeholders c' = placeholders c - tls_names - set (keys (controller_values env infra opSpec)) - set (keys leader_values)
     \<and> placeholders d' = placeholders d - tls_names - set (keys (node_values env opSpec))"
  using deployment_manifest_doc [OF assms(1,4,2,3,5,6,10,11,12)] daemonset_manifest_doc [OF assms(7,2,3,8,9,10)]
    placeholders_completed [OF assms(6,5) refl] placeholders_completed [OF assms(9,8), of _ "node_values env opSpec" groups "[]"]
  by (simp add: assms(13,14))

abbreviation served :: "'e ManifestEnv_scheme \<Rightarrow> OperatorSpec \<Rightarrow> doc \<Rightarrow> bool" where
  "served env opSpec d \<equiv> Spec_ObservedConfig opSpec = []
     \<or> (\<exists>suites version groups. observed env opSpec suites version groups \<and> servable d suites version)"

abbreviation controller_filled :: "'e ManifestEnv_scheme \<Rightarrow> Infrastructure \<Rightarrow> OperatorSpec \<Rightarrow> doc \<Rightarrow> doc" where
  "controller_filled env infra opSpec c \<equiv> map (fill_all (map_of (controller_values env infra opSpec))) c"

lemma controller_filled_sound:
  assumes "well_formed c" and "\<forall>v \<in> ran (oe_environ env). one_line v" and "one_line (InfrastructureName infra)"
  shows "\<forall>l \<in> set (controller_filled env infra opSpec c). sound_line l"
  using sound_fill [OF values_one_line(1) [OF assms(2,3)]] well_formed_sound [OF assms(1)] by simp

lemma deployment_built:
  assumes "me_controller_yaml env = doc_text c" and "well_formed c" and "\<forall>v \<in> ran (oe_environ env). one_line v"
    and "\<forall>infra. oe_infras env InfraGlobalName = Inr infra \<longrightarrow> one_line (InfrastructureName infra)"
  shows "(\<exists>t. deployment_manifest env opSpec = Inr t) \<longleftrightarrow>
     (\<exists>infra. oe_infras env InfraGlobalName = Inr infra) \<and> served env opSpec c"
proof -
  have served: "(\<exists>t. WithServingInfo env opSpec (doc_text (controller_filled env infra opSpec c)) = Inr t) \<longleftrightarrow>
      served env opSpec c" if "oe_infras env InfraGlobalName = Inr infra" for infra
    using serving_hook_iff [OF controller_filled_sound [OF assms(2,3)]] assms(4) that
    by (simp add: servable_fill [OF fresh_values(1)])
  have ends: "WithLeaderElectionReplacerHook opSpec t = Inr x \<longleftrightarrow>
      x = replacer (hole_pairs leader_values) t" for t x
    by (auto simp: WithLeaderElectionReplacerHook_def leader_values_def hole_pairs_Cons)
  have steps: "(\<exists>t. deployment_manifest env opSpec = Inr t) \<longleftrightarrow>
      (\<exists>t. WithServingInfo env opSpec (doc_text (controller_filled env infra opSpec c)) = Inr t)"
    if "oe_infras env InfraGlobalName = Inr infra" for infra
    using placeholders_hook [OF that well_formed_sound [OF assms(2)]]
    by (auto simp: deployment_manifest_def assms(1) rbind_Inr ends)
  have "deployment_manifest env opSpec \<noteq> Inr t" if "\<forall>infra. oe_infras env InfraGlobalName \<noteq> Inr infra" for t
    using that by (auto simp: deployment_manifest_def WithPlaceholdersHook_def rbind_Inr)
  then show ?thesis using steps served by blast
qed

lemma daemonset_built:
  assumes "me_node_yaml env = doc_text d" and "well_formed d" and "\<forall>v \<in> ran (oe_environ env). one_line v"
  shows "(\<exists>t. daemonset_manifest env opSpec = Inr t) \<longleftrightarrow> served env opSpec d"
proof -
  have "\<forall>l \<in> set (map (fill_all (map_of (node_values env opSpec))) d). sound_line l"
    using sound_fill [OF values_one_line(2) [OF assms(3)]] well_formed_sound [OF assms(2)] by simp
  from serving_hook_iff [OF this, of env opSpec] show ?thesis
    by (simp add: daemonset_manifest_def assms(1) rbind_Inr servable_fill [OF fresh_values(2)]
        replacePlaceholders_doc [OF well_formed_sound [OF assms(2)]])
qed

text \<open>
  C30: when the manifests can be completed. The Deployment needs a readable Infrastructure object; both
  operands need either no observed configuration at all, or one that parses, has the TLS settings their manifest
  asks for, and lists cipher suites unless the version is TLS 1.3. The last point holds for the DaemonSet
  too, whose manifest has no TLS argument. With no observed configuration, which is the case until the configuration
  observer has run, the Deployment is built all the same, with its TLS placeholders left in place.
\<close>
theorem manifests_built_iff:
  assumes "me_controller_yaml env = doc_text c" and "well_formed c"
    and "me_node_yaml env = doc_text d" and "well_formed d"
    and "\<forall>v \<in> ran (oe_environ env). one_line v"
    and "\<forall>infra. oe_infras env InfraGlobalName = Inr infra \<longrightarrow> one_line (InfrastructureName infra)"
  shows "((\<exists>t. deployment_manifest env opSpec = Inr t) \<longleftrightarrow> (\<exists>infra. oe_infras env InfraGlobalName = Inr infra)
         \<and> (Spec_ObservedConfig opSpec = []
            \<or> (\<exists>suites version groups. observed env opSpec suites version groups \<and> servable c suites version)))
     \<and> ((\<exists>t. daemonset_manifest env opSpec = Inr t) \<longleftrightarrow> Spec_ObservedConfig opSpec = []
            \<or> (\<exists>suites version groups. observed env opSpec suites version groups \<and> servable d suites version))
     \<and> (Spec_ObservedConfig opSpec = [] \<longrightarrow> oe_infras env InfraGlobalName = Inr infra \<longrightarrow>
         (\<exists>c'. deployment_manifest env opSpec = Inr (doc_text c')
            \<and> placeholders c \<inter> tls_names = placeholders c' \<inter> tls_names))"
proof (intro conjI)
  show "(\<exists>t. deployment_manifest env opSpec = Inr t) \<longleftrightarrow>
      (\<exists>infra. oe_infras env InfraGlobalName = Inr infra) \<and> served env opSpec c"
    by (rule deployment_built [OF assms(1,2,5,6)])
  show "(\<exists>t. daemonset_manifest env opSpec = Inr t) \<longleftrightarrow> served env opSpec d"
    by (rule daemonset_built [OF assms(3-5)])
  show "Spec_ObservedConfig opSpec = [] \<longrightarrow> oe_infras env InfraGlobalName = Inr infra \<longrightarrow>
     (\<exists>c'. deployment_manifest env opSpec = Inr (doc_text c') \<and> placeholders c \<inter> tls_names = placeholders c' \<inter> tls_names)"
  proof (intro impI exI conjI)
    assume none: "Spec_ObservedConfig opSpec = []" and infra: "oe_infras env InfraGlobalName = Inr infra"
    show "deployment_manifest env opSpec = Inr (doc_text (map (fill_all (map_of leader_values)) (controller_filled env infra opSpec c)))"
      using placeholders_hook [OF infra well_formed_sound [OF assms(2)]] leader_hook [OF controller_filled_sound [OF assms(2,5)]] assms(6) infra
      by (simp add: deployment_manifest_def assms(1) WithServingInfo_def none)
    have "dom (map_of leader_values) \<inter> tls_names = {}" unfolding dom_map_of by (simp add: leader_values_def)
    then show "placeholders c \<inter> tls_names =
        placeholders (map (fill_all (map_of leader_values)) (controller_filled env infra opSpec c)) \<inter> tls_names"
      using fresh_values(1) [of env infra opSpec] by (auto simp: placeholders_fill simp del: map_map)
  qed
qed

subsection \<open>The decoded operands\<close>

text \<open>With a decoder that reads the completed text, the operands are those of \<open>Operand_Hooks\<close>.\<close>

definition operand_env :: "ManifestEnv \<Rightarrow> OperandEnv" where
  "operand_env env = (OperandEnv.truncate env)\<lparr>
     oe_deployment := (\<lambda>s. rbind (deployment_manifest env s) (\<lambda>t. Inr (the (me_read env t)))),
     oe_daemonSet := (\<lambda>s. rbind (daemonset_manifest env s) (\<lambda>t. Inr (the (me_read env t))))\<rparr>"

lemma operand_env_simps:
  "oe_infras (operand_env env) = oe_infras env" "oe_drivers (operand_env env) = oe_drivers env"
  "oe_secrets (operand_env env) = oe_secrets env" "oe_configMaps (operand_env env) = oe_configMaps env"
  "oe_environ (operand_env env) = oe_environ env" "oe_unmarshal (operand_env env) = oe_unmarshal env"
  "oe_sha256_hex (operand_env env) = oe_sha256_hex env" "oe_hash (operand_env env) = oe_hash env"
  "oe_gates (operand_env env) = oe_gates env"
  by (simp_all add: operand_env_def OperandEnv.truncate_def)

lemma truncate_simps:
  "oe_infras (OperandEnv.truncate env) = oe_infras env" "oe_drivers (OperandEnv.truncate env) = oe_drivers env"
  "oe_secrets (OperandEnv.truncate env) = oe_secrets env" "oe_configMaps (OperandEnv.truncate env) = oe_configMaps env"
  "oe_environ (OperandEnv.truncate env) = oe_environ env" "oe_unmarshal (OperandEnv.truncate env) = oe_unmarshal env"
  "oe_sha256_hex (OperandEnv.truncate env) = oe_sha256_hex env" "oe_hash (OperandEnv.truncate env) = oe_hash env"
  "oe_gates (OperandEnv.truncate env) = oe_gates env"
  by (simp_all add: OperandEnv.truncate_def)

lemma operand_env_hooks:
  "controller_hooks (operand_env env) = controller_hooks (OperandEnv.truncate env)"
  "node_hooks (operand_env env) = node_hooks (OperandEnv.truncate env)"
  by (simp_all add: operand_env_simps truncate_simps controller_hooks_def node_hooks_def
      WithControlPlaneTopologyHook_def WithObservedProxyHook_def WithCABundleHook_def
      WithSecretHashAnnotationHook_def WithReplicasHook_def fun_eq_iff split: sum.split)

lemma built_operands:
  "built_deployment env opSpec =
     (if \<exists>t. deployment_manifest env opSpec = Inr t \<and> me_read env t = None
      then Panicked ''cannot decode the manifest'' else Returned (getDeployment (operand_env env) opSpec))"
  "built_daemonset env opSpec =
     (if \<exists>t. daemonset_manifest env opSpec = Inr t \<and> me_read env t = None
      then Panicked ''cannot decode the manifest'' else Returned (getDaemonSet (operand_env env) opSpec))"
  unfolding built_deployment_def built_daemonset_def decode_def getDeployment_def getDaemonSet_def operand_env_hooks
  by (auto simp: operand_env_def split: sum.split option.split)

subsection \<open>Excerpts of the manifests\<close>

text \<open>Lines of \<open>controller.yaml\<close> (109 to 114, 131, 134, 139, 141, 366) and \<open>node.yaml\<close> (39, 101, 104).\<close>

definition controller_excerpt :: doc where
  "controller_excerpt =
     [[Lit ''          - --tls-private-key-file=/etc/tls/private/tls.key''],
      [Lit ''          - --tls-cipher-suites='', Hole ''TLS_CIPHER_SUITES''],
      [Lit ''          - --tls-min-version='', Hole ''TLS_MIN_VERSION''],
      [Lit ''          - --tls-curve-preferences='', Hole ''TLS_CURVE_PREFERENCES''],
      [Lit ''          - --logtostderr=true''],
      [Lit ''          image: '', Hole ''KUBE_RBAC_PROXY_IMAGE''],
      [Lit ''          image: '', Hole ''PROVISIONER_IMAGE''],
      [Lit ''            - --csi-address=$(ADDRESS)''],
      [Lit ''            - --v='', Hole ''LOG_LEVEL''],
      [Lit ''            - --leader-election-lease-duration='', Hole ''LEADER_ELECTION_LEASE_DURATION''],
      [Lit ''          image: '', Hole ''VMWARE_VSPHERE_SYNCER_IMAGE'']]"

definition node_excerpt :: doc where
  "node_excerpt =
     [[Lit ''          image: '', Hole ''DRIVER_IMAGE''],
      [Lit ''            - --csi-address=$(ADDRESS)''],
      [Lit ''            - --v='', Hole ''LOG_LEVEL'']]"

lemma excerpts_well_formed: "well_formed controller_excerpt" "well_formed node_excerpt"
  by (simp_all add: well_formed_def controller_excerpt_def node_excerpt_def sound_line_Cons is_argument_def hole_def
      render_def trim_space_def trim_def ascii_space_def nl_def)

lemma excerpts_placeholders:
  "placeholders controller_excerpt = {''TLS_CIPHER_SUITES'', ''TLS_MIN_VERSION'', ''TLS_CURVE_PREFERENCES'',
     ''KUBE_RBAC_PROXY_IMAGE'', ''PROVISIONER_IMAGE'', ''LOG_LEVEL'', ''LEADER_ELECTION_LEASE_DURATION'',
     ''VMWARE_VSPHERE_SYNCER_IMAGE''}"
  "placeholders node_excerpt = {''DRIVER_IMAGE'', ''LOG_LEVEL''}"
  by (auto simp: placeholders_def controller_excerpt_def node_excerpt_def)

text \<open>A cluster whose TLS profile is that of TLS 1.3, without cipher suites; no image of the provisioner is set.\<close>

definition manifest_env :: "ObservedConfig \<Rightarrow> ManifestEnv" where
  "manifest_env config = OperandEnv.extend
     ((example_operands ''text'')\<lparr>oe_environ :=
        [''KUBE_RBAC_PROXY_IMAGE'' \<mapsto> ''quay.io/proxy'', ''DRIVER_IMAGE'' \<mapsto> ''quay.io/driver'']\<rparr>)
     \<lparr>me_unmarshal = (\<lambda>s. Inr config), me_controller_yaml = doc_text controller_excerpt,
      me_node_yaml = doc_text node_excerpt, me_read = (\<lambda>t. Some example_manifest)\<rparr>"

definition tls13_config :: ObservedConfig where
  "tls13_config = \<lparr>oc_slice = (\<lambda>p. Inr (if p = CipherSuitesPath then Some [] else None)),
     oc_string = (\<lambda>p. Inr (Some ''VersionTLS13''))\<rparr>"

definition proxy_only_config :: ObservedConfig where
  "proxy_only_config = \<lparr>oc_slice = (\<lambda>p. Inr None), oc_string = (\<lambda>p. Inr None)\<rparr>"

lemma manifest_env_simps:
  "oe_infras (manifest_env config) n = Inr zones_infra"
  "oe_environ (manifest_env config) =
     [''KUBE_RBAC_PROXY_IMAGE'' \<mapsto> ''quay.io/proxy'', ''DRIVER_IMAGE'' \<mapsto> ''quay.io/driver'']"
  "me_unmarshal (manifest_env config) s = Inr config"
  "me_controller_yaml (manifest_env config) = doc_text controller_excerpt"
  "me_node_yaml (manifest_env config) = doc_text node_excerpt"
  by (simp_all add: manifest_env_def OperandEnv.extend_def example_operands_def)

lemma manifest_env_plain:
  "\<forall>v \<in> ran (oe_environ (manifest_env config)). one_line v" "one_line (InfrastructureName zones_infra)"
  by (auto simp: manifest_env_simps ran_def one_line_def zones_infra_def split: if_splits)

lemma example_config: "Spec_ObservedConfig example_operator_spec \<noteq> []"
  by (simp add: example_operator_spec_def)

lemma tls13_observed: "observed (manifest_env tls13_config) example_operator_spec (Some []) (Some ''VersionTLS13'') None"
  by (simp add: observed_def manifest_env_simps tls13_config_def CipherSuitesPath_def CurvePreferencesPath_def)

lemma tls13_servable: "servable d (Some []) (Some ''VersionTLS13'')"
  by (simp add: servable_def)

theorem manifests_completed_witness:
  "\<exists>c' d'. deployment_manifest (manifest_env tls13_config) example_operator_spec = Inr (doc_text c')
     \<and> daemonset_manifest (manifest_env tls13_config) example_operator_spec = Inr (doc_text d')
     \<and> placeholders c' = {''PROVISIONER_IMAGE'', ''VMWARE_VSPHERE_SYNCER_IMAGE''} \<and> placeholders d' = {}
     \<and> length c' = 9 \<and> c' ! 2 = [Lit ''          - --logtostderr=true'']"
proof -
  let ?c = "completed (controller_values (manifest_env tls13_config) zones_infra example_operator_spec
      @ tls_values (Some []) (Some ''VersionTLS13'') None @ leader_values) (Some []) None controller_excerpt"
  let ?d = "completed (node_values (manifest_env tls13_config) example_operator_spec
      @ tls_values (Some []) (Some ''VersionTLS13'') None) (Some []) None node_excerpt"
  have "\<forall>(n, v) \<in> set (tls_values (Some []) (Some ''VersionTLS13'') None). one_line v"
    by (simp add: tls_values_def TLSGroupsToCurvePreferences_def one_line_def List.map_filter_def)
  from manifests_completed [OF manifest_env_simps(1) example_config tls13_observed manifest_env_simps(4) tls13_servable
      excerpts_well_formed(1) manifest_env_simps(5) tls13_servable excerpts_well_formed(2) manifest_env_plain this
      refl [of ?c] refl [of ?d]]
  have "deployment_manifest (manifest_env tls13_config) example_operator_spec = Inr (doc_text ?c)"
    "daemonset_manifest (manifest_env tls13_config) example_operator_spec = Inr (doc_text ?d)"
    "placeholders ?c = {''PROVISIONER_IMAGE'', ''VMWARE_VSPHERE_SYNCER_IMAGE''}" "placeholders ?d = {}"
    by (auto simp: excerpts_placeholders controller_values_def node_values_def leader_values_def image_values_def
        manifest_env_simps)
  moreover have "length ?c = 9 \<and> ?c ! 2 = [Lit ''          - --logtostderr=true'']"
    by (simp add: completed_def kept_lines_def controller_excerpt_def is_argument_def hole_def render_def
        trim_space_def trim_def ascii_space_def nl_def TLSGroupsToCurvePreferences_def List.map_filter_def
        fill_all_Cons del: map_of_append)
  ultimately show ?thesis by blast
qed

theorem manifests_built_iff_witness:
  "(\<exists>t. deployment_manifest (manifest_env tls13_config) example_operator_spec = Inr t)
     \<and> \<not> (\<exists>t. daemonset_manifest (manifest_env proxy_only_config) example_operator_spec = Inr t)"
proof -
  have plain: "\<forall>infra. oe_infras (manifest_env config) InfraGlobalName = Inr infra \<longrightarrow>
      one_line (InfrastructureName infra)" for config
    using manifest_env_plain(2) by (simp add: manifest_env_simps)
  note built = manifests_built_iff [OF manifest_env_simps(4) excerpts_well_formed(1) manifest_env_simps(5)
      excerpts_well_formed(2) manifest_env_plain(1) plain, of _ example_operator_spec zones_infra]
  have "\<not> (\<exists>suites version groups. observed (manifest_env proxy_only_config) example_operator_spec suites version groups
      \<and> servable node_excerpt suites version)"
    by (auto simp: observed_def servable_def manifest_env_simps proxy_only_config_def)
  then have "\<not> (\<exists>t. daemonset_manifest (manifest_env proxy_only_config) example_operator_spec = Inr t)"
    using built [of proxy_only_config, THEN conjunct2, THEN conjunct1] example_config by simp
  moreover have "\<exists>t. deployment_manifest (manifest_env tls13_config) example_operator_spec = Inr t"
    by (rule built [of tls13_config, THEN conjunct1, THEN iffD2])
      (use tls13_observed tls13_servable manifest_env_simps(1) in blast)
  ultimately show ?thesis by blast
qed

end
