(* ===== verification/Test_Extension.thy ===== *)
theory Test_Extension
  imports Manifest_Hooks
begin

text \<open>
  \<open>openshift-tests/cmd/vmware-vsphere-csi-driver-operator-tests-ext/main.go\<close>: how the end-to-end tests are
  registered, the two suites and the rule that restricts a test to the platforms its name is tagged with. The
  specifications come from ginkgo and are a parameter; an environment selector is the text of its CEL expression,
  the qualifier of a suite what this expression means.
\<close>

subsection \<open>Specifications and suites\<close>

record ExtensionTestSpec =
  ts_Name :: string
  ts_Labels :: "string list"
  ts_Source :: string
  ts_Include :: string

record Suite =
  su_Name :: string
  su_Parents :: "string list"
  su_Qualifier :: "ExtensionTestSpec \<Rightarrow> bool"

record Extension =
  xt_Identifier :: string
  xt_Suites :: "Suite list"
  xt_Specs :: "ExtensionTestSpec list"

definition NewExtension :: "string \<Rightarrow> string \<Rightarrow> string \<Rightarrow> Extension" where
  "NewExtension product kind nm =
     \<lparr>xt_Identifier = product @ '':'' @ kind @ '':'' @ nm, xt_Suites = [], xt_Specs = []\<rparr>"

text \<open>\<open>AddSuite\<close> restricts every qualifier to the specifications of this extension.\<close>

definition AddSuite :: "Suite \<Rightarrow> Extension \<Rightarrow> Extension" where
  "AddSuite suite e = e\<lparr>xt_Suites := xt_Suites e @
     [suite\<lparr>su_Qualifier := (\<lambda>spec. ts_Source spec = xt_Identifier e \<and> su_Qualifier suite spec)\<rparr>]\<rparr>"

definition AddSpecs :: "ExtensionTestSpec list \<Rightarrow> Extension \<Rightarrow> Extension" where
  "AddSpecs specs e = e\<lparr>xt_Specs := xt_Specs e @ map (\<lambda>s. s\<lparr>ts_Source := xt_Identifier e\<rparr>) specs\<rparr>"

definition parallel_suite :: Suite where
  "parallel_suite =
     \<lparr>su_Name = ''vvcdo/conformance/parallel'', su_Parents = [''openshift/conformance/parallel''],
      su_Qualifier = (\<lambda>s. ''Serial'' \<notin> set (ts_Labels s) \<and> ''Conformance'' \<in> set (ts_Labels s))\<rparr>"

definition serial_suite :: Suite where
  "serial_suite =
     \<lparr>su_Name = ''vvcdo/conformance/serial'', su_Parents = [''openshift/conformance/serial''],
      su_Qualifier = (\<lambda>s. ''Serial'' \<in> set (ts_Labels s) \<and> ''Conformance'' \<in> set (ts_Labels s))\<rparr>"

subsection \<open>Platform tags\<close>

definition lowercase :: "char \<Rightarrow> bool" where
  "lowercase c \<longleftrightarrow> 97 \<le> (of_char c :: nat) \<and> (of_char c :: nat) \<le> 122"

text \<open>The first match of the regular expression \<open>\[platform:[a-z]*]\<close>; it has no groups.\<close>

definition platform_open :: string where
  "platform_open = ''[platform:''"

fun find_platform :: "string \<Rightarrow> string option" where
  "find_platform [] = None"
| "find_platform (c # s) =
     (let rest = drop (length platform_open) (c # s); letters = takeWhile lowercase rest
      in if has_prefix (c # s) platform_open \<and> has_prefix (drop (length letters) rest) '']''
         then Some (platform_open @ letters @ '']'') else find_platform s)"

definition PlatformEquals :: "string \<Rightarrow> string" where
  "PlatformEquals platform = ''platform=='' @ [CHR 0x22] @ platform @ [CHR 0x22]"

definition Include :: "string \<Rightarrow> ExtensionTestSpec \<Rightarrow> ExtensionTestSpec" where
  "Include cel spec = spec\<lparr>ts_Include :=
     (if ts_Include spec \<noteq> [] then ''('' @ ts_Include spec @ '') || ('' @ cel @ '')'' else cel)\<rparr>"

text \<open>\<open>platformDef[strings.Index(platformDef, ":")+1 : len(platformDef)-1]\<close>\<close>

definition platform_of :: "string \<Rightarrow> string" where
  "platform_of platformDef = butlast (tl (dropWhile (\<lambda>c. c \<noteq> CHR '':'') platformDef))"

definition add_rule :: "string \<Rightarrow> ExtensionTestSpec list \<Rightarrow> ExtensionTestSpec list" where
  "add_rule platformDef =
     map (\<lambda>s. if contains (ts_Name s) platformDef then Include (PlatformEquals (platform_of platformDef)) s else s)"

text \<open>The loop over the names that were selected before it; the selected specifications are pointers.\<close>

fun scan :: "string list \<Rightarrow> string list \<Rightarrow> ExtensionTestSpec list \<Rightarrow> string list \<times> ExtensionTestSpec list" where
  "scan [] found specs = (found, specs)"
| "scan (test # tests) found specs =
     (case find_platform test of
        None \<Rightarrow> scan tests found specs
      | Some platformDef \<Rightarrow>
          if platformDef \<in> set found then scan tests found specs
          else scan tests (found @ [platformDef]) (add_rule platformDef specs))"

definition register :: "ExtensionTestSpec list result \<Rightarrow> Extension outcome" where
  "register built =
     (let e = AddSuite serial_suite (AddSuite parallel_suite
            (NewExtension ''openshift'' ''payload'' ''vmware-vsphere-csi-driver-operator''))
      in case built of
           Inl err \<Rightarrow> Panicked (err_msg err)
         | Inr specs \<Rightarrow>
             (case scan (map ts_Name (filter (\<lambda>s. contains (ts_Name s) platform_open) specs)) [] specs of
                (found, specs') \<Rightarrow> Returned (AddSpecs specs' e)))"

subsection \<open>What is registered\<close>

text \<open>The tags found, in the order of their first test, and each test's rule from them.\<close>

fun tags :: "string list \<Rightarrow> string list \<Rightarrow> string list" where
  "tags [] found = found"
| "tags (test # tests) found =
     (case find_platform test of
        None \<Rightarrow> tags tests found
      | Some t \<Rightarrow> if t \<in> set found then tags tests found else tags tests (found @ [t]))"

definition with_rules :: "string list \<Rightarrow> ExtensionTestSpec \<Rightarrow> ExtensionTestSpec" where
  "with_rules ts s = fold (\<lambda>t. Include (PlatformEquals (platform_of t))) (filter (contains (ts_Name s)) ts) s"

lemma Include_name [simp]: "ts_Name (Include cel s) = ts_Name s"
  by (simp add: Include_def)

lemma with_rules_name [simp]: "ts_Name (with_rules ts s) = ts_Name s"
  unfolding with_rules_def by (rule fold_invariant [where P = "\<lambda>x. ts_Name x = ts_Name s" and Q = "\<lambda>_. True"]) simp_all

lemma with_rules_snoc:
  "with_rules (ts @ [t]) s =
     (if contains (ts_Name s) t then Include (PlatformEquals (platform_of t)) (with_rules ts s) else with_rules ts s)"
  by (simp add: with_rules_def)

lemma add_rule_with_rules: "add_rule t (map (with_rules ts) specs) = map (with_rules (ts @ [t])) specs"
  by (simp add: add_rule_def with_rules_snoc)

lemma scan_with_rules: "scan tests found (map (with_rules found) specs) = (tags tests found, map (with_rules (tags tests found)) specs)"
  by (induction tests arbitrary: found) (simp_all add: add_rule_with_rules split: option.split)

lemma tags_found: "set (tags tests found) = set found \<union> {t. \<exists>test \<in> set tests. find_platform test = Some t}"
  by (induction tests arbitrary: found) (auto split: option.split)

lemma find_platform_contains: "find_platform s = Some t \<Longrightarrow> contains s t \<and> has_prefix t platform_open"
proof (induction s)
  case (Cons c s)
  show ?case
  proof (cases "find_platform s = Some t")
    case False
    let ?rest = "drop (length platform_open) (c # s)"
    let ?letters = "takeWhile lowercase ?rest"
    from Cons.prems False have here: "has_prefix (c # s) platform_open"
      "has_prefix (drop (length ?letters) ?rest) '']''" "t = platform_open @ ?letters @ '']''"
      by (auto simp: Let_def simp del: drop_drop split: if_splits)
    have "c # s = platform_open @ ?rest" using here(1) by (metis append_take_drop_id has_prefix_def)
    moreover have "?rest = ?letters @ drop (length ?letters) ?rest"
      by (metis append_take_drop_id takeWhile_eq_take)
    moreover obtain u where "drop (length ?letters) ?rest = '']'' @ u"
      using here(2) by (auto simp: has_prefix_iff)
    ultimately have "c # s = t @ u" unfolding here(3) by (metis append.assoc)
    then have "contains (c # s) t" unfolding contains_iff by (metis append_Nil)
    then show ?thesis by (simp add: here(3))
  qed (use Cons.IH in simp)
qed simp

lemma contains_trans: "contains s t \<Longrightarrow> contains t u \<Longrightarrow> contains s u"
  unfolding contains_iff by (metis append.assoc)

lemma has_prefix_contains: "has_prefix t p \<Longrightarrow> contains t p"
  unfolding contains_iff has_prefix_iff by (metis append_Nil)

text \<open>
  Registering never fails on specifications ginkgo could build, keeps their order and names, puts every
  specification with the label \<open>Conformance\<close> into one of the two suites and into one only, and leaves a test
  without a restriction exactly if no tag that some test has as its first one occurs in its name. In particular
  every test with a well-formed tag is restricted.
\<close>
theorem registered_specs:
  assumes "register (Inr specs) = Returned e" and "\<forall>s \<in> set specs. ts_Include s = []"
  shows "map ts_Name (xt_Specs e) = map ts_Name specs
     \<and> (\<forall>s \<in> set (xt_Specs e). (ts_Include s = [] \<longleftrightarrow>
          (\<forall>x \<in> set specs. \<forall>t. find_platform (ts_Name x) = Some t \<longrightarrow> \<not> contains (ts_Name s) t))
        \<and> (\<exists>!u. u \<in> set (xt_Suites e) \<and> su_Qualifier u s) = (''Conformance'' \<in> set (ts_Labels s)))"
proof -
  let ?tests = "map ts_Name (filter (\<lambda>s. contains (ts_Name s) platform_open) specs)"
  let ?e0 = "AddSuite serial_suite (AddSuite parallel_suite
      (NewExtension ''openshift'' ''payload'' ''vmware-vsphere-csi-driver-operator''))"
  have start: "map (with_rules []) specs = specs" by (simp add: with_rules_def map_idI)
  have e: "e = AddSpecs (map (with_rules (tags ?tests [])) specs) ?e0"
    using assms(1) scan_with_rules [of ?tests "[]" specs] by (simp add: register_def start Let_def)
  have names: "map ts_Name (xt_Specs e) = map ts_Name specs"
    by (simp add: e AddSpecs_def AddSuite_def NewExtension_def)
  have found: "t \<in> set (tags ?tests []) \<longleftrightarrow> (\<exists>x \<in> set specs. find_platform (ts_Name x) = Some t)" for t
  proof -
    have "contains (ts_Name x) platform_open" if "find_platform (ts_Name x) = Some t" for x
      using find_platform_contains [OF that] contains_trans [OF _ has_prefix_contains] by blast
    then show ?thesis by (auto simp: tags_found)
  qed
  have empty: "ts_Include (fold (\<lambda>t. Include (PlatformEquals (platform_of t))) ts s) = [] \<longleftrightarrow> ts_Include s = [] \<and> ts = []" for ts s
    by (induction ts arbitrary: s) (auto simp: Include_def PlatformEquals_def)
  show ?thesis
  proof (intro conjI ballI names)
    fix s assume "s \<in> set (xt_Specs e)"
    then obtain x where x: "x \<in> set specs"
      "s = (with_rules (tags ?tests []) x)\<lparr>ts_Source := ''openshift:payload:vmware-vsphere-csi-driver-operator''\<rparr>"
      by (auto simp: e AddSpecs_def AddSuite_def NewExtension_def)
    then have "ts_Name s = ts_Name x" "ts_Include s = ts_Include (with_rules (tags ?tests []) x)" by simp_all
    then have "ts_Include s = [] \<longleftrightarrow> filter (contains (ts_Name s)) (tags ?tests []) = []"
      using assms(2) x(1) by (simp add: empty with_rules_def)
    then show "ts_Include s = [] \<longleftrightarrow>
        (\<forall>x \<in> set specs. \<forall>t. find_platform (ts_Name x) = Some t \<longrightarrow> \<not> contains (ts_Name s) t)"
      using found by (auto simp: filter_empty_conv)
    have two: "(\<exists>!u. u \<in> {p, q} \<and> Q u) = C" if "p \<noteq> q" "Q p = (\<not> S \<and> C)" "Q q = (S \<and> C)" for p q :: Suite and Q S C
      using that by auto
    let ?id = "\<lambda>u. u\<lparr>su_Qualifier := (\<lambda>s. ts_Source s = ''openshift:payload:vmware-vsphere-csi-driver-operator''
        \<and> su_Qualifier u s)\<rparr>"
    have suites: "set (xt_Suites e) = {?id parallel_suite, ?id serial_suite}"
      by (simp add: e AddSpecs_def AddSuite_def NewExtension_def)
    have "su_Name (?id parallel_suite) \<noteq> su_Name (?id serial_suite)" by (simp add: parallel_suite_def serial_suite_def)
    then have "?id parallel_suite \<noteq> ?id serial_suite" by metis
    then show "(\<exists>!u. u \<in> set (xt_Suites e) \<and> su_Qualifier u s) = (''Conformance'' \<in> set (ts_Labels s))"
      unfolding suites by (rule two [where S = "''Serial'' \<in> set (ts_Labels s)"])
        (simp_all add: x(2) parallel_suite_def serial_suite_def)
  qed
qed

text \<open>The two tests of the repository.\<close>

definition hybrid_prefix :: string where
  "hybrid_prefix = ''[sig-storage][OCPFeatureGate:VSphereMixedNodeEnv][platform:vsphere] vSphere Hybrid Environment''"

definition hybrid_specs :: "ExtensionTestSpec list" where
  "hybrid_specs =
     [\<lparr>ts_Name = hybrid_prefix @ '' should validate node labels'', ts_Labels = [''vSphere'', ''Conformance''],
       ts_Source = [], ts_Include = []\<rparr>,
      \<lparr>ts_Name = hybrid_prefix @ '' should degrade'', ts_Labels = [''vSphere'', ''Conformance'', ''Serial''],
       ts_Source = [], ts_Include = []\<rparr>]"

theorem registered_specs_witness:
  "\<exists>e. register (Inr hybrid_specs) = Returned e \<and> length (xt_Specs e) = 2 \<and> [] \<notin> ts_Include ` set (xt_Specs e)"
proof -
  have "\<exists>e. register (Inr hybrid_specs) = Returned e" by (simp add: register_def Let_def split: prod.split)
  then obtain e where e: "register (Inr hybrid_specs) = Returned e" ..
  have "\<forall>s \<in> set hybrid_specs. ts_Include s = []" by (simp add: hybrid_specs_def)
  note r = registered_specs [OF e this]
  have tag: "find_platform (hybrid_prefix @ s) = Some ''[platform:vsphere]''" for s
    by (simp add: hybrid_prefix_def platform_open_def has_prefix_def lowercase_def Let_def)
  have "contains (ts_Name s) ''[platform:vsphere]''" if "s \<in> set (xt_Specs e)" for s
  proof -
    have "ts_Name ` set (xt_Specs e) = ts_Name ` set hybrid_specs"
      using arg_cong [OF r [THEN conjunct1], of set] by simp
    then have "ts_Name s \<in> ts_Name ` set hybrid_specs" using that by blast
    then obtain t where "ts_Name s = hybrid_prefix @ t" by (auto simp: hybrid_specs_def)
    then show ?thesis using tag [of t] find_platform_contains by simp
  qed
  moreover have "\<exists>x \<in> set hybrid_specs. find_platform (ts_Name x) = Some ''[platform:vsphere]''"
    using tag by (simp add: hybrid_specs_def)
  ultimately have "ts_Include s \<noteq> []" if "s \<in> set (xt_Specs e)" for s
    using r [THEN conjunct2, rule_format, OF that, THEN conjunct1] that by meson
  then have "[] \<notin> ts_Include ` set (xt_Specs e)" by (metis imageE)
  moreover have "length (xt_Specs e) = 2"
    using arg_cong [OF r [THEN conjunct1], of length] by (simp add: hybrid_specs_def)
  ultimately show ?thesis using e by blast
qed

end
