(* ===== verification/Config_Observer.thy ===== *)
theory Config_Observer
  imports Complex_Main Manifest_Hooks Operand_Controllers
begin

text \<open>
  library-go's \<open>CSIConfigObserverController\<close>, which \<open>createCSIDriver\<close> starts with the feature gates: it
  writes the proxy and the TLS settings of the cluster into \<open>observedConfig\<close>, which the hooks of
  \<open>Operand_Hooks\<close> and \<open>Manifest_Hooks\<close> read. The parser and printer of JSON are parameters.
\<close>

subsection \<open>Unstructured objects\<close>

text \<open>What \<open>encoding/json\<close> decodes into an \<open>interface{}\<close>. A nil map behaves like an empty one.\<close>

datatype json =
    JNull
  | JBool bool
  | JNumber real \<comment> \<open>a float64; JSON has no NaN\<close>
  | JString string
  | JArray "json list"
  | JObject "string \<rightharpoonup> json"

type_synonym config = "string \<rightharpoonup> json"

text \<open>\<open>unstructured/helpers.go\<close>. The errors quote the value as well; here only its path.\<close>

definition accessor_error :: "string list \<Rightarrow> string \<Rightarrow> go_error" where
  "accessor_error path expected =
     Failure (''.'' @ join ''.'' path @ '' accessor error: expected '' @ expected)"

fun NestedField_from :: "string list \<Rightarrow> json \<Rightarrow> string list \<Rightarrow> json option result" where
  "NestedField_from seen val [] = Inr (Some val)"
| "NestedField_from seen JNull (field # below) = Inr None"
| "NestedField_from seen (JObject m) (field # below) =
     (case m field of None \<Rightarrow> Inr None | Some val \<Rightarrow> NestedField_from (seen @ [field]) val below)"
| "NestedField_from seen val (field # below) =
     Inl (accessor_error (seen @ [field]) ''map[string]interface{}'')"

definition NestedField :: "config \<Rightarrow> string list \<Rightarrow> json option result" where
  "NestedField obj path = NestedField_from [] (JObject obj) path"

definition NestedString :: "config \<Rightarrow> string list \<Rightarrow> string option result" where
  "NestedString obj path = rbind (NestedField obj path) (\<lambda>val.
     case val of
       None \<Rightarrow> Inr None
     | Some (JString s) \<Rightarrow> Inr (Some s)
     | Some _ \<Rightarrow> Inl (accessor_error path ''string''))"

fun string_items :: "json list \<Rightarrow> string list option" where
  "string_items [] = Some []"
| "string_items (JString s # vs) = map_option ((#) s) (string_items vs)"
| "string_items (v # vs) = None"

definition NestedStringSlice :: "config \<Rightarrow> string list \<Rightarrow> string list option result" where
  "NestedStringSlice obj path = rbind (NestedField obj path) (\<lambda>val.
     case val of
       None \<Rightarrow> Inr None
     | Some (JArray vs) \<Rightarrow>
         (case string_items vs of None \<Rightarrow> Inl (accessor_error path ''string'') | Some l \<Rightarrow> Inr (Some l))
     | Some _ \<Rightarrow> Inl (accessor_error path ''[]interface{}''))"

text \<open>Of a string map only the error matters here: the map is compared for an event.\<close>

definition NestedStringMap_error :: "config \<Rightarrow> string list \<Rightarrow> go_error option" where
  "NestedStringMap_error obj path =
     (case NestedField obj path of
        Inl err \<Rightarrow> Some err
      | Inr None \<Rightarrow> None
      | Inr (Some (JObject m)) \<Rightarrow>
          if ran m \<subseteq> range JString then None else Some (accessor_error path ''string'')
      | Inr (Some _) \<Rightarrow> Some (accessor_error path ''map[string]interface{}''))"

text \<open>On an error the object is as it was: what is missing is created only below a missing field.\<close>

fun SetNestedField :: "config \<Rightarrow> json \<Rightarrow> string list \<Rightarrow> config result" where
  "SetNestedField obj val [] = Inr obj"
| "SetNestedField obj val [field] = Inr (obj(field \<mapsto> val))"
| "SetNestedField obj val (field # below) =
     (case obj field of
        None \<Rightarrow> rbind (SetNestedField Map.empty val below) (\<lambda>m. Inr (obj(field \<mapsto> JObject m)))
      | Some (JObject m0) \<Rightarrow> rbind (SetNestedField m0 val below) (\<lambda>m. Inr (obj(field \<mapsto> JObject m)))
      | Some _ \<Rightarrow> Inl (Failure (''value cannot be set because .'' @ field @ '' is not a map[string]interface{}'')))"

text \<open>\<open>configobserver.Pruned\<close>\<close>

definition keep_path :: "config \<Rightarrow> string list \<Rightarrow> config \<Rightarrow> config" where
  "keep_path obj path ret =
     (case NestedField obj path of
        Inr (Some x) \<Rightarrow> (case SetNestedField ret x path of Inr ret' \<Rightarrow> ret' | Inl err \<Rightarrow> ret)
      | _ \<Rightarrow> ret)"

definition Pruned :: "config \<Rightarrow> string list list \<Rightarrow> config" where
  "Pruned obj pths = (if length pths = 0 then obj else fold (keep_path obj) pths Map.empty)"

subsection \<open>Merging\<close>

text \<open>
  \<open>mergo.Merge\<close> without options, on maps of JSON values. Only what is missing or empty is filled, a null
  of the source is skipped, and maps are merged. A map that is empty after its merge is replaced by the
  source's.
\<close>
definition fillable :: "json option \<Rightarrow> bool" where
  "fillable d \<longleftrightarrow> d \<in> {None, Some JNull, Some (JBool False), Some (JNumber 0), Some (JString []),
     Some (JArray []), Some (JObject Map.empty)}"

definition merge_map :: "(string \<rightharpoonup> (json option \<Rightarrow> json option)) \<Rightarrow> config \<Rightarrow> config" where
  "merge_map fills dst = (\<lambda>k. case fills k of None \<Rightarrow> dst k | Some f \<Rightarrow> f (dst k))"

primrec merge_value :: "json \<Rightarrow> json option \<Rightarrow> json option" where
  "merge_value JNull = (\<lambda>dst. dst)"
| "merge_value (JBool b) = (\<lambda>dst. if fillable dst then Some (JBool b) else dst)"
| "merge_value (JNumber x) = (\<lambda>dst. if fillable dst then Some (JNumber x) else dst)"
| "merge_value (JString s) = (\<lambda>dst. if fillable dst then Some (JString s) else dst)"
| "merge_value (JArray vs) = (\<lambda>dst. if fillable dst then Some (JArray vs) else dst)"
| "merge_value (JObject m) = (\<lambda>dst.
     case dst of
       Some (JObject d) \<Rightarrow>
         (let r = merge_map (map_option merge_value \<circ> m) d in Some (JObject (if r = Map.empty then m else r)))
     | _ \<Rightarrow> if fillable dst then Some (JObject m) else dst)"

definition Merge :: "config \<Rightarrow> config \<Rightarrow> config" where
  "Merge dst src = merge_map (map_option merge_value \<circ> src) dst"

text \<open>
  The nested maps of the first observation are shared with the result of the first merge, so the second one
  writes into them: this is what the observation has become when it is merged in the reverse order.
\<close>
definition shared :: "config \<Rightarrow> config \<Rightarrow> config" where
  "shared a b = (\<lambda>k. case (a k, b k) of
     (Some (JObject m), Some (JObject n)) \<Rightarrow> Some (JObject (Merge m n))
   | (x, y) \<Rightarrow> x)"

subsection \<open>The proxy\<close>

record Proxy =
  px_NoProxy :: string
  px_HTTPProxy :: string
  px_HTTPSProxy :: string

definition proxyToMap :: "Proxy \<Rightarrow> (string \<rightharpoonup> string) option" where
  "proxyToMap proxy =
     (let proxyMap = (if px_NoProxy proxy = [] then Map.empty else [''NO_PROXY'' \<mapsto> px_NoProxy proxy])
        ++ (if px_HTTPProxy proxy = [] then Map.empty else [''HTTP_PROXY'' \<mapsto> px_HTTPProxy proxy])
        ++ (if px_HTTPSProxy proxy = [] then Map.empty else [''HTTPS_PROXY'' \<mapsto> px_HTTPSProxy proxy])
      in if px_NoProxy proxy = [] \<and> px_HTTPProxy proxy = [] \<and> px_HTTPSProxy proxy = [] then None
         else Some proxyMap)"

definition string_map :: "(string \<rightharpoonup> string) \<Rightarrow> json" where
  "string_map m = JObject (map_option JString \<circ> m)"

text \<open>An observation and its errors. Each deferred \<open>Pruned\<close> sees what the function returns.\<close>

definition ObserveProxyConfig :: "Proxy result \<Rightarrow> config \<Rightarrow> config \<times> go_error list" where
  "ObserveProxyConfig proxyConfig existingConfig =
     (case proxyConfig of
        Inl err \<Rightarrow>
          if is_not_found err then (Pruned Map.empty [ProxyConfigPath], [])
          else (Pruned existingConfig [ProxyConfigPath], [err])
      | Inr proxy \<Rightarrow>
          (case (case proxyToMap proxy of
                   None \<Rightarrow> Inr Map.empty
                 | Some m \<Rightarrow> SetNestedField Map.empty (string_map m) ProxyConfigPath) of
             Inl err \<Rightarrow> (Pruned existingConfig [ProxyConfigPath], [err])
           | Inr observedConfig \<Rightarrow>
               (Pruned observedConfig [ProxyConfigPath],
                (case NestedStringMap_error existingConfig ProxyConfigPath of None \<Rightarrow> [] | Some err \<Rightarrow> [err]))))"

subsection \<open>The TLS profile\<close>

record TLSProfileSpec =
  tp_Ciphers :: "string list"
  tp_Groups :: "string list"
  tp_MinTLSVersion :: string

record TLSSecurityProfile =
  pr_Type :: string
  pr_Custom :: "TLSProfileSpec option"

text \<open>\<open>openSSLToIANACiphers\<close>: the names that differ; the three suites of TLS 1.3 keep theirs.\<close>

definition openSSLToIANACiphers :: "string \<rightharpoonup> string" where
  "openSSLToIANACiphers = map_of
     [(''TLS_AES_128_GCM_SHA256'', ''TLS_AES_128_GCM_SHA256''),
      (''TLS_AES_256_GCM_SHA384'', ''TLS_AES_256_GCM_SHA384''),
      (''TLS_CHACHA20_POLY1305_SHA256'', ''TLS_CHACHA20_POLY1305_SHA256''),
      (''ECDHE-ECDSA-AES128-GCM-SHA256'', ''TLS_ECDHE_ECDSA_WITH_AES_128_GCM_SHA256''),
      (''ECDHE-RSA-AES128-GCM-SHA256'', ''TLS_ECDHE_RSA_WITH_AES_128_GCM_SHA256''),
      (''ECDHE-ECDSA-AES256-GCM-SHA384'', ''TLS_ECDHE_ECDSA_WITH_AES_256_GCM_SHA384''),
      (''ECDHE-RSA-AES256-GCM-SHA384'', ''TLS_ECDHE_RSA_WITH_AES_256_GCM_SHA384''),
      (''ECDHE-ECDSA-CHACHA20-POLY1305'', ''TLS_ECDHE_ECDSA_WITH_CHACHA20_POLY1305_SHA256''),
      (''ECDHE-RSA-CHACHA20-POLY1305'', ''TLS_ECDHE_RSA_WITH_CHACHA20_POLY1305_SHA256''),
      (''ECDHE-ECDSA-AES128-SHA256'', ''TLS_ECDHE_ECDSA_WITH_AES_128_CBC_SHA256''),
      (''ECDHE-RSA-AES128-SHA256'', ''TLS_ECDHE_RSA_WITH_AES_128_CBC_SHA256''),
      (''AES128-GCM-SHA256'', ''TLS_RSA_WITH_AES_128_GCM_SHA256''),
      (''AES256-GCM-SHA384'', ''TLS_RSA_WITH_AES_256_GCM_SHA384''),
      (''AES128-SHA256'', ''TLS_RSA_WITH_AES_128_CBC_SHA256''),
      (''ECDHE-ECDSA-AES128-SHA'', ''TLS_ECDHE_ECDSA_WITH_AES_128_CBC_SHA''),
      (''ECDHE-RSA-AES128-SHA'', ''TLS_ECDHE_RSA_WITH_AES_128_CBC_SHA''),
      (''ECDHE-ECDSA-AES256-SHA'', ''TLS_ECDHE_ECDSA_WITH_AES_256_CBC_SHA''),
      (''ECDHE-RSA-AES256-SHA'', ''TLS_ECDHE_RSA_WITH_AES_256_CBC_SHA''),
      (''AES128-SHA'', ''TLS_RSA_WITH_AES_128_CBC_SHA''),
      (''AES256-SHA'', ''TLS_RSA_WITH_AES_256_CBC_SHA''),
      (''DES-CBC3-SHA'', ''TLS_RSA_WITH_3DES_EDE_CBC_SHA''),
      (''ECDHE-RSA-DES-CBC3-SHA'', ''TLS_ECDHE_RSA_WITH_3DES_EDE_CBC_SHA'')]"

definition OpenSSLToIANACipherSuites :: "string list \<Rightarrow> string list" where
  "OpenSSLToIANACipherSuites ciphers = List.map_filter openSSLToIANACiphers ciphers"

definition profile_groups :: "string list" where
  "profile_groups = [''X25519MLKEM768'', ''X25519'', ''secp256r1'', ''secp384r1'']"

definition tls13_ciphers :: "string list" where
  "tls13_ciphers = [''TLS_AES_128_GCM_SHA256'', ''TLS_AES_256_GCM_SHA384'', ''TLS_CHACHA20_POLY1305_SHA256'']"

definition intermediate_ciphers :: "string list" where
  "intermediate_ciphers = tls13_ciphers @
     [''ECDHE-ECDSA-AES128-GCM-SHA256'', ''ECDHE-RSA-AES128-GCM-SHA256'', ''ECDHE-ECDSA-AES256-GCM-SHA384'',
      ''ECDHE-RSA-AES256-GCM-SHA384'', ''ECDHE-ECDSA-CHACHA20-POLY1305'', ''ECDHE-RSA-CHACHA20-POLY1305'']"

definition old_ciphers :: "string list" where
  "old_ciphers = intermediate_ciphers @
     [''ECDHE-ECDSA-AES128-SHA256'', ''ECDHE-RSA-AES128-SHA256'', ''ECDHE-ECDSA-AES128-SHA'', ''ECDHE-RSA-AES128-SHA'',
      ''ECDHE-ECDSA-AES256-SHA384'', ''ECDHE-RSA-AES256-SHA384'', ''ECDHE-ECDSA-AES256-SHA'', ''ECDHE-RSA-AES256-SHA'',
      ''AES128-GCM-SHA256'', ''AES256-GCM-SHA384'', ''AES128-SHA256'', ''AES256-SHA256'', ''AES128-SHA'',
      ''AES256-SHA'', ''DES-CBC3-SHA'']"

definition TLSProfiles :: "string \<rightharpoonup> TLSProfileSpec" where
  "TLSProfiles = map_of
     [(''Old'', \<lparr>tp_Ciphers = old_ciphers, tp_Groups = profile_groups, tp_MinTLSVersion = ''VersionTLS10''\<rparr>),
      (''Intermediate'', \<lparr>tp_Ciphers = intermediate_ciphers, tp_Groups = profile_groups, tp_MinTLSVersion = ''VersionTLS12''\<rparr>),
      (''Modern'', \<lparr>tp_Ciphers = tls13_ciphers, tp_Groups = profile_groups, tp_MinTLSVersion = ''VersionTLS13''\<rparr>)]"

definition resolveProfileSpec :: "TLSSecurityProfile option \<Rightarrow> TLSProfileSpec" where
  "resolveProfileSpec profile =
     (let profileType = (case profile of None \<Rightarrow> ''Intermediate'' | Some p \<Rightarrow> pr_Type p);
          profileSpec = (if profileType = ''Custom'' then (case profile of None \<Rightarrow> None | Some p \<Rightarrow> pr_Custom p)
                         else TLSProfiles profileType)
      in case profileSpec of None \<Rightarrow> the (TLSProfiles ''Intermediate'') | Some spec \<Rightarrow> spec)"

definition fipsApprovedTLSGroups :: "string list \<Rightarrow> string list" where
  "fipsApprovedTLSGroups groups = filter (\<lambda>g. g \<in> {''secp256r1'', ''secp384r1'', ''secp521r1''}) groups"

definition getSecurityProfileGroups :: "bool \<Rightarrow> TLSProfileSpec \<Rightarrow> string list" where
  "getSecurityProfileGroups isFIPSEnabled profileSpec =
     (if isFIPSEnabled then fipsApprovedTLSGroups (tp_Groups profileSpec) else tp_Groups profileSpec)"

definition error_of :: "'a result \<Rightarrow> string \<Rightarrow> go_error list" where
  "error_of r what = (case r of Inl err \<Rightarrow> [Failure (what @ err_msg err)] | Inr v \<Rightarrow> [])"

text \<open>
  \<open>innerTLSSecurityProfileObservations\<close>; \<open>groupsPath\<close> is empty when the curves are not observed. What the
  lister holds is the profile of the APIServer object.
\<close>
definition innerTLSSecurityProfileObservations ::
  "bool \<Rightarrow> TLSSecurityProfile option result \<Rightarrow> config \<Rightarrow> string list \<Rightarrow> string list \<Rightarrow> string list
     \<Rightarrow> config \<times> go_error list" where
  "innerTLSSecurityProfileObservations fips apiServer existingConfig minTLSVersionPath cipherSuitesPath groupsPath =
     (let paths = [minTLSVersionPath, cipherSuitesPath] @ (if 0 < length groupsPath then [groupsPath] else []);
          errs = error_of (NestedString existingConfig minTLSVersionPath)
                   ''failed to retrieve spec.servingInfo.minTLSVersion: ''
               @ error_of (NestedStringSlice existingConfig cipherSuitesPath)
                   ''failed to retrieve spec.servingInfo.cipherSuites: ''
               @ (if 0 < length groupsPath
                  then error_of (NestedStringSlice existingConfig groupsPath) ''failed to retrieve groups: '' else []);
          observe = (\<lambda>profile.
            let profileSpec = resolveProfileSpec profile in
            rbind (SetNestedField Map.empty (JString (tp_MinTLSVersion profileSpec)) minTLSVersionPath) (\<lambda>c1.
            rbind (SetNestedField c1
                (JArray (map JString (OpenSSLToIANACipherSuites (tp_Ciphers profileSpec)))) cipherSuitesPath) (\<lambda>c2.
              if 0 < length groupsPath
              then SetNestedField c2 (JArray (map JString (getSecurityProfileGroups fips profileSpec))) groupsPath
              else Inr c2)))
      in case (case apiServer of
                 Inl err \<Rightarrow> if is_not_found err then observe None else Inl err
               | Inr profile \<Rightarrow> observe profile) of
           Inl err \<Rightarrow> (Pruned existingConfig paths, errs @ [err])
         | Inr observedConfig \<Rightarrow> (Pruned observedConfig paths, errs))"

text \<open>
  The gates that are on and those that are off; asking for another one panics. \<open>ob_attempts\<close> is what each
  attempt of the update reads and how the API server answers it.
\<close>
record ObserverEnv =
  ob_decode :: "string \<Rightarrow> json option"
  ob_encode :: "config \<Rightarrow> string"
  ob_state :: "OperatorSpec result"
  ob_proxy :: "Proxy result"
  ob_apiServer :: "TLSSecurityProfile option result"
  ob_initial :: bool \<comment> \<open>\<open>AreInitialFeatureGatesObserved\<close>\<close>
  ob_gates :: "(string list \<times> string list) result"
  ob_fips :: bool
  ob_proxy_first :: bool \<comment> \<open>\<open>rand.Perm\<close> of the two observers\<close>
  ob_attempts :: "nat \<Rightarrow> OperatorSpec result \<times> api_answer"
  ob_applyStatus :: "go_error option"

fun Enabled :: "string list \<times> string list \<Rightarrow> string \<Rightarrow> bool outcome" where
  "Enabled (enabled, disabled) key =
     (if key \<in> set enabled then Returned True
      else if key \<in> set disabled then Returned False
      else Panicked (''feature '' @ quote key @ '' is not registered in FeatureGates''))"

definition observeTLSSecurityProfile :: "ObserverEnv \<Rightarrow> config \<Rightarrow> (config \<times> go_error list) outcome" where
  "observeTLSSecurityProfile env existingConfig =
     (let kept = Pruned existingConfig [MinTLSVersionPath, CipherSuitesPath, CurvePreferencesPath] in
      if \<not> ob_initial env
      then Returned (kept, [Failure ''cannot observe TLS curvePreferences: initial feature gates not observed yet''])
      else case ob_gates env of
             Inl err \<Rightarrow> Returned (kept, [Failure (''cannot observe TLS curvePreferences: '' @ err_msg err)])
           | Inr gates \<Rightarrow>
               obind (Enabled gates ''TLSGroupPreferences'') (\<lambda>on.
                 Returned (innerTLSSecurityProfileObservations (ob_fips env) (ob_apiServer env) existingConfig
                   MinTLSVersionPath CipherSuitesPath (if on then CurvePreferencesPath else []))))"

subsection \<open>The controller\<close>

text \<open>
  \<open>v1helpers.UpdateSpec\<close> with \<open>UpdateObservedConfigFn\<close>. The new spec holds an object where the old one holds
  bytes, so the two never compare as equal.
\<close>
fun UpdateSpec_loop ::
  "nat \<Rightarrow> nat \<Rightarrow> string \<Rightarrow> (nat \<Rightarrow> OperatorSpec result \<times> api_answer) \<Rightarrow> go_error option
     \<Rightarrow> go_error option \<times> OperatorSpec option" where
  "UpdateSpec_loop 0 k config att lastErr =
     (case lastErr of
        Some e \<Rightarrow> (Some e, None)
      | None \<Rightarrow> (Some (Failure ''timed out waiting for the condition''), None))"
| "UpdateSpec_loop (Suc steps) k config att lastErr =
     (case fst (att k) of
        Inl err \<Rightarrow> (Some err, None)
      | Inr oldSpec \<Rightarrow>
          (case snd (att k) of
             Accept \<Rightarrow> (None, Some (oldSpec\<lparr>Spec_ObservedConfig := config\<rparr>))
           | Conflict err \<Rightarrow> UpdateSpec_loop steps (Suc k) config att (Some err)
           | Refuse err \<Rightarrow> (Some err, None)))"

definition UpdateSpec ::
  "string \<Rightarrow> (nat \<Rightarrow> OperatorSpec result \<times> api_answer) \<Rightarrow> go_error option \<times> OperatorSpec option" where
  "UpdateSpec config att = UpdateSpec_loop DefaultBackoff_Steps 0 config att None"

definition NewMultiLineAggregate :: "go_error list \<Rightarrow> go_error option" where
  "NewMultiLineAggregate errs =
     (if errs = [] then None else Some (Failure (join nl (map err_msg (sort_key err_msg errs)))))"

text \<open>What the spec holds, decoded; what cannot be decoded counts as empty.\<close>

definition existing :: "ObserverEnv \<Rightarrow> OperatorSpec \<Rightarrow> config" where
  "existing env spec =
     (case ob_decode env (Spec_ObservedConfig spec) of Some (JObject m) \<Rightarrow> m | _ \<Rightarrow> Map.empty)"

definition observed_configs :: "ObserverEnv \<Rightarrow> config \<Rightarrow> (config \<times> config \<times> go_error list) outcome" where
  "observed_configs env existingConfig =
     obind (observeTLSSecurityProfile env existingConfig) (\<lambda>(tls, tlsErrs).
       case ObserveProxyConfig (ob_proxy env) existingConfig of
         (proxy, proxyErrs) \<Rightarrow>
           Returned (if ob_proxy_first env then (proxy, tls, proxyErrs @ tlsErrs)
                     else (tls, proxy, tlsErrs @ proxyErrs)))"

definition merged :: "config \<Rightarrow> config \<Rightarrow> config" where
  "merged a b = Merge (Merge Map.empty a) b"

definition reverse_merged :: "config \<Rightarrow> config \<Rightarrow> config" where
  "reverse_merged a b = Merge (Merge Map.empty b) (shared a b)"

text \<open>
  The second half of \<open>sync\<close>: the error, the spec that was written, if any, and the condition, if it
  could be applied.
\<close>
definition publish :: "ObserverEnv \<Rightarrow> config \<Rightarrow> config \<Rightarrow> go_error list
    \<Rightarrow> go_error option \<times> OperatorSpec option \<times> OperatorCondition option" where
  "publish env existingConfig mergedObservedConfig errs =
     (let (writeErr, written) = (if existingConfig = mergedObservedConfig then (None, None)
            else UpdateSpec (ob_encode env mergedObservedConfig) (ob_attempts env));
          configError = NewMultiLineAggregate (case writeErr of
            None \<Rightarrow> errs
          | Some err \<Rightarrow> [Failure (''error writing updated observed config: '' @ err_msg err)]);
          condition = (case configError of
            None \<Rightarrow> applied_condition ''ConfigObservationDegraded'' ConditionFalse [] []
          | Some err \<Rightarrow> applied_condition ''ConfigObservationDegraded'' ConditionTrue (err_msg err) ''Error'')
      in case ob_applyStatus env of
           Some updateError \<Rightarrow> (Some updateError, written, None)
         | None \<Rightarrow> (configError, written, Some condition))"

definition ConfigObserver_sync ::
  "ObserverEnv \<Rightarrow> (go_error option \<times> OperatorSpec option \<times> OperatorCondition option) outcome" where
  "ConfigObserver_sync env =
     (case ob_state env of
        Inl err \<Rightarrow> Returned (if is_not_found err then None else Some err, None, None)
      | Inr spec \<Rightarrow>
          obind (observed_configs env (existing env spec)) (\<lambda>(a, b, errs).
            Returned (publish env (existing env spec) (merged a b) (errs @
              (if merged a b \<noteq> reverse_merged a b
               then [Failure ''non-deterministic config observation detected''] else [])))))"

subsection \<open>The two halves of the configuration\<close>

definition leaf :: "config \<Rightarrow> string list \<Rightarrow> json option" where
  "leaf obj path = (case NestedField obj path of Inr v \<Rightarrow> v | Inl err \<Rightarrow> None)"

definition proxy_part :: "json option \<Rightarrow> config" where
  "proxy_part p = (case p of None \<Rightarrow> Map.empty | Some v \<Rightarrow> [''targetcsiconfig'' \<mapsto> JObject [''proxy'' \<mapsto> v]])"

definition tls_part :: "config \<Rightarrow> config" where
  "tls_part si = (if si = Map.empty then Map.empty
     else [''targetcsiconfig'' \<mapsto> JObject [''servingInfo'' \<mapsto> JObject si]])"

definition both_parts :: "json option \<Rightarrow> config \<Rightarrow> config" where
  "both_parts p si =
     (case p of
        None \<Rightarrow> tls_part si
      | Some v \<Rightarrow> [''targetcsiconfig'' \<mapsto> JObject
          (if si = Map.empty then [''proxy'' \<mapsto> v] else [''proxy'' \<mapsto> v, ''servingInfo'' \<mapsto> JObject si])])"

abbreviation serving_path :: "string \<Rightarrow> string list" where
  "serving_path k \<equiv> [''targetcsiconfig'', ''servingInfo'', k]"

lemma paths:
  "ProxyConfigPath = [''targetcsiconfig'', ''proxy'']" "CipherSuitesPath = serving_path ''cipherSuites''"
  "MinTLSVersionPath = serving_path ''minTLSVersion''" "CurvePreferencesPath = serving_path ''curvePreferences''"
  by (simp_all add: ProxyConfigPath_def CipherSuitesPath_def MinTLSVersionPath_def CurvePreferencesPath_def)

lemma keep_path_leaf:
  "keep_path obj path ret =
     (case leaf obj path of
        None \<Rightarrow> ret | Some v \<Rightarrow> (case SetNestedField ret v path of Inr r \<Rightarrow> r | Inl err \<Rightarrow> ret))"
  by (simp add: keep_path_def leaf_def split: sum.split option.split)

lemma keep_serving:
  "keep_path obj (serving_path k) (tls_part si) =
     tls_part (case leaf obj (serving_path k) of None \<Rightarrow> si | Some v \<Rightarrow> si(k \<mapsto> v))"
  by (auto simp: keep_path_leaf tls_part_def split: option.split)

lemma Pruned_proxy: "Pruned obj [ProxyConfigPath] = proxy_part (leaf obj ProxyConfigPath)"
  by (simp add: Pruned_def keep_path_leaf proxy_part_def paths split: option.split)

definition add_leaf :: "config \<Rightarrow> string \<Rightarrow> config \<Rightarrow> config" where
  "add_leaf obj k si = (case leaf obj (serving_path k) of None \<Rightarrow> si | Some v \<Rightarrow> si(k \<mapsto> v))"

lemma Pruned_serving: "ks \<noteq> [] \<Longrightarrow> Pruned obj (map serving_path ks) = tls_part (fold (add_leaf obj) ks Map.empty)"
proof -
  have "fold (keep_path obj) (map serving_path ks) (tls_part si) = tls_part (fold (add_leaf obj) ks si)" for si
    by (induction ks arbitrary: si) (simp_all add: keep_serving add_leaf_def)
  from this [of Map.empty] show "ks \<noteq> [] \<Longrightarrow> ?thesis" by (simp add: Pruned_def tls_part_def)
qed

lemma leaf_both_parts:
  "leaf (both_parts p si) ProxyConfigPath = p" "leaf (both_parts p si) (serving_path k) = si k"
  by (auto simp: leaf_def NestedField_def both_parts_def tls_part_def paths split: option.split)

lemma leaf_part: "leaf (tls_part si) (serving_path k) = si k" "leaf (proxy_part p) ProxyConfigPath = p"
  by (auto simp: leaf_def NestedField_def tls_part_def proxy_part_def paths split: option.split)

lemma Pruned_tls_part:
  assumes "dom si \<subseteq> set ks" and "ks \<noteq> []"
  shows "Pruned (tls_part si) (map serving_path ks) = tls_part si"
proof -
  have "fold (add_leaf (tls_part si)) ks m k = (if k \<in> set ks then (case si k of None \<Rightarrow> m k | Some v \<Rightarrow> Some v) else m k)"
    for ks m k
    by (induction ks arbitrary: m) (auto simp: add_leaf_def leaf_part split: option.split)
  then have "fold (add_leaf (tls_part si)) ks Map.empty = si"
    using assms(1) by (auto simp: fun_eq_iff split: option.split)
  with assms(2) show ?thesis by (simp add: Pruned_serving)
qed

subsection \<open>Merging the halves\<close>

lemma Merge_value: "Merge dst src k = (case src k of None \<Rightarrow> dst k | Some v \<Rightarrow> merge_value v (dst k))"
  by (simp add: Merge_def merge_map_def split: option.split)

lemma merge_value_object:
  "merge_value (JObject m) None = Some (JObject m)"
  "merge_value (JObject m) (Some (JObject d)) = Some (JObject (if Merge d m = Map.empty then m else Merge d m))"
  by (simp_all add: fillable_def Merge_def Let_def)

lemma merge_value_missing: "v \<noteq> JNull \<Longrightarrow> merge_value v None = Some v"
  by (cases v) (simp_all add: fillable_def)

lemma merge_value_same: "merge_value v (Some v) = Some v"
proof (induction v)
  case (JObject m)
  have "merge_map (map_option merge_value \<circ> m) m = m"
  proof
    fix k
    show "merge_map (map_option merge_value \<circ> m) m k = m k"
    proof (cases "m k")
      case (Some v)
      then have "merge_value v (Some v) = Some v" using JObject [of "m k" v] by (metis option.set_intros rangeI)
      with Some show ?thesis by (simp add: merge_map_def)
    qed (simp add: merge_map_def)
  qed
  then show ?case by (simp add: Let_def)
qed simp_all

lemma Merge_same: "Merge m m = m"
  by (auto simp: fun_eq_iff Merge_value merge_value_same split: option.split)

lemma Merge_objects:
  "Merge Map.empty [k \<mapsto> JObject m] = [k \<mapsto> JObject m]" "Merge d Map.empty = d"
  "Merge [k \<mapsto> JObject d] [k \<mapsto> JObject m] = [k \<mapsto> JObject (if Merge d m = Map.empty then m else Merge d m)]"
  "shared [k \<mapsto> JObject m] [k \<mapsto> JObject d] = [k \<mapsto> JObject (Merge m d)]" "shared Map.empty b = Map.empty"
  "shared [k \<mapsto> JObject m] Map.empty = [k \<mapsto> JObject m]"
  by (rule ext; simp add: Merge_value merge_value_object shared_def del: merge_value.simps(6) split: option.split)+

lemma Merge_keys:
  assumes "j \<noteq> k" and "v \<noteq> JNull"
  shows "Merge [j \<mapsto> v] [k \<mapsto> JObject m] = [j \<mapsto> v, k \<mapsto> JObject m]"
    and "Merge [k \<mapsto> JObject m] [j \<mapsto> v] = [j \<mapsto> v, k \<mapsto> JObject m]"
    and "Merge [j \<mapsto> v] [j \<mapsto> v, k \<mapsto> JObject m] = [j \<mapsto> v, k \<mapsto> JObject m]"
    and "Merge [k \<mapsto> JObject m] [j \<mapsto> v, k \<mapsto> JObject m] = [j \<mapsto> v, k \<mapsto> JObject m]"
  by (rule ext; use assms merge_value_same [of "JObject m"] in
      \<open>simp add: Merge_value merge_value_object merge_value_missing merge_value_same del: merge_value.simps(6)\<close>)+

lemma merged_parts:
  assumes "p \<noteq> Some JNull"
  shows "merged (proxy_part p) (tls_part si) = both_parts p si" "merged (tls_part si) (proxy_part p) = both_parts p si"
    "reverse_merged (proxy_part p) (tls_part si) = both_parts p si"
    "reverse_merged (tls_part si) (proxy_part p) = both_parts p si"
  using assms
  by (cases p; cases "si = Map.empty";
      simp add: merged_def reverse_merged_def proxy_part_def tls_part_def both_parts_def Merge_objects Merge_keys Merge_same)+

subsection \<open>What is observed\<close>

text \<open>The wanted halves: what a failed read leaves is what was there.\<close>

definition wanted_proxy :: "Proxy result \<Rightarrow> config \<Rightarrow> json option" where
  "wanted_proxy proxy old =
     (case proxy of
        Inl err \<Rightarrow> if is_not_found err then None else leaf old ProxyConfigPath
      | Inr px \<Rightarrow> map_option string_map (proxyToMap px))"

definition serving_info :: "bool \<Rightarrow> bool \<Rightarrow> TLSProfileSpec \<Rightarrow> config" where
  "serving_info curves fips spec =
     [''minTLSVersion'' \<mapsto> JString (tp_MinTLSVersion spec),
      ''cipherSuites'' \<mapsto> JArray (map JString (OpenSSLToIANACipherSuites (tp_Ciphers spec)))]
     ++ (if curves then [''curvePreferences'' \<mapsto> JArray (map JString (getSecurityProfileGroups fips spec))] else Map.empty)"

definition old_serving :: "config \<Rightarrow> string list \<Rightarrow> config" where
  "old_serving old ks = (\<lambda>k. if k \<in> set ks then leaf old (serving_path k) else None)"

definition profile_found :: "ObserverEnv \<Rightarrow> TLSSecurityProfile option option" where
  "profile_found env =
     (case ob_apiServer env of
        Inl err \<Rightarrow> if is_not_found err then Some None else None
      | Inr profile \<Rightarrow> Some profile)"

definition wanted_tls :: "ObserverEnv \<Rightarrow> config \<Rightarrow> config" where
  "wanted_tls env old =
     (if \<not> ob_initial env then old_serving old [''minTLSVersion'', ''cipherSuites'', ''curvePreferences'']
      else case ob_gates env of
             Inl err \<Rightarrow> old_serving old [''minTLSVersion'', ''cipherSuites'', ''curvePreferences'']
           | Inr (on, off) \<Rightarrow>
               let curves = ''TLSGroupPreferences'' \<in> set on in
               (case profile_found env of
                  None \<Rightarrow> old_serving old ([''minTLSVersion'', ''cipherSuites''] @ (if curves then [''curvePreferences''] else []))
                | Some profile \<Rightarrow> serving_info curves (ob_fips env) (resolveProfileSpec profile)))"

definition gates_registered :: "ObserverEnv \<Rightarrow> bool" where
  "gates_registered env \<longleftrightarrow> (\<forall>on off. ob_initial env \<longrightarrow> ob_gates env = Inr (on, off) \<longrightarrow>
     ''TLSGroupPreferences'' \<in> set on \<union> set off)"

lemma fold_add_leaf: "fold (add_leaf obj) ks m = m ++ old_serving obj ks"
proof (induction ks rule: rev_induct)
  case (snoc k ks)
  then show ?case
    by (auto simp: fun_eq_iff old_serving_def add_leaf_def map_add_def split: option.split)
qed (simp add: old_serving_def map_add_def)

lemma Pruned_old: "ks \<noteq> [] \<Longrightarrow> Pruned obj (map serving_path ks) = tls_part (old_serving obj ks)"
  by (simp add: Pruned_serving fold_add_leaf)

lemma ObserveProxyConfig_part:
  "fst (ObserveProxyConfig proxy old) = proxy_part (wanted_proxy proxy old)"
proof -
  have set: "SetNestedField Map.empty v ProxyConfigPath = Inr (proxy_part (Some v))" for v
    by (simp add: paths proxy_part_def rbind_Inr)
  have none: "Map.empty = proxy_part None" by (simp add: proxy_part_def)
  show ?thesis
    by (auto simp: ObserveProxyConfig_def wanted_proxy_def set Pruned_proxy leaf_part split: sum.split option.split)
      (simp_all add: none leaf_part)
qed

lemma inner_part:
  fixes curves :: bool
  defines "ks \<equiv> [''minTLSVersion'', ''cipherSuites''] @ (if curves then [''curvePreferences''] else [])"
  shows "fst (innerTLSSecurityProfileObservations fips api old MinTLSVersionPath CipherSuitesPath
      (if curves then CurvePreferencesPath else [])) =
    tls_part (case api of
      Inl err \<Rightarrow> if is_not_found err then serving_info curves fips (resolveProfileSpec None) else old_serving old ks
    | Inr profile \<Rightarrow> serving_info curves fips (resolveProfileSpec profile))"
proof -
  have ks: "[MinTLSVersionPath, CipherSuitesPath] @
      (if 0 < length (if curves then CurvePreferencesPath else []) then [if curves then CurvePreferencesPath else []] else [])
      = map serving_path ks"
    by (simp add: ks_def paths)
  have "SetNestedField Map.empty u (serving_path ''minTLSVersion'') = Inr (tls_part [''minTLSVersion'' \<mapsto> u])" for u
    by (simp add: tls_part_def)
  moreover have "SetNestedField (tls_part si) u (serving_path k) = Inr (tls_part (si(k \<mapsto> u)))" for si u k
    by (simp add: tls_part_def)
  ultimately have observe:
    "rbind (SetNestedField Map.empty (JString (tp_MinTLSVersion spec)) MinTLSVersionPath) (\<lambda>c1.
       rbind (SetNestedField c1 (JArray (map JString (OpenSSLToIANACipherSuites (tp_Ciphers spec)))) CipherSuitesPath) (\<lambda>c2.
         if 0 < length (if curves then CurvePreferencesPath else [])
         then SetNestedField c2 (JArray (map JString (getSecurityProfileGroups fips spec)))
           (if curves then CurvePreferencesPath else [])
         else Inr c2)) =
     Inr (tls_part (serving_info curves fips spec))" for spec
    by (simp add: paths serving_info_def)
  have nonempty: "ks \<noteq> []" by (simp add: ks_def)
  have "dom (serving_info curves fips spec) \<subseteq> set ks" for spec
    by (auto simp: serving_info_def ks_def)
  note pruned = Pruned_tls_part [OF this nonempty]
  show ?thesis
    unfolding innerTLSSecurityProfileObservations_def ks Let_def observe
    by (cases api) (simp_all add: pruned Pruned_old [OF nonempty, of old] ks_def [symmetric])
qed

lemma observeTLS_part:
  assumes "gates_registered env"
  shows "\<exists>errs. observeTLSSecurityProfile env old = Returned (tls_part (wanted_tls env old), errs)"
proof -
  have kept: "Pruned old [MinTLSVersionPath, CipherSuitesPath, CurvePreferencesPath] =
      tls_part (old_serving old [''minTLSVersion'', ''cipherSuites'', ''curvePreferences''])"
    using Pruned_old [of "[''minTLSVersion'', ''cipherSuites'', ''curvePreferences'']" old] by (simp add: paths)
  have inner: "\<exists>errs. innerTLSSecurityProfileObservations fips api old MinTLSVersionPath CipherSuitesPath
      (if curves then CurvePreferencesPath else []) = (tls_part si, errs)"
    if "si = (case api of
      Inl err \<Rightarrow> if is_not_found err then serving_info curves fips (resolveProfileSpec None)
        else old_serving old ([''minTLSVersion'', ''cipherSuites''] @ (if curves then [''curvePreferences''] else []))
    | Inr profile \<Rightarrow> serving_info curves fips (resolveProfileSpec profile))" for fips api curves si
    using inner_part [of fips api old curves] that by (metis prod.collapse)
  show ?thesis
  proof (cases "ob_initial env \<and> (\<exists>g. ob_gates env = Inr g)")
    case True
    then obtain on off where g: "ob_initial env" "ob_gates env = Inr (on, off)" by auto
    let ?curves = "''TLSGroupPreferences'' \<in> set on"
    have "Enabled (on, off) ''TLSGroupPreferences'' = Returned ?curves"
      using assms g by (auto simp: gates_registered_def)
    with inner [OF refl, of "ob_fips env" "ob_apiServer env" ?curves] g show ?thesis
      by (auto simp: observeTLSSecurityProfile_def wanted_tls_def profile_found_def Let_def split: sum.split)
  next
    case False
    then show ?thesis by (auto simp: observeTLSSecurityProfile_def wanted_tls_def kept Let_def split: sum.split)
  qed
qed

lemma observeTLS_panics:
  assumes "\<not> gates_registered env"
  shows "\<exists>m. observeTLSSecurityProfile env old = Panicked m"
  using assms by (auto simp: gates_registered_def observeTLSSecurityProfile_def Let_def)

definition wanted :: "ObserverEnv \<Rightarrow> config \<Rightarrow> config" where
  "wanted env old = both_parts (wanted_proxy (ob_proxy env) old) (wanted_tls env old)"

lemma observed_configs_parts:
  assumes "gates_registered env"
  obtains tlsErrs proxyErrs where "observeTLSSecurityProfile env old = Returned (tls_part (wanted_tls env old), tlsErrs)"
    and "ObserveProxyConfig (ob_proxy env) old = (proxy_part (wanted_proxy (ob_proxy env) old), proxyErrs)"
    and "observed_configs env old = Returned
      (if ob_proxy_first env
       then (proxy_part (wanted_proxy (ob_proxy env) old), tls_part (wanted_tls env old), proxyErrs @ tlsErrs)
       else (tls_part (wanted_tls env old), proxy_part (wanted_proxy (ob_proxy env) old), tlsErrs @ proxyErrs))"
proof -
  obtain tlsErrs where tls: "observeTLSSecurityProfile env old = Returned (tls_part (wanted_tls env old), tlsErrs)"
    using observeTLS_part [OF assms] by blast
  obtain proxyErrs where proxy:
    "ObserveProxyConfig (ob_proxy env) old = (proxy_part (wanted_proxy (ob_proxy env) old), proxyErrs)"
    using ObserveProxyConfig_part by (metis prod.collapse)
  from that [OF tls proxy] show thesis by (simp add: observed_configs_def tls proxy)
qed

text \<open>The operator writes no null; a null that somebody else wrote for the proxy would be lost or kept by chance.\<close>

definition no_null :: "config \<Rightarrow> bool" where
  "no_null old \<longleftrightarrow> leaf old ProxyConfigPath \<noteq> Some JNull"

lemma wanted_proxy_no_null: "no_null old \<Longrightarrow> wanted_proxy proxy old \<noteq> Some JNull"
  by (auto simp: no_null_def wanted_proxy_def string_map_def split: sum.splits)

lemma NewMultiLineAggregate_order:
  "NewMultiLineAggregate (xs @ ys) = NewMultiLineAggregate (ys @ xs)"
proof -
  have "map err_msg (sort_key err_msg zs) = sort (map err_msg zs)" for zs
    by (rule properties_for_sort [symmetric]) simp_all
  moreover have "sort (map err_msg (xs @ ys)) = sort (map err_msg (ys @ xs))"
    by (rule properties_for_sort) simp_all
  ultimately have "map err_msg (sort_key err_msg (xs @ ys)) = map err_msg (sort_key err_msg (ys @ xs))" by simp
  then show ?thesis by (simp add: NewMultiLineAggregate_def)
qed

text \<open>One sync in terms of the wanted configuration.\<close>

lemma ConfigObserver_sync_wanted:
  assumes "gates_registered env" and "ob_state env = Inr spec" and "no_null (existing env spec)"
  obtains tlsErrs proxyErrs where
    "ConfigObserver_sync env = Returned (publish env (existing env spec) (wanted env (existing env spec))
       (if ob_proxy_first env then proxyErrs @ tlsErrs else tlsErrs @ proxyErrs))"
    and "\<exists>a. observeTLSSecurityProfile env (existing env spec) = Returned (a, tlsErrs)"
    and "proxyErrs = snd (ObserveProxyConfig (ob_proxy env) (existing env spec))"
proof -
  from observed_configs_parts [OF assms(1), of "existing env spec"] obtain tlsErrs proxyErrs where parts:
    "observeTLSSecurityProfile env (existing env spec) = Returned (tls_part (wanted_tls env (existing env spec)), tlsErrs)"
    "ObserveProxyConfig (ob_proxy env) (existing env spec) =
       (proxy_part (wanted_proxy (ob_proxy env) (existing env spec)), proxyErrs)"
    "observed_configs env (existing env spec) = Returned
      (if ob_proxy_first env
       then (proxy_part (wanted_proxy (ob_proxy env) (existing env spec)), tls_part (wanted_tls env (existing env spec)), proxyErrs @ tlsErrs)
       else (tls_part (wanted_tls env (existing env spec)), proxy_part (wanted_proxy (ob_proxy env) (existing env spec)), tlsErrs @ proxyErrs))"
    by blast
  note m = merged_parts [OF wanted_proxy_no_null [OF assms(3)]]
  have "ConfigObserver_sync env = Returned (publish env (existing env spec) (wanted env (existing env spec))
       (if ob_proxy_first env then proxyErrs @ tlsErrs else tlsErrs @ proxyErrs))"
    by (simp add: ConfigObserver_sync_def assms(2) parts(3) m wanted_def)
  from that [OF this] parts(1,2) show thesis by simp
qed

lemma publish_order:
  "publish (env\<lparr>ob_proxy_first := b\<rparr>) old new (xs @ ys) = publish (env\<lparr>ob_proxy_first := c\<rparr>) old new (ys @ xs)"
proof -
  have "NewMultiLineAggregate (case writeErr of None \<Rightarrow> xs @ ys | Some err \<Rightarrow> f err) =
      NewMultiLineAggregate (case writeErr of None \<Rightarrow> ys @ xs | Some err \<Rightarrow> f err)" for writeErr :: "go_error option" and f
    using NewMultiLineAggregate_order [of xs ys] by (cases writeErr) simp_all
  then show ?thesis by (simp add: publish_def)
qed

text \<open>
  The order in which the two observers run, which is random, does not matter: the configuration
  that is written, the error and the condition are the same, and the controller never reports itself as not deterministic.
\<close>
lemma observer_order_irrelevant:
  assumes "\<forall>spec. ob_state env = Inr spec \<longrightarrow> no_null (existing env spec)"
  shows "ConfigObserver_sync (env\<lparr>ob_proxy_first := True\<rparr>) = ConfigObserver_sync (env\<lparr>ob_proxy_first := False\<rparr>)"
proof (cases "ob_state env")
  case (Inr spec)
  let ?old = "existing env spec"
  have same: "existing (env\<lparr>ob_proxy_first := b\<rparr>) = existing env"
    "observeTLSSecurityProfile (env\<lparr>ob_proxy_first := b\<rparr>) = observeTLSSecurityProfile env" for b
    by (rule ext, simp add: existing_def)
      (rule ext, cases "ob_gates env"; simp add: observeTLSSecurityProfile_def Let_def)
  show ?thesis
  proof (cases "gates_registered env")
    case True
    from observed_configs_parts [OF this, of ?old] obtain tlsErrs proxyErrs where parts:
      "observeTLSSecurityProfile env ?old = Returned (tls_part (wanted_tls env ?old), tlsErrs)"
      "ObserveProxyConfig (ob_proxy env) ?old = (proxy_part (wanted_proxy (ob_proxy env) ?old), proxyErrs)"
      by blast
    have "wanted_proxy (ob_proxy env) ?old \<noteq> Some JNull"
      using assms Inr by (intro wanted_proxy_no_null) simp
    note m = merged_parts [OF this]
    show ?thesis
      using publish_order [of True env ?old _ proxyErrs tlsErrs False]
      by (simp add: ConfigObserver_sync_def Inr observed_configs_def same parts m)
  next
    case False
    from observeTLS_panics [OF this, of ?old] show ?thesis
      by (auto simp: ConfigObserver_sync_def Inr observed_configs_def same)
  qed
qed (simp add: ConfigObserver_sync_def)

subsection \<open>Failing reads\<close>

definition tls_unknown :: "ObserverEnv \<Rightarrow> bool" where
  "tls_unknown env \<longleftrightarrow> \<not> ob_initial env \<or> (\<exists>err. ob_gates env = Inl err) \<or> profile_found env = None"

definition proxy_unknown :: "ObserverEnv \<Rightarrow> bool" where
  "proxy_unknown env \<longleftrightarrow> (\<exists>err. ob_proxy env = Inl err \<and> \<not> is_not_found err)"

lemma tls_errors: "observeTLSSecurityProfile env old = Returned (a, []) \<Longrightarrow> \<not> tls_unknown env"
  by (auto simp: observeTLSSecurityProfile_def tls_unknown_def profile_found_def obind_Returned
      innerTLSSecurityProfileObservations_def Let_def split: sum.splits if_splits)

lemma proxy_errors: "snd (ObserveProxyConfig (ob_proxy env) old) = [] \<Longrightarrow> \<not> proxy_unknown env"
  by (auto simp: ObserveProxyConfig_def proxy_unknown_def split: if_splits)

lemma NewMultiLineAggregate_None: "NewMultiLineAggregate errs = None \<longleftrightarrow> errs = []"
  by (simp add: NewMultiLineAggregate_def)

lemma UpdateSpec_loop_result:
  "UpdateSpec_loop n k config att e = (err, written) \<Longrightarrow>
     (err = None \<longleftrightarrow> written \<noteq> None) \<and> (\<forall>s. written = Some s \<longrightarrow> Spec_ObservedConfig s = config)"
  by (induction n arbitrary: k e) (auto split: option.splits sum.splits api_answer.splits)

lemma sync_result:
  assumes "ConfigObserver_sync env = Returned (err, written, cond)" and "ob_state env = Inr spec"
    and "no_null (existing env spec)"
  shows "(written = None \<and> (err = None \<longrightarrow> existing env spec = wanted env (existing env spec)))
     \<or> (\<exists>s. written = Some s \<and> Spec_ObservedConfig s = ob_encode env (wanted env (existing env spec)))"
    and "gates_registered env"
    and "err = None \<Longrightarrow> \<not> tls_unknown env \<and> \<not> proxy_unknown env"
    and "cond = Some c \<Longrightarrow> cnd_Status c = (if err = None then ConditionFalse else ConditionTrue)"
proof -
  show gates: "gates_registered env"
  proof (rule ccontr)
    assume "\<not> gates_registered env"
    from observeTLS_panics [OF this, of "existing env spec"] assms(1,2) show False
      by (auto simp: ConfigObserver_sync_def observed_configs_def)
  qed
  from ConfigObserver_sync_wanted [OF this assms(2,3)] obtain tlsErrs proxyErrs where
    sync: "ConfigObserver_sync env = Returned (publish env (existing env spec) (wanted env (existing env spec))
       (if ob_proxy_first env then proxyErrs @ tlsErrs else tlsErrs @ proxyErrs))"
    and errs: "\<exists>a. observeTLSSecurityProfile env (existing env spec) = Returned (a, tlsErrs)"
      "proxyErrs = snd (ObserveProxyConfig (ob_proxy env) (existing env spec))"
    by blast
  let ?errs = "if ob_proxy_first env then proxyErrs @ tlsErrs else tlsErrs @ proxyErrs"
  obtain writeErr w where update:
    "(writeErr, w) = (if existing env spec = wanted env (existing env spec) then (None, None)
       else UpdateSpec (ob_encode env (wanted env (existing env spec))) (ob_attempts env))"
    by (metis prod.collapse)
  have result: "written = w" "err = None \<longrightarrow> writeErr = None \<and> ?errs = []"
    "cond = Some c \<longrightarrow> cnd_Status c = (if err = None then ConditionFalse else ConditionTrue)"
    using assms(1) by (auto simp: sync publish_def update [symmetric] Let_def NewMultiLineAggregate_None applied_condition_def
        split: option.splits)
  have "w = None \<and> (writeErr = None \<longrightarrow> existing env spec = wanted env (existing env spec))
     \<or> (\<exists>s. w = Some s \<and> Spec_ObservedConfig s = ob_encode env (wanted env (existing env spec)))"
    using update UpdateSpec_loop_result [of DefaultBackoff_Steps 0 _ "ob_attempts env" None writeErr w]
    by (cases w) (auto simp: UpdateSpec_def split: if_splits)
  with result show "(written = None \<and> (err = None \<longrightarrow> existing env spec = wanted env (existing env spec)))
     \<or> (\<exists>s. written = Some s \<and> Spec_ObservedConfig s = ob_encode env (wanted env (existing env spec)))" by auto
  show "err = None \<Longrightarrow> \<not> tls_unknown env \<and> \<not> proxy_unknown env"
    using errs result(2) tls_errors [of env "existing env spec"] proxy_errors [of env "existing env spec"]
    by (auto split: if_splits)
  show "cond = Some c \<Longrightarrow> cnd_Status c = (if err = None then ConditionFalse else ConditionTrue)" using result(3) by blast
qed

text \<open>What the spec holds after the sync, with a printer that the parser reads back.\<close>

definition in_effect :: "ObserverEnv \<Rightarrow> OperatorSpec \<Rightarrow> OperatorSpec option \<Rightarrow> config" where
  "in_effect env spec written = existing env (case written of None \<Rightarrow> spec | Some s \<Rightarrow> s)"

lemma in_effect_cases:
  assumes "ConfigObserver_sync env = Returned (err, written, cond)" and "ob_state env = Inr spec"
    and "no_null (existing env spec)"
    and "ob_decode env (ob_encode env (wanted env (existing env spec))) = Some (JObject (wanted env (existing env spec)))"
  shows "in_effect env spec written = wanted env (existing env spec)
     \<or> err \<noteq> None \<and> in_effect env spec written = existing env spec"
  using sync_result(1) [OF assms(1-3)] assms(4) by (auto simp: in_effect_def existing_def)

lemma leaf_wanted:
  "leaf (wanted env old) ProxyConfigPath = wanted_proxy (ob_proxy env) old"
  "leaf (wanted env old) (serving_path k) = wanted_tls env old k"
  by (simp_all add: wanted_def leaf_both_parts)

lemma wanted_tls_kept:
  "tls_unknown env \<Longrightarrow> k = ''minTLSVersion'' \<or> k = ''cipherSuites'' \<Longrightarrow> wanted_tls env old k = leaf old (serving_path k)"
  "\<not> ob_initial env \<or> (\<exists>err. ob_gates env = Inl err) \<Longrightarrow>
     wanted_tls env old ''curvePreferences'' = leaf old (serving_path ''curvePreferences'')"
  by (auto simp: tls_unknown_def wanted_tls_def old_serving_def Let_def split: sum.split)

lemma in_effect_written:
  assumes "ConfigObserver_sync env = Returned (err, written, cond)" and "ob_state env = Inr spec"
    and "no_null (existing env spec)"
    and "ob_decode env (ob_encode env (wanted env (existing env spec))) = Some (JObject (wanted env (existing env spec)))"
    and "err = None \<or> written \<noteq> None"
  shows "in_effect env spec written = wanted env (existing env spec)"
  using sync_result(1) [OF assms(1-3)] assms(4,5) by (auto simp: in_effect_def existing_def)

text \<open>
  C33: a failed read loses nothing and is not silent. If the proxy cannot be read, the proxy settings in the spec stay;
  if the feature gates are not known or the APIServer object cannot be read, the TLS version and the cipher suites stay, and with
  unknown gates the curves too; the sync ends with an error and a degraded condition. What is
  deleted counts as read: without a Proxy object the settings go, and without an APIServer object, the gates known, the
  version is that of the default profile, as soon as the spec is written or the sync ends without an error.
\<close>
theorem failed_reads_keep_config:
  assumes "ConfigObserver_sync env = Returned (err, written, cond)" and "ob_state env = Inr spec"
    and "no_null (existing env spec)"
    and "ob_decode env (ob_encode env (wanted env (existing env spec))) = Some (JObject (wanted env (existing env spec)))"
  shows "(proxy_unknown env \<longrightarrow>
          leaf (in_effect env spec written) ProxyConfigPath = leaf (existing env spec) ProxyConfigPath)
     \<and> (tls_unknown env \<longrightarrow> (\<forall>path \<in> {MinTLSVersionPath, CipherSuitesPath}.
          leaf (in_effect env spec written) path = leaf (existing env spec) path))
     \<and> (\<not> ob_initial env \<or> (\<exists>e. ob_gates env = Inl e) \<longrightarrow>
          leaf (in_effect env spec written) CurvePreferencesPath = leaf (existing env spec) CurvePreferencesPath)
     \<and> (proxy_unknown env \<or> tls_unknown env \<longrightarrow> err \<noteq> None
          \<and> (case cond of None \<Rightarrow> True | Some c \<Rightarrow> cnd_Status c = ConditionTrue))
     \<and> ((\<exists>e. ob_proxy env = Inl e \<and> is_not_found e) \<and> (err = None \<or> written \<noteq> None) \<longrightarrow>
          leaf (in_effect env spec written) ProxyConfigPath = None)
     \<and> ((\<exists>e. ob_apiServer env = Inl e \<and> is_not_found e) \<and> ob_initial env \<and> (\<exists>g. ob_gates env = Inr g)
          \<and> (err = None \<or> written \<noteq> None) \<longrightarrow>
          leaf (in_effect env spec written) MinTLSVersionPath =
            Some (JString (tp_MinTLSVersion (resolveProfileSpec None))))"
proof -
  have "wanted_proxy (ob_proxy env) old = leaf old ProxyConfigPath" if "proxy_unknown env" for old
    using that by (auto simp: proxy_unknown_def wanted_proxy_def)
  then have "proxy_unknown env \<longrightarrow>
      leaf (in_effect env spec written) ProxyConfigPath = leaf (existing env spec) ProxyConfigPath"
    using in_effect_cases [OF assms] by (auto simp: leaf_wanted(1))
  moreover have "tls_unknown env \<longrightarrow> (\<forall>path \<in> {MinTLSVersionPath, CipherSuitesPath}.
      leaf (in_effect env spec written) path = leaf (existing env spec) path)"
    using in_effect_cases [OF assms] by (auto simp: leaf_wanted(2) paths wanted_tls_kept)
  moreover have "\<not> ob_initial env \<or> (\<exists>e. ob_gates env = Inl e) \<longrightarrow>
      leaf (in_effect env spec written) CurvePreferencesPath = leaf (existing env spec) CurvePreferencesPath"
    using in_effect_cases [OF assms] wanted_tls_kept(2) [of env "existing env spec"]
    by (auto simp: leaf_wanted(2) paths)
  moreover have "proxy_unknown env \<or> tls_unknown env \<longrightarrow> err \<noteq> None
      \<and> (case cond of None \<Rightarrow> True | Some c \<Rightarrow> cnd_Status c = ConditionTrue)"
    using sync_result(3,4) [OF assms(1-3)] by (auto split: option.split)
  moreover have "leaf (in_effect env spec written) ProxyConfigPath = None"
    if "\<exists>e. ob_proxy env = Inl e \<and> is_not_found e" "err = None \<or> written \<noteq> None"
    using that(1) in_effect_written [OF assms that(2)] by (auto simp: leaf_wanted(1) wanted_proxy_def)
  moreover have "leaf (in_effect env spec written) MinTLSVersionPath =
      Some (JString (tp_MinTLSVersion (resolveProfileSpec None)))"
    if "\<exists>e. ob_apiServer env = Inl e \<and> is_not_found e" "ob_initial env" "\<exists>g. ob_gates env = Inr g"
      "err = None \<or> written \<noteq> None"
    using that(1-3) in_effect_written [OF assms that(4)]
    by (auto simp: leaf_wanted(2) paths wanted_tls_def profile_found_def serving_info_def Let_def)
  ultimately show ?thesis by (intro conjI impI; (elim conjE)?; simp)
qed

text \<open>Nothing is written twice: a second sync of an unchanged cluster leaves the spec as it is.\<close>

lemma wanted_again: "wanted env (wanted env old) = wanted env old"
proof -
  have "wanted_proxy (ob_proxy env) (wanted env old) = wanted_proxy (ob_proxy env) old"
    by (auto simp: wanted_proxy_def leaf_wanted(1) split: sum.split)
  moreover have "old_serving (wanted env old) ks = wanted_tls env old" if "wanted_tls env old = old_serving old ks" for ks
    by (auto simp: old_serving_def leaf_wanted(2) that)
  then have "wanted_tls env (wanted env old) = wanted_tls env old"
    by (cases "ob_gates env"; cases "profile_found env") (auto simp: wanted_tls_def Let_def split: prod.split)
  ultimately show ?thesis by (simp add: wanted_def)
qed

subsection \<open>From the TLS profile to the manifests\<close>

text \<open>How the manifest hooks look up the observed configuration.\<close>

definition config_view :: "config \<Rightarrow> ObservedConfig" where
  "config_view m = \<lparr>oc_slice = NestedStringSlice m, oc_string = NestedString m\<rparr>"

definition unmarshal_object :: "(string \<Rightarrow> json option) \<Rightarrow> string \<Rightarrow> ObservedConfig result" where
  "unmarshal_object parse raw =
     (case parse raw of Some (JObject m) \<Rightarrow> Inr (config_view m) | _ \<Rightarrow> Inl (Failure ''cannot unmarshal''))"

definition usable_profile :: "TLSProfileSpec \<Rightarrow> bool" where
  "usable_profile p \<longleftrightarrow>
     OpenSSLToIANACipherSuites (tp_Ciphers p) \<noteq> [] \<or> tp_MinTLSVersion p = ''VersionTLS13''"

lemma string_items_strings: "string_items (map JString xs) = Some xs"
  by (induction xs) simp_all

lemma NestedField_both_parts:
  "NestedField (both_parts p si) (serving_path k) = Inr (si k)"
  by (auto simp: NestedField_def both_parts_def tls_part_def split: option.split)

lemma view_both_parts:
  "NestedStringSlice (both_parts p si) (serving_path k) =
     (case si k of
        None \<Rightarrow> Inr None
      | Some (JArray vs) \<Rightarrow> (case string_items vs of
          None \<Rightarrow> Inl (accessor_error (serving_path k) ''string'') | Some l \<Rightarrow> Inr (Some l))
      | Some _ \<Rightarrow> Inl (accessor_error (serving_path k) ''[]interface{}''))"
  "NestedString (both_parts p si) (serving_path k) =
     (case si k of
        None \<Rightarrow> Inr None
      | Some (JString s) \<Rightarrow> Inr (Some s)
      | Some _ \<Rightarrow> Inl (accessor_error (serving_path k) ''string''))"
  by (simp_all add: NestedStringSlice_def NestedString_def NestedField_both_parts rbind_Inr)

lemma wanted_tls_known:
  assumes "\<not> tls_unknown env"
  obtains curves profile where "profile_found env = Some profile"
    and "wanted_tls env old = serving_info curves (ob_fips env) (resolveProfileSpec profile)"
proof -
  from assms obtain profile gates where known: "ob_initial env" "profile_found env = Some profile" "ob_gates env = Inr gates"
    by (cases "ob_gates env") (auto simp: tls_unknown_def)
  obtain on off where "gates = (on, off)" by fastforce
  with known have "wanted_tls env old =
      serving_info (''TLSGroupPreferences'' \<in> set on) (ob_fips env) (resolveProfileSpec profile)"
    by (simp add: wanted_tls_def Let_def)
  with known(2) that show thesis by blast
qed

lemma named_profile_usable: "pr_Type p \<noteq> ''Custom'' \<Longrightarrow> usable_profile (resolveProfileSpec (Some p))"
  "usable_profile (resolveProfileSpec None)"
proof -
  have spec: "usable_profile \<lparr>tp_Ciphers = tls13_ciphers @ cs, tp_Groups = gs, tp_MinTLSVersion = v\<rparr>" for cs gs v
    by (simp add: usable_profile_def tls13_ciphers_def OpenSSLToIANACipherSuites_def openSSLToIANACiphers_def
        map_filter_simps)
  have "usable_profile q" if "TLSProfiles t = Some q" for t q
    using that spec spec [of "[]"] by (auto simp: TLSProfiles_def intermediate_ciphers_def old_ciphers_def split: if_splits)
  note known = this
  obtain i where i: "TLSProfiles ''Intermediate'' = Some i" by (simp add: TLSProfiles_def)
  show "usable_profile (resolveProfileSpec None)" using known [OF i] by (simp add: resolveProfileSpec_def i)
  show "usable_profile (resolveProfileSpec (Some p))" if "pr_Type p \<noteq> ''Custom''"
    using that known [OF i] known [of "pr_Type p"]
    by (auto simp: resolveProfileSpec_def i Let_def split: option.split)
qed

text \<open>
  A sync of the observer that met no error, and a spec that holds what it left. JSON printed by the
  observer is read back, an empty text is no JSON, and the manifest hooks use the same parser.
\<close>
definition observer_done :: "ObserverEnv \<Rightarrow> OperatorSpec option \<Rightarrow> 'e ManifestEnv_scheme \<Rightarrow> OperatorSpec \<Rightarrow> bool" where
  "observer_done env written menv s \<longleftrightarrow>
     (\<exists>spec cond. ob_state env = Inr spec \<and> no_null (existing env spec)
        \<and> ob_decode env (ob_encode env (wanted env (existing env spec))) = Some (JObject (wanted env (existing env spec)))
        \<and> ob_decode env [] = None \<and> me_unmarshal menv = unmarshal_object (ob_decode env)
        \<and> ConfigObserver_sync env = Returned (None, written, cond)
        \<and> Spec_ObservedConfig s = Spec_ObservedConfig (case written of None \<Rightarrow> spec | Some w \<Rightarrow> w))"

text \<open>Manifests without surprises in their text or in the values, and a readable Infrastructure object.\<close>

definition plain_manifests :: "'e ManifestEnv_scheme \<Rightarrow> doc \<Rightarrow> doc \<Rightarrow> bool" where
  "plain_manifests menv c d \<longleftrightarrow>
     me_controller_yaml menv = doc_text c \<and> well_formed c \<and> me_node_yaml menv = doc_text d \<and> well_formed d
     \<and> (\<forall>v \<in> ran (oe_environ menv). one_line v)
     \<and> (\<exists>infra. oe_infras menv InfraGlobalName = Inr infra \<and> one_line (InfrastructureName infra))"

lemma observed_after_sync:
  assumes "observer_done env written menv s"
  obtains profile groups where "profile_found env = Some profile" and "Spec_ObservedConfig s \<noteq> []"
    and "observed menv s (Some (OpenSSLToIANACipherSuites (tp_Ciphers (resolveProfileSpec profile))))
          (Some (tp_MinTLSVersion (resolveProfileSpec profile))) groups"
proof -
  from assms obtain spec cond where state: "ob_state env = Inr spec" "no_null (existing env spec)"
    and trip: "ob_decode env (ob_encode env (wanted env (existing env spec))) = Some (JObject (wanted env (existing env spec)))"
    and parser: "ob_decode env [] = None" "me_unmarshal menv = unmarshal_object (ob_decode env)"
    and sync: "ConfigObserver_sync env = Returned (None, written, cond)"
    and s: "Spec_ObservedConfig s = Spec_ObservedConfig (case written of None \<Rightarrow> spec | Some w \<Rightarrow> w)"
    unfolding observer_done_def by blast
  have "\<not> tls_unknown env" using sync_result(3) [OF sync state] by simp
  then obtain curves profile where tls: "profile_found env = Some profile"
    "wanted_tls env (existing env spec) = serving_info curves (ob_fips env) (resolveProfileSpec profile)"
    by (rule wanted_tls_known)
  let ?w = "both_parts (wanted_proxy (ob_proxy env) (existing env spec))
      (serving_info curves (ob_fips env) (resolveProfileSpec profile))"
  have w: "wanted env (existing env spec) = ?w" by (simp add: wanted_def tls(2))
  have "?w \<noteq> Map.empty" by (auto simp: both_parts_def tls_part_def serving_info_def split: option.splits if_splits)
  then have parsed: "ob_decode env (Spec_ObservedConfig s) = Some (JObject ?w)"
    using sync_result(1) [OF sync state] trip s unfolding w
    by (auto simp: existing_def split: option.splits json.splits)
  have "observed menv s (Some (OpenSSLToIANACipherSuites (tp_Ciphers (resolveProfileSpec profile))))
      (Some (tp_MinTLSVersion (resolveProfileSpec profile)))
      (if curves then Some (getSecurityProfileGroups (ob_fips env) (resolveProfileSpec profile)) else None)"
    by (simp add: observed_def parser(2) unmarshal_object_def parsed config_view_def paths view_both_parts
        serving_info_def string_items_strings)
  moreover have "Spec_ObservedConfig s \<noteq> []" using parsed parser(1) by auto
  ultimately show thesis using that tls(1) by blast
qed

lemma observed_unique:
  "observed menv spec s v g \<Longrightarrow> observed menv spec s' v' g' \<Longrightarrow> s = s' \<and> v = v' \<and> g = g'"
  by (auto simp: observed_def)

definition effective_profile :: "ObserverEnv \<Rightarrow> TLSProfileSpec" where
  "effective_profile env = resolveProfileSpec (case ob_apiServer env of Inl err \<Rightarrow> None | Inr profile \<Rightarrow> profile)"

lemma served_after_sync:
  assumes "observer_done env written menv s"
  shows "served menv s e \<longleftrightarrow> usable_profile (effective_profile env)"
proof -
  let ?p = "effective_profile env"
  from observed_after_sync [OF assms] obtain profile groups where
    found: "profile_found env = Some profile" and some: "Spec_ObservedConfig s \<noteq> []"
    and obs: "observed menv s (Some (OpenSSLToIANACipherSuites (tp_Ciphers (resolveProfileSpec profile))))
      (Some (tp_MinTLSVersion (resolveProfileSpec profile))) groups" by blast
  have "?p = resolveProfileSpec profile"
    using found by (auto simp: profile_found_def effective_profile_def split: sum.splits if_splits)
  note obs = obs [folded this]
  have "servable e (Some (OpenSSLToIANACipherSuites (tp_Ciphers ?p))) (Some (tp_MinTLSVersion ?p)) \<longleftrightarrow> usable_profile ?p"
    by (simp add: servable_def usable_profile_def)
  then show ?thesis using some obs observed_unique [OF obs] by blast
qed

lemma manifests_after_sync:
  assumes "observer_done env written menv s" and "plain_manifests menv c d"
  shows "readable (deployment_manifest menv s) \<longleftrightarrow> usable_profile (effective_profile env)"
    and "readable (daemonset_manifest menv s) \<longleftrightarrow> usable_profile (effective_profile env)"
proof -
  from assms(2) obtain infra where plain: "me_controller_yaml menv = doc_text c" "well_formed c"
    "me_node_yaml menv = doc_text d" "well_formed d" "\<forall>v \<in> ran (oe_environ menv). one_line v"
    "oe_infras menv InfraGlobalName = Inr infra" "one_line (InfrastructureName infra)"
    unfolding plain_manifests_def by blast
  show "readable (deployment_manifest menv s) \<longleftrightarrow> usable_profile (effective_profile env)"
    using deployment_built [OF plain(1,2,5), of s, unfolded served_after_sync [OF assms(1)], folded readable_iff] plain(6,7)
    by simp
  show "readable (daemonset_manifest menv s) \<longleftrightarrow> usable_profile (effective_profile env)"
    by (rule daemonset_built [OF plain(3,4,5), of s, unfolded served_after_sync [OF assms(1)], folded readable_iff])
qed

lemma built_after_sync:
  fixes menv :: ManifestEnv
  assumes "observer_done env written menv s" and "plain_manifests menv c d"
  shows "\<not> usable_profile (effective_profile env) \<Longrightarrow>
      (\<exists>e. built_deployment menv s = Returned (Inl e)) \<and> (\<exists>e. built_daemonset menv s = Returned (Inl e))"
    and "usable_profile (effective_profile env) \<Longrightarrow>
      \<forall>t. deployment_manifest menv s = Inr t \<or> daemonset_manifest menv s = Inr t \<longrightarrow> me_read menv t \<noteq> None \<Longrightarrow>
      ((\<exists>w. built_deployment menv s = Returned (Inr w)) \<longleftrightarrow> deployment_inputs (OperandEnv.truncate menv) s)
      \<and> ((\<exists>w. built_daemonset menv s = Returned (Inr w)) \<longleftrightarrow> daemonset_inputs (OperandEnv.truncate menv) s)"
proof -
  note m = manifests_after_sync [OF assms]
  show "(\<exists>e. built_deployment menv s = Returned (Inl e)) \<and> (\<exists>e. built_daemonset menv s = Returned (Inl e))"
    if "\<not> usable_profile (effective_profile env)"
    using m that
    by (cases "deployment_manifest menv s"; cases "daemonset_manifest menv s")
      (simp_all add: built_deployment_def built_daemonset_def decode_def)
  show "((\<exists>w. built_deployment menv s = Returned (Inr w)) \<longleftrightarrow> deployment_inputs (OperandEnv.truncate menv) s)
      \<and> ((\<exists>w. built_daemonset menv s = Returned (Inr w)) \<longleftrightarrow> daemonset_inputs (OperandEnv.truncate menv) s)"
    if u: "usable_profile (effective_profile env)" and reads: "\<forall>t. deployment_manifest menv s = Inr t \<or> daemonset_manifest menv s = Inr t \<longrightarrow> me_read menv t \<noteq> None"
  proof -
    obtain t u where "deployment_manifest menv s = Inr t" "daemonset_manifest menv s = Inr u"
      using m u by (auto simp: readable_iff)
    moreover obtain x y where "me_read menv t = Some x" "me_read menv u = Some y" using reads calculation by fastforce
    ultimately show ?thesis
      using operands_readable(1) [of "OperandEnv.truncate menv" s x] operands_readable(2) [of "OperandEnv.truncate menv" s y]
      by (simp add: built_deployment_def built_daemonset_def decode_def readable_iff)
  qed
qed

text \<open>
  C31: which TLS profiles can be served. Once the observer has had a sync without an error, and with a readable Infrastructure object
  and values that are single lines, whether the manifests of the operands can be completed depends on the
  cluster's TLS profile only, and is the same for both: the profile must name a cipher suite that Go
  knows or ask for TLS 1.3. A missing APIServer object and every profile but a custom one meet this. With such a profile, and
  completed manifests that the decoder reads, each operand is built exactly when the objects its hooks need can be read. With a
  custom profile of unknown suites below TLS 1.3, neither operand is built any more, whatever else can be read, although the
  manifest of the DaemonSet has no TLS argument.
\<close>
theorem observed_profile_decides:
  fixes menv :: ManifestEnv
  assumes "observer_done env written menv s" and "plain_manifests menv c d"
  shows "(readable (deployment_manifest menv s) \<longleftrightarrow> usable_profile (effective_profile env))
     \<and> (readable (daemonset_manifest menv s) \<longleftrightarrow> usable_profile (effective_profile env))
     \<and> (case ob_apiServer env of
          Inr (Some p) \<Rightarrow> pr_Type p = ''Custom'' \<or> usable_profile (effective_profile env)
        | _ \<Rightarrow> usable_profile (effective_profile env))
     \<and> (usable_profile (effective_profile env)
          \<and> (\<forall>t. deployment_manifest menv s = Inr t \<or> daemonset_manifest menv s = Inr t \<longrightarrow> me_read menv t \<noteq> None) \<longrightarrow>
          ((\<exists>w. built_deployment menv s = Returned (Inr w)) \<longleftrightarrow> deployment_inputs (OperandEnv.truncate menv) s)
          \<and> ((\<exists>w. built_daemonset menv s = Returned (Inr w)) \<longleftrightarrow> daemonset_inputs (OperandEnv.truncate menv) s))
     \<and> (\<not> usable_profile (effective_profile env) \<longrightarrow>
          (\<exists>e. built_deployment menv s = Returned (Inl e)) \<and> (\<exists>e. built_daemonset menv s = Returned (Inl e)))"
proof -
  have "case ob_apiServer env of
        Inr (Some p) \<Rightarrow> pr_Type p = ''Custom'' \<or> usable_profile (effective_profile env)
      | _ \<Rightarrow> usable_profile (effective_profile env)"
    using named_profile_usable by (auto simp: effective_profile_def split: sum.split option.split)
  with manifests_after_sync [OF assms] built_after_sync [OF assms] show ?thesis by blast
qed

text \<open>
  C32: an unusable profile stops the operands altogether. As long as the cluster has a custom profile that cannot be
  served and the spec holds what the observer made of it, no sync of the two operand controllers succeeds, neither to roll out a change nor
  to remove the operand: the objects stay as they are, and so do the finalizers that are set, because the
  controllers build an object before they delete it. An operator that is removed then hangs until the profile is changed.
\<close>
theorem unusable_profile_stops_operands:
  assumes "observer_done env written menv s" and "plain_manifests menv c d" and "\<not> usable_profile (effective_profile env)"
    and "sy_state denv = Inr (s, st)" and "sy_operands denv = operand_env menv"
    and "wants_operand denv \<or> wants_removal denv"
    and "sy_state nenv = Inr (s, st')" and "sy_operands nenv = operand_env menv"
    and "wants_operand nenv \<or> wants_removal nenv"
  shows "fst (deployment_sync denv w) \<noteq> None \<and> fst (daemonset_sync nenv v) \<noteq> None
     \<and> ow_object (snd (deployment_sync denv w)) = ow_object w \<and> ow_object (snd (daemonset_sync nenv v)) = ow_object v
     \<and> (ow_finalizer w \<longrightarrow> ow_finalizer (snd (deployment_sync denv w)))
     \<and> (ow_finalizer v \<longrightarrow> ow_finalizer (snd (daemonset_sync nenv v)))"
proof -
  obtain e e' where "deployment_manifest menv s = Inl e" "daemonset_manifest menv s = Inl e'"
    using manifests_after_sync [OF assms(1,2)] assms(3) by (metis readable_iff sumE)
  then have failing: "getDeployment (operand_env menv) s = Inl e" "getDaemonSet (operand_env menv) s = Inl e'"
    by (simp_all add: getDeployment_def getDaemonSet_def operand_env_def)
  have "fst (deployment_sync denv w) \<noteq> None \<and> ow_object (snd (deployment_sync denv w)) = ow_object w
      \<and> (ow_finalizer w \<longrightarrow> ow_finalizer (snd (deployment_sync denv w)))"
    using assms(4-6) failing(1)
    by (auto simp: deployment_sync_def operand_sync_def delete_operand_def deployment_syncManaged_def EnsureFinalizer_def
        wants_operand_def wants_removal_def split: option.splits)
  moreover have "fst (daemonset_sync nenv v) \<noteq> None \<and> ow_object (snd (daemonset_sync nenv v)) = ow_object v
      \<and> (ow_finalizer v \<longrightarrow> ow_finalizer (snd (daemonset_sync nenv v)))"
    using assms(7-9) failing(2)
    by (auto simp: daemonset_sync_def operand_sync_def delete_operand_def daemonset_syncManaged_def EnsureFinalizer_def
        wants_operand_def wants_removal_def split: option.splits)
  ultimately show ?thesis by blast
qed

subsection \<open>Examples\<close>

definition lab_observer :: "config \<Rightarrow> config \<Rightarrow> Proxy result \<Rightarrow> TLSSecurityProfile option result \<Rightarrow> string \<Rightarrow> ObserverEnv" where
  "lab_observer old new proxy api raw =
     \<lparr>ob_decode = (\<lambda>s. if s = ''old'' then Some (JObject old) else if s = ''new'' then Some (JObject new) else None),
      ob_encode = (\<lambda>m. ''new''), ob_state = Inr (example_operator_spec\<lparr>Spec_ObservedConfig := raw\<rparr>),
      ob_proxy = proxy, ob_apiServer = api, ob_initial = True, ob_gates = Inr ([], [''TLSGroupPreferences'']),
      ob_fips = False, ob_proxy_first = True,
      ob_attempts = (\<lambda>k. (Inr (example_operator_spec\<lparr>Spec_ObservedConfig := raw\<rparr>), Accept)), ob_applyStatus = None\<rparr>"

lemma lab_observer_simps:
  "ob_decode (lab_observer old new proxy api raw) =
     (\<lambda>s. if s = ''old'' then Some (JObject old) else if s = ''new'' then Some (JObject new) else None)"
  "ob_encode (lab_observer old new proxy api raw) = (\<lambda>m. ''new'')"
  "ob_state (lab_observer old new proxy api raw) = Inr (example_operator_spec\<lparr>Spec_ObservedConfig := raw\<rparr>)"
  "ob_proxy (lab_observer old new proxy api raw) = proxy" "ob_apiServer (lab_observer old new proxy api raw) = api"
  "ob_initial (lab_observer old new proxy api raw)"
  "ob_gates (lab_observer old new proxy api raw) = Inr ([], [''TLSGroupPreferences''])"
  "ob_fips (lab_observer old new proxy api raw) = False" "ob_proxy_first (lab_observer old new proxy api raw)"
  "ob_attempts (lab_observer old new proxy api raw) k =
     (Inr (example_operator_spec\<lparr>Spec_ObservedConfig := raw\<rparr>), Accept)"
  "ob_applyStatus (lab_observer old new proxy api raw) = None"
  by (simp_all add: lab_observer_def)

lemma lab_observer_sync:
  fixes old new :: config and proxy :: "Proxy result" and api :: "TLSSecurityProfile option result" and raw :: string
  defines "env \<equiv> lab_observer old new proxy api raw" and "spec \<equiv> example_operator_spec\<lparr>Spec_ObservedConfig := raw\<rparr>"
  assumes "no_null (existing env spec)" and "existing env spec \<noteq> wanted env (existing env spec)"
  obtains tlsErrs proxyErrs cond where
    "ConfigObserver_sync env = Returned (NewMultiLineAggregate (proxyErrs @ tlsErrs),
       Some (spec\<lparr>Spec_ObservedConfig := ''new''\<rparr>), Some cond)"
    and "\<exists>a. observeTLSSecurityProfile env (existing env spec) = Returned (a, tlsErrs)"
    and "proxyErrs = snd (ObserveProxyConfig proxy (existing env spec))"
proof -
  have "gates_registered env" by (simp add: gates_registered_def env_def lab_observer_simps)
  moreover have lab: "ob_state env = Inr spec" "ob_proxy_first env" "ob_proxy env = proxy"
    by (simp_all add: env_def spec_def lab_observer_simps)
  ultimately obtain tlsErrs proxyErrs where
    sync: "ConfigObserver_sync env = Returned (publish env (existing env spec) (wanted env (existing env spec))
       (if ob_proxy_first env then proxyErrs @ tlsErrs else tlsErrs @ proxyErrs))"
    and errs: "\<exists>a. observeTLSSecurityProfile env (existing env spec) = Returned (a, tlsErrs)"
      "proxyErrs = snd (ObserveProxyConfig (ob_proxy env) (existing env spec))"
    using ConfigObserver_sync_wanted [OF _ _ assms(3)] by blast
  have "UpdateSpec (ob_encode env m) (ob_attempts env) = (None, Some (spec\<lparr>Spec_ObservedConfig := ''new''\<rparr>))" for m
    by (simp add: UpdateSpec_def DefaultBackoff_Steps_def numeral_eq_Suc env_def spec_def lab_observer_simps)
  then have "publish env (existing env spec) (wanted env (existing env spec)) es =
      (NewMultiLineAggregate es, Some (spec\<lparr>Spec_ObservedConfig := ''new''\<rparr>),
       Some (case NewMultiLineAggregate es of
         None \<Rightarrow> applied_condition ''ConfigObservationDegraded'' ConditionFalse [] []
       | Some err \<Rightarrow> applied_condition ''ConfigObservationDegraded'' ConditionTrue (err_msg err) ''Error''))" for es
    using assms(4) by (simp add: publish_def Let_def) (simp add: env_def lab_observer_simps Let_def)
  with sync errs lab show thesis by (intro that) simp_all
qed

text \<open>The APIServer object cannot be read while the proxy has changed.\<close>

definition modern_config :: config where
  "modern_config = both_parts None (serving_info False False (the (TLSProfiles ''Modern'')))"

definition lab_proxy :: Proxy where
  "lab_proxy = \<lparr>px_NoProxy = [], px_HTTPProxy = ''proxy:3128'', px_HTTPSProxy = []\<rparr>"

lemma modern_leaves:
  "leaf modern_config MinTLSVersionPath = Some (JString ''VersionTLS13'')" "leaf modern_config ProxyConfigPath = None"
  by (simp_all add: modern_config_def leaf_both_parts paths(2-4) serving_info_def TLSProfiles_def)

theorem failed_reads_keep_config_witness:
  "\<exists>new err s cond. ConfigObserver_sync (lab_observer modern_config new (Inr lab_proxy) (Inl (Failure ''timeout'')) ''old'')
       = Returned (Some err, Some s, Some cond) \<and> cnd_Status cond = ConditionTrue
     \<and> leaf (in_effect (lab_observer modern_config new (Inr lab_proxy) (Inl (Failure ''timeout'')) ''old'')
         example_operator_spec (Some s)) MinTLSVersionPath = Some (JString ''VersionTLS13'')"
proof -
  let ?env = "\<lambda>new. lab_observer modern_config new (Inr lab_proxy) (Inl (Failure ''timeout'')) ''old''"
  let ?spec = "example_operator_spec\<lparr>Spec_ObservedConfig := ''old''\<rparr>"
  define new where "new = wanted (?env Map.empty) modern_config"
  have wanted: "wanted (?env new) m = wanted (?env Map.empty) m" for m
    by (simp add: wanted_def wanted_tls_def profile_found_def lab_observer_simps)
  have old: "existing (?env new) ?spec = modern_config" by (simp add: existing_def lab_observer_simps)
  have "leaf (wanted (?env new) modern_config) ProxyConfigPath \<noteq> None"
    by (simp add: leaf_wanted(1) lab_observer_simps wanted_proxy_def lab_proxy_def proxyToMap_def)
  then have changes: "modern_config \<noteq> wanted (?env new) modern_config" using modern_leaves(2) by metis
  have nn: "no_null (existing (?env new) ?spec)" by (simp add: old no_null_def modern_leaves)
  obtain err cond where sync: "ConfigObserver_sync (?env new) =
      Returned (err, Some (?spec\<lparr>Spec_ObservedConfig := ''new''\<rparr>), Some cond)"
    by (rule lab_observer_sync [OF nn]) (use changes old in auto)
  have "ob_decode (?env new) (ob_encode (?env new) (wanted (?env new) (existing (?env new) ?spec))) =
      Some (JObject (wanted (?env new) (existing (?env new) ?spec)))"
    unfolding old wanted by (simp add: lab_observer_simps new_def)
  from failed_reads_keep_config [OF sync _ nn this] have kept:
    "leaf (in_effect (?env new) ?spec (Some (?spec\<lparr>Spec_ObservedConfig := ''new''\<rparr>))) MinTLSVersionPath =
       leaf modern_config MinTLSVersionPath" "err \<noteq> None" "cnd_Status cond = ConditionTrue"
    by (simp_all add: old tls_unknown_def profile_found_def lab_observer_simps)
  then show ?thesis using sync modern_leaves(1) by (auto simp: in_effect_def)
qed

text \<open>A custom profile without a suite that Go knows.\<close>

definition odd_profile :: TLSSecurityProfile where
  "odd_profile = \<lparr>pr_Type = ''Custom'', pr_Custom = Some
     \<lparr>tp_Ciphers = [''AES256-SHA256''], tp_Groups = [], tp_MinTLSVersion = ''VersionTLS12''\<rparr>\<rparr>"

definition odd_observer :: "config \<Rightarrow> ObserverEnv" where
  "odd_observer new = lab_observer Map.empty new (Inl (NotFound ''proxy'')) (Inr (Some odd_profile)) []"

definition odd_config :: config where
  "odd_config = wanted (odd_observer Map.empty) Map.empty"

definition odd_manifests :: ManifestEnv where
  "odd_manifests = (manifest_env tls13_config)\<lparr>me_unmarshal := unmarshal_object (ob_decode (odd_observer odd_config))\<rparr>"

definition odd_spec :: OperatorSpec where
  "odd_spec = example_operator_spec\<lparr>Spec_ObservedConfig := ''new''\<rparr>"

lemma odd_profile_unusable: "\<not> usable_profile (effective_profile (odd_observer new))"
  by (simp add: odd_observer_def effective_profile_def lab_observer_simps resolveProfileSpec_def odd_profile_def
      usable_profile_def OpenSSLToIANACipherSuites_def openSSLToIANACiphers_def map_filter_simps)

lemma odd_manifests_plain: "plain_manifests odd_manifests controller_excerpt node_excerpt"
proof -
  have "oe_environ odd_manifests = oe_environ (manifest_env tls13_config)" "oe_infras odd_manifests = oe_infras (manifest_env tls13_config)"
    "me_controller_yaml odd_manifests = doc_text controller_excerpt" "me_node_yaml odd_manifests = doc_text node_excerpt"
    by (simp_all add: odd_manifests_def manifest_env_simps)
  then show ?thesis
    unfolding plain_manifests_def
    using excerpts_well_formed manifest_env_plain(1) [of tls13_config] manifest_env_plain(2) manifest_env_simps(1)
    by metis
qed

lemma odd_observer_done:
  "observer_done (odd_observer odd_config) (Some odd_spec) odd_manifests odd_spec"
proof -
  let ?env = "odd_observer odd_config" and ?spec = "example_operator_spec\<lparr>Spec_ObservedConfig := []\<rparr>"
  have wanted: "wanted ?env m = wanted (odd_observer Map.empty) m" for m
    by (simp add: wanted_def wanted_tls_def profile_found_def odd_observer_def lab_observer_simps)
  have old: "existing ?env ?spec = Map.empty" by (simp add: existing_def odd_observer_def lab_observer_simps)
  have "leaf (wanted ?env Map.empty) MinTLSVersionPath \<noteq> None"
    by (simp add: paths leaf_wanted(2) wanted_tls_def profile_found_def serving_info_def odd_observer_def lab_observer_simps)
  moreover have none: "leaf Map.empty path = None" if "path \<noteq> []" for path
    using that by (cases path) (simp_all add: leaf_def NestedField_def)
  ultimately have changes: "Map.empty \<noteq> wanted ?env Map.empty"
    by (metis MinTLSVersionPath_def list.discI)
  have nn: "no_null (existing ?env ?spec)" by (simp add: old no_null_def none ProxyConfigPath_def)
  obtain tlsErrs proxyErrs cond where
    sync: "ConfigObserver_sync ?env = Returned (NewMultiLineAggregate (proxyErrs @ tlsErrs),
      Some (?spec\<lparr>Spec_ObservedConfig := ''new''\<rparr>), Some cond)"
    and errs: "\<exists>a. observeTLSSecurityProfile ?env Map.empty = Returned (a, tlsErrs)"
      "proxyErrs = snd (ObserveProxyConfig (Inl (NotFound ''proxy'')) Map.empty)"
    by (rule lab_observer_sync [OF nn [unfolded odd_observer_def], folded odd_observer_def, unfolded old, OF changes])
  have "tlsErrs = []" "proxyErrs = []"
    using errs by (auto simp: observeTLSSecurityProfile_def odd_observer_def lab_observer_simps
        innerTLSSecurityProfileObservations_def NestedString_def NestedStringSlice_def NestedField_def rbind_Inr
        error_of_def paths ObserveProxyConfig_def Let_def)
  then have "ConfigObserver_sync ?env = Returned (None, Some odd_spec, Some cond)"
    using sync by (simp add: NewMultiLineAggregate_None odd_spec_def)
  moreover have "ob_decode ?env (ob_encode ?env (wanted ?env (existing ?env ?spec))) =
      Some (JObject (wanted ?env (existing ?env ?spec)))"
    unfolding old wanted by (simp add: odd_observer_def lab_observer_simps odd_config_def)
  moreover have "ob_state ?env = Inr ?spec" "ob_decode ?env [] = None"
    "me_unmarshal odd_manifests = unmarshal_object (ob_decode ?env)"
    by (simp_all add: odd_observer_def lab_observer_simps odd_manifests_def)
  ultimately show ?thesis unfolding observer_done_def using nn by auto
qed

theorem observed_profile_decides_witness:
  "\<not> readable (deployment_manifest odd_manifests odd_spec) \<and> (\<exists>e. built_daemonset odd_manifests odd_spec = Returned (Inl e))"
  using observed_profile_decides [OF odd_observer_done odd_manifests_plain] odd_profile_unusable by blast

text \<open>The user deletes the ClusterCSIDriver of a managed operator.\<close>

definition odd_sync :: "'d \<Rightarrow> 'd SyncEnv" where
  "odd_sync d =
     \<lparr>sy_state = Inr (odd_spec, []), sy_deletion = Inr True, sy_ensure = None, sy_remove = None,
      sy_operands = operand_env odd_manifests, sy_cached = Inr d, sy_apply = (\<lambda>r. Inr d), sy_delete = None,
      sy_applyStatus = None, sy_now = 0\<rparr>"

theorem unusable_profile_stops_operands_witness:
  "let w = \<lparr>ow_finalizer = True, ow_object = Some rolled_out, ow_status = []\<rparr>;
       v = \<lparr>ow_finalizer = True, ow_object = Some rolled_out_nodes, ow_status = []\<rparr>
   in ow_finalizer (snd (deployment_sync (odd_sync rolled_out) w))
      \<and> ow_object (snd (daemonset_sync (odd_sync rolled_out_nodes) v)) = Some rolled_out_nodes"
proof -
  have "sy_state (odd_sync d) = Inr (odd_spec, [])" "sy_operands (odd_sync d) = operand_env odd_manifests"
    "wants_operand (odd_sync d) \<or> wants_removal (odd_sync d)" for d
    by (simp_all add: odd_sync_def wants_removal_def odd_spec_def example_operator_spec_def)
  from unusable_profile_stops_operands [OF odd_observer_done odd_manifests_plain odd_profile_unusable this this]
  show ?thesis by (simp add: Let_def)
qed

end
