(* ===== verification/Spec2Isabelle.thy ===== *)
theory Spec2Isabelle
  imports Operator_Spec Hybrid_Environment Test_Simulator Resource_Controllers Test_Extension Config_Observer
begin

text \<open>
  A model of vmware-vsphere-csi-driver-operator, the OpenShift operator that installs the vSphere
  CSI driver, with the theorems that make it correct. Source paths are below \<open>pkg/operator\<close> unless they say otherwise.

  The program. \<open>starter.go\<close> starts two controllers. The main one (\<open>vspherecontroller\<close>) runs \<open>sync\<close>
  on every change: it reads the cloud configuration, completes the Infrastructure object, logs in
  to every vCenter, writes the driver's configuration Secret, runs the environment checks when the
  exponential backoff lets them, turns their verdict into operator conditions, starts the driver's
  own controllers once when nothing blocks it, and lets the storage class controller tag datastores,
  create a storage policy per vCenter and apply the StorageClass. A removed operator deletes its
  operands. The second controller (\<open>driverfeaturescontroller.go\<close>) keeps a feature ConfigMap.

  The theories, in the order they build on each other:

    \<^item> \<open>Prelude\<close>: Go errors, results and panics as values, their monadic composition, the collections
      \<open>go_simps\<close>, \<open>check_simps\<close> and \<open>cond_simps\<close> of rewrite rules the component proofs use.
    \<^item> \<open>Go_Strings\<close>: what the source uses of \<open>strings\<close> and \<open>strconv\<close> (prefixes, trimming, splitting,
      \<open>ReplaceAll\<close>, number parsing with bases and range errors).
    \<^item> \<open>Semver\<close>, \<open>Version_Check\<close>: the vendored semver package and \<open>utils/version_check.go\<close>; the comparison
      is the order of a key (locale \<open>three_way\<close>, interpreted on both comparisons).
    \<^item> \<open>Api_Types\<close>, \<open>Topology\<close>: the API objects, \<open>utils/topology.go\<close>, \<open>config.go\<close>, \<open>metric.go\<close>.
    \<^item> \<open>Vclib\<close>: \<open>vclib/connection.go\<close>; a log records every session opened and closed.
    \<^item> \<open>Check_Result\<close>, \<open>Simple_Checks\<close>, \<open>Node_Check\<close>, \<open>Node_Pool\<close>: \<open>checks/*.go\<close>. \<open>Check_Result\<close> states the
      contract of a checker (locale \<open>cluster_check\<close>), which all three checkers and their composite
      meet. \<open>Node_Pool\<close> is the worker pool of the node check as a step relation: a step is what one
      goroutine does between two synchronisations, so every interleaving is a run.
    \<^item> \<open>Env_Checker\<close>: \<open>vsphere_environment_checker.go\<close> and the \<open>wait.Backoff\<close> it steps.
    \<^item> \<open>Conditions\<close>: \<open>updateConditions\<close>, \<open>hasErrorConditions\<close>, \<open>removeConditions\<close> and the condition
      helpers of library-go (locale \<open>condition_store\<close>), its retry loop included.
    \<^item> \<open>Platform_Spec\<close>: \<open>loadCloudConfig\<close>, \<open>getvCenterName\<close>, \<open>ConvertToPlatformSpec\<close>.
    \<^item> \<open>Storage_Policy\<close>, \<open>Sc_Controller\<close>: \<open>storageclasscontroller/vmware.go\<close> and
      \<open>storageclasscontroller.go\<close>, against services with a state of their own.
    \<^item> \<open>Driver_Config\<close>: login, credentials, the configuration file and the Secret.
    \<^item> \<open>Driver_Starter\<close>: the hooks of \<open>driver_starter.go\<close>, its conditional resources, the feature
      controller and the remover of stale conditions.
    \<^item> \<open>Controller\<close>: \<open>sync\<close> of the main controller and \<open>operator_removal.go\<close>. The record
      \<open>VSphereController\<close> is the Go struct's state, its extension \<open>World\<close> what the outside has seen,
      \<open>Env\<close> what one sync finds. \<open>Controller_Runs\<close>: what the parts of a sync leave alone, and the
      invariant of every run of the operator. \<open>Controller_Verdicts\<close>: from a check result to the
      conditions. \<open>Controller_Sync\<close>: whole syncs.
    \<^item> \<open>Operand_Hooks\<close>: the chains of hooks, those of library-go included, that build the Deployment and
      the DaemonSet of the driver.
    \<^item> \<open>Manifest_Hooks\<close>: the textual passes over \<open>controller.yaml\<close> and \<open>node.yaml\<close> that come before these
      hooks (images, TLS settings, leader election), related to a substitution on lines of placeholders.
    \<^item> \<open>Operator_Start\<close>: \<open>RunOperator\<close>, from the clients and the feature gates to the two controllers.
    \<^item> \<open>Operator_Spec\<close>: the abstract specification of the main controller, a machine with three kinds of
      steps on the flag of the running driver and the three conditions the controller owns; the
      detailed controller refines it in every run from a start of the process, among other writers.
    \<^item> \<open>Operand_Controllers\<close>: the syncs of library-go's \<open>DeploymentController\<close> and
      \<open>CSIDriverNodeServiceController\<close>, which the driver starter starts (locale \<open>operand_controller\<close>), with
      their finalizers, and a step relation of both beside the main controller and its restarts.
    \<^item> \<open>Resource_Controllers\<close>: what else \<open>createCSIDriver\<close> starts, library-go's static resource controllers
      with the conditional groups of \<open>Driver_Starter\<close>, the log level and the management state controller, and
      a step relation of all writers of the operator's objects.
    \<^item> \<open>Config_Observer\<close>: the last of them, library-go's configuration observer with feature gates: the
      observed proxy and TLS profile, \<open>mergo.Merge\<close> on JSON values, and what the manifests make of them.
    \<^item> \<open>Test_Objects\<close>, \<open>Test_Simulator\<close>: \<open>testlib/testlib.go\<close> and \<open>testlib/vcsim_framework.go\<close>, the fixtures
      and simulated vCenters of the unit tests, and the syncs of the table of \<open>TestSync\<close>, from the stores and
      the simulator of a row to the conditions it expects, as a theorem.
    \<^item> \<open>Hybrid_Environment\<close>: the end-to-end tests in \<open>openshift-tests/e2e/hybrid_environment.go\<close> (in the
      top directory) on a cluster that is only seen through its API. \<open>Test_Extension\<close>: how
      \<open>openshift-tests/cmd\<close> registers them in suites, restricted to the platforms of their tags.
    \<^item> \<open>Example_Cluster\<close>, \<open>Controller_Examples\<close>: concrete clusters for the witnesses.

  What is shown. Safety of the installation (the driver starts only after a verdict that allows
  it, once, and no session leaks), what the conditions say after every kind of sync, that one
  passing check heals every state, the refinement of a small specification and from it that no
  degraded or disabled operator offers an upgrade,
  when the process serves at all, when its operands can be built, what their containers are and
  that a changed configuration replaces the pods, recovery after a
  failed login and the cases where there is none, the backoff and its bounds, the node check against
  its sequential meaning with termination, absence of deadlock up to twenty nodes and a
  deadlock beyond, the round trip of escaped credentials through a quoted configuration value, the
  independence of the configuration file of Go's map order, idempotence of the platform
  conversion, what the storage policy sync establishes, and the agreement of the controllers on
  topology and on the files to remove, the convergence of the operands and the finalizers a removal can
  leave behind, that the passes over a manifest amount to one substitution and when they fail, which TLS profiles
  they can be built for, what a failed observation keeps, that the static
  resources follow the operator's state and that what is removed stays removed. Of the repository's own tests: that every sync of the unit test of \<open>sync\<close> ends as its table
  says, whatever the interleaving of the checks, that the operator reports a hybrid cluster the way the end-to-end test expects, and
  that this test restores what it changes. Several theorems state defects of the code as it is; their
  texts say so.

  Modelling choices. A return with an error is a sum or an option, a panic and \<open>os.Exit\<close> are
  outcomes. Code outside the repository is a parameter: the vCenter's answers (\<open>VCService\<close>, \<open>VClient\<close>,
  \<open>PolicyServer\<close>), listers as functions of the name, the two configuration parsers, the hash
  functions, jitter and clock reads, and the answers of the API server to each attempt of a status
  update. A Go map that is ranged over is a list in the order of this iteration. A vCenter call that
  runs into a timeout is one that answers with an error. Durations are integers in nanoseconds:
  the largest, an hour and a percent, is far below 2 to the 63rd. No definition needs fuel: the
  recursions are structural, and the pool's runs end by a weight that each step lowers.

  Not modelled: the wiring of informers in \<open>starter.go\<close> and in the test library, the start of a goroutine per
  controller, the command line, the unused INI writer in \<open>config.go\<close>, logging, and the parsers of YAML, INI, JSON and
  CEL, which are parameters like the API server and the simulated vCenter.
  In-memory caches are read once per sync where the code reads them more than once without a
  write in between.
\<close>

subsection \<open>One decision about topology\<close>

lemma add_missing_domains: "FailureDomains (add_missing cfg m vs spec) = FailureDomains spec"
  by (induction cfg m vs spec rule: add_missing.induct) (simp_all add: addVCenter_def split: option.split)

lemma convert_few_domains:
  assumes "VCenters spec = [] \<longrightarrow> FailureDomains spec = []"
  shows "1 < length (FailureDomains (convert_spec cfg spec)) \<longleftrightarrow> 1 < length (FailureDomains spec)"
  using assms
  by (auto simp: convert_spec_def convertIntreeToPlatformSpec_def addFailureDomainsToPlatformSpec_def
      add_missing_domains Let_def split: option.split)

definition placed :: "Infrastructure \<Rightarrow> bool" where
  "placed infra \<longleftrightarrow> (case Platform_VSphere infra of None \<Rightarrow> True
     | Some spec \<Rightarrow> VCenters spec = [] \<longrightarrow> FailureDomains spec = [])"

lemma converted_categories:
  assumes "placed infra"
  shows "GetTopologyCategories d (ConvertToPlatformSpec cfg infra) = GetTopologyCategories d infra"
  using assms convert_few_domains
  by (auto simp: GetTopologyCategories_def GetInfraTopologyCategories_def ConvertToPlatformSpec_def
      placed_def Let_def split: option.split)

text \<open>
  C25: the parts of the operator agree on topology. The provisioner's arguments and the feature
  ConfigMap are made by other controllers, from the \<open>Infrastructure\<close> object as it is stored, the
  \<open>[Labels]\<close> section of the driver's configuration by the main controller from the copy it has completed.
  Completing it does not change the decision as long as an object without vCenters has no failure
  domains: either all three turn topology on, or none does.
\<close>
theorem topology_agreement:
  assumes "placed infra"
  shows "topologyHook (\<lambda>n. Inr d) (\<lambda>n. Inr infra) deployment =
       Inr (on_containers (add_args ''csi-provisioner''
         (if has_prefix (cloud_conf_tail d (ConvertToPlatformSpec cfg infra)) (nl @ ''[Labels]'')
          then [''--feature-gates=Topology=true'', ''--strict-topology'']
          else [''--feature-gates=Topology=false''])) deployment)
     \<and> feature_data manifest d infra ''improved-volume-topology'' =
       (if has_prefix (cloud_conf_tail d (ConvertToPlatformSpec cfg infra)) (nl @ ''[Labels]'')
        then Some ''true'' else manifest ''improved-volume-topology'')"
proof -
  have "has_prefix (cloud_conf_tail d i) (nl @ ''[Labels]'') \<longleftrightarrow> GetTopologyCategories d i \<noteq> []" for i
    by (auto simp: cloud_conf_tail_def has_prefix_def nl_def Let_def)
  then show ?thesis
    using converted_categories [OF assms, of d cfg]
    by (simp add: topologyHook_def feature_data_def Let_def rbind_Inr)
qed

definition plain_deployment :: Workload where
  "plain_deployment =
     \<lparr>wl_Annotations = None, tpl_Annotations = None,
      InitContainers = [],
      Containers = [\<lparr>ct_Name = ''csi-provisioner'', ct_Image = [], ct_Args = [], ct_Env = [], ct_VolumeMounts = []\<rparr>],
      tpl_Volumes = [], NodeSelector = Map.empty, wl_Replicas = None\<rparr>"

theorem topology_agreement_witness:
  "\<exists>on. topologyHook (\<lambda>n. Inr lab_driver) (\<lambda>n. Inr zones_infra) plain_deployment =
       Inr (on_containers (add_args ''csi-provisioner''
         (if on then [''--feature-gates=Topology=true'', ''--strict-topology'']
          else [''--feature-gates=Topology=false''])) plain_deployment)
     \<and> feature_data Map.empty lab_driver zones_infra ''improved-volume-topology'' =
         (if on then Some ''true'' else None)"
proof -
  have "placed zones_infra" by (simp add: placed_def zones_infra_def)
  from topology_agreement [OF this, of lab_driver plain_deployment "Some lab_config" Map.empty]
  show ?thesis by fastforce
qed

subsection \<open>Removal and installation\<close>

text \<open>
  Removal leaves nothing behind. The files a removed operator deletes its objects from are
  exactly those the operator's controllers create objects from (the conditional groups, the Deployment,
  the DaemonSet, the ServiceMonitor, the configuration Secret and the feature ConfigMap) and those
  of the former webhook; whatever the operator's state, no group is created and deleted at once.
\<close>
theorem removal_covers_install:
  "set (w_removed (snd (removeOperands env st w))) = set (w_removed w) \<union> set operand_assets \<union> set config_assets
       \<union> set (group_assets StaticResources) \<union> set (group_assets SnapshotClass) \<union> set (group_assets WebhookResources)
   \<and> \<not> (should_create g state crd \<and> should_delete g state)"
proof -
  obtain err w' where rm: "removeOperands env st w = (err, w')" by fastforce
  have "set assetsToBeDeleted = set operand_assets \<union> set config_assets
       \<union> set (group_assets StaticResources) \<union> set (group_assets SnapshotClass) \<union> set (group_assets WebhookResources)"
    unfolding assetsToBeDeleted_def operand_assets_def config_assets_def by auto
  moreover have "\<not> (should_create g state crd \<and> should_delete g state)"
    by (cases g) auto
  ultimately show ?thesis using removeOperands_keeps(7) [OF rm] by (auto simp: rm)
qed

end
